(* ===== verification/Prelude.thy ===== *)
theory Prelude
  imports Complex_Main "HOL-Library.Word" "HOL-Library.Sublist" "HOL-Library.Char_ord" "HOL-Library.List_Lexorder"
begin

text \<open>
  Shared vocabulary of the development: machine integers, Go floats, run-time panics, and the
  two small sequencing combinators the component theories are written with. A Go function that
  can panic is modelled by a value of type \<open>'a outcome\<close>; a Go function that also talks to the
  outside is a \<open>('w, 'a) prog\<close>, that is a function from the world to an outcome and the world
  after it. A panic keeps the world it happened in: what was done before it stays done.
\<close>

section \<open>Machine values\<close>

type_synonym int64 = "64 word"

text \<open>
  A Go \<open>float64\<close>: a finite value is kept as the rational number it denotes.
\<close>

datatype float64 = Finite rat | PosInf | NegInf | NaN

section \<open>Panics\<close>

datatype panic = NilDereference | TypeAssertion | IndexOutOfRange

datatype 'a outcome = Ret 'a | Panic panic

definition obind :: "'a outcome \<Rightarrow> ('a \<Rightarrow> 'b outcome) \<Rightarrow> 'b outcome" where
  "obind m k = (case m of Ret a \<Rightarrow> k a | Panic p \<Rightarrow> Panic p)"

lemma obind_Ret [simp]: "obind (Ret a) k = k a"
  by (simp add: obind_def)

lemma obind_Panic [simp]: "obind (Panic p) k = Panic p"
  by (simp add: obind_def)

lemma obind_eq_Ret: "obind m k = Ret b \<longleftrightarrow> (\<exists>a. m = Ret a \<and> k a = Ret b)"
  by (cases m) auto

lemma obind_cong [fundef_cong]:
  "m = m' \<Longrightarrow> (\<And>a. m' = Ret a \<Longrightarrow> k a = k' a) \<Longrightarrow> obind m k = obind m' k'"
  by (cases m') auto

section \<open>World-passing programs\<close>

type_synonym ('w, 'a) prog = "'w \<Rightarrow> 'a outcome \<times> 'w"

definition return :: "'a \<Rightarrow> ('w, 'a) prog" where
  "return a w = (Ret a, w)"

definition panic :: "panic \<Rightarrow> ('w, 'a) prog" where
  "panic p w = (Panic p, w)"

definition lift_outcome :: "'a outcome \<Rightarrow> ('w, 'a) prog" where
  "lift_outcome m w = (m, w)"

definition andThen :: "('w, 'a) prog \<Rightarrow> ('a \<Rightarrow> ('w, 'b) prog) \<Rightarrow> ('w, 'b) prog" where
  "andThen m k w = (case m w of (Ret a, w') \<Rightarrow> k a w' | (Panic p, w') \<Rightarrow> (Panic p, w'))"

text \<open>Reading a Go pointer: \<open>None\<close> is nil.\<close>

definition deref :: "'a option \<Rightarrow> ('w, 'a) prog" where
  "deref p = (case p of None \<Rightarrow> panic NilDereference | Some a \<Rightarrow> return a)"

named_theorems prog_simps \<open>equations that run a program one step\<close>

lemma return_run [prog_simps]: "return a w = (Ret a, w)"
  by (simp add: return_def)

lemma panic_run [prog_simps]: "panic p w = (Panic p, w)"
  by (simp add: panic_def)

lemma lift_outcome_run [prog_simps]: "lift_outcome m w = (m, w)"
  by (simp add: lift_outcome_def)

lemma deref_None [prog_simps]: "deref None w = (Panic NilDereference, w)"
  by (simp add: deref_def prog_simps)

lemma deref_Some [prog_simps]: "deref (Some a) w = (Ret a, w)"
  by (simp add: deref_def prog_simps)

lemma andThen_run [prog_simps]:
  "andThen m k w = (case m w of (Ret a, w') \<Rightarrow> k a w' | (Panic p, w') \<Rightarrow> (Panic p, w'))"
  by (simp add: andThen_def)

lemma andThen_return [simp]: "andThen (return a) k = k a"
  by (rule ext) (simp add: prog_simps)

lemma lift_outcome_Ret [simp]: "lift_outcome (Ret a) = return a"
  by (rule ext) (simp add: prog_simps)

lemma andThen_panic [simp]: "andThen (panic p) k = panic p"
  by (rule ext) (simp add: prog_simps)

lemma andThen_assoc: "andThen (andThen m k) h = andThen m (\<lambda>a. andThen (k a) h)"
  by (rule ext) (simp add: prog_simps split: prod.splits outcome.splits)

text \<open>A program that may also not return: \<open>None\<close>.\<close>

type_synonym ('w, 'a) mayloop = "'w \<Rightarrow> ('a outcome \<times> 'w) option"

definition returning :: "('w, 'a) prog \<Rightarrow> ('w, 'a) mayloop" where
  "returning m w = Some (m w)"

definition andThenL :: "('w, 'a) mayloop \<Rightarrow> ('a \<Rightarrow> ('w, 'b) mayloop) \<Rightarrow> ('w, 'b) mayloop" where
  "andThenL m k w = (case m w of
       None \<Rightarrow> None
     | Some r \<Rightarrow> (case r of (Ret a, w') \<Rightarrow> k a w' | (Panic p, w') \<Rightarrow> Some (Panic p, w')))"

lemma returning_run [prog_simps]: "returning m w = Some (m w)"
  by (simp add: returning_def)

lemma andThenL_run [prog_simps]:
  "andThenL m k w = (case m w of
       None \<Rightarrow> None
     | Some r \<Rightarrow> (case r of (Ret a, w') \<Rightarrow> k a w' | (Panic p, w') \<Rightarrow> Some (Panic p, w')))"
  by (simp add: andThenL_def)

lemma andThenL_eq_Ret:
  "andThenL m k w = Some (Ret b, w'') \<longleftrightarrow>
     (\<exists>a w'. m w = Some (Ret a, w') \<and> k a w' = Some (Ret b, w''))"
  by (auto simp: andThenL_def split: option.splits prod.splits outcome.splits)

lemma andThen_eq_Ret:
  "andThen m k w = (Ret b, w'') \<longleftrightarrow> (\<exists>a w'. m w = (Ret a, w') \<and> k a w' = (Ret b, w''))"
  by (auto simp: andThen_def split: prod.splits outcome.splits)

lemma run_pair: "fst m = r \<Longrightarrow> m = (r, snd m)"
  by (cases m) simp

section \<open>Lists\<close>

lemma remdups_adj_sorted_distinct: "sorted xs \<Longrightarrow> distinct (remdups_adj xs)"
  by (induction xs rule: remdups_adj.induct) (auto simp: le_less)

text \<open>\<open>slices.Sort\<close> followed by \<open>slices.Compact\<close>: the elements, once each, in order.\<close>

definition sort_compact :: "'a::linorder list \<Rightarrow> 'a list" where
  "sort_compact xs = remdups_adj (sort xs)"

lemma set_sort_compact [simp]: "set (sort_compact xs) = set xs"
  by (simp add: sort_compact_def)

lemma sorted_sort_compact [simp]: "sorted (sort_compact xs)"
  by (simp add: sort_compact_def sorted_remdups_adj)

lemma distinct_sort_compact [simp]: "distinct (sort_compact xs)"
  by (simp add: sort_compact_def remdups_adj_sorted_distinct)

lemma sort_compact_eq: "sort_compact xs = sorted_list_of_set (set xs)"
  using sorted_sort_compact distinct_sort_compact
  by (metis set_sort_compact sorted_list_of_set.idem_if_sorted_distinct)

lemma filter_length_all: "length (filter P xs) = length xs \<longleftrightarrow> (\<forall>x \<in> set xs. P x)"
  by (induction xs) (auto simp: le_imp_less_Suc order_less_imp_not_eq)

end
