(* ===== verification/GoErrors.thy ===== *)
theory GoErrors
  imports Prelude
begin

text \<open>
  Go's error values, as far as the sources build and inspect them: \<open>fmt.Errorf\<close> with and
  without \<open>%w\<close>, \<open>errors.Join\<close>, \<open>errors.Is\<close> and the text of an error. The nil error is
  \<open>None\<close> in an \<open>goerror option\<close>.
\<close>

section \<open>Error values\<close>

text \<open>
  \<open>Leaf i m\<close> is an error that wraps nothing: \<open>i\<close> identifies the value (a package-level
  sentinel such as \<open>lvm2go.ErrVolumeGroupNotFound\<close> is compared by identity), \<open>m\<close> is its
  text. \<open>Wrapf s e\<close> is \<open>fmt.Errorf("s: %w", e)\<close>.
\<close>

datatype goerror = Leaf string string | Wrapf string goerror | Joined "goerror list"

definition errorf :: "string \<Rightarrow> goerror" where
  "errorf m = Leaf [] m"

type_synonym 'a fallible = "(goerror + 'a) outcome"

definition tryO :: "'a fallible \<Rightarrow> ('a \<Rightarrow> 'b fallible) \<Rightarrow> 'b fallible" where
  "tryO m k = obind m (\<lambda>r. case r of Inl e \<Rightarrow> Ret (Inl e) | Inr a \<Rightarrow> k a)"

lemma tryO_simps [simp]:
  "tryO (Ret (Inr a)) k = k a"
  "tryO (Ret (Inl e)) k = Ret (Inl e)"
  "tryO (Panic p) k = Panic p"
  by (simp_all add: tryO_def)

lemma obind_sum_ok:
  "obind m (\<lambda>r. case r of Inl e \<Rightarrow> Ret (Inl (f e)) | Inr a \<Rightarrow> k a) = Ret (Inr b) \<longleftrightarrow>
     (\<exists>a. m = Ret (Inr a) \<and> k a = Ret (Inr b))"
proof (cases m)
  case (Ret r)
  then show ?thesis by (cases r) simp_all
qed simp

lemma tryO_eq_ok: "tryO m k = Ret (Inr b) \<longleftrightarrow> (\<exists>a. m = Ret (Inr a) \<and> k a = Ret (Inr b))"
  unfolding tryO_def by (rule obind_sum_ok)

text \<open>The same for a function that returns a value or an error and cannot panic.\<close>

definition sbind :: "goerror + 'a \<Rightarrow> ('a \<Rightarrow> goerror + 'b) \<Rightarrow> goerror + 'b" where
  "sbind m k = (case m of Inl e \<Rightarrow> Inl e | Inr a \<Rightarrow> k a)"

lemma sbind_simps [simp]: "sbind (Inl e) k = Inl e" "sbind (Inr a) k = k a"
  by (simp_all add: sbind_def)

lemma sbind_eq_Inr: "sbind m k = Inr b \<longleftrightarrow> (\<exists>a. m = Inr a \<and> k a = Inr b)"
  by (cases m) auto

lemma case_run_okD:
  "(case m of (Ret (Inr a), w) \<Rightarrow> P a w | _ \<Rightarrow> False) \<Longrightarrow> \<exists>a w. m = (Ret (Inr a), w) \<and> P a w"
  by (auto split: prod.splits outcome.splits sum.splits)

section \<open>The text of an error\<close>

fun join_strings :: "string \<Rightarrow> string list \<Rightarrow> string" where
  "join_strings sep [] = []"
| "join_strings sep [x] = x"
| "join_strings sep (x # xs) = x @ sep @ join_strings sep xs"

fun Error :: "goerror \<Rightarrow> string" where
  "Error (Leaf i m) = m"
| "Error (Wrapf s e) = s @ '': '' @ Error e"
| "Error (Joined es) = join_strings [CHR 0x0A] (map Error es)"

section \<open>errors.Join and errors.Is\<close>

text \<open>\<open>errors.Join\<close> drops nil errors and is nil when nothing is left.\<close>

definition errors_Join :: "goerror option list \<Rightarrow> goerror option" where
  "errors_Join es = (case List.map_filter id es of [] \<Rightarrow> None | e # es' \<Rightarrow> Some (Joined (e # es')))"

lemma map_filter_id_Nil: "List.map_filter id es = [] \<longleftrightarrow> (\<forall>e \<in> set es. e = None)"
  by (induction es) (auto simp: List.map_filter_def)

lemma errors_Join_None: "errors_Join es = None \<longleftrightarrow> (\<forall>e \<in> set es. e = None)"
  by (auto simp: errors_Join_def map_filter_id_Nil [symmetric] split: list.splits)

lemma errors_Join_Some_iff: "(\<exists>e. errors_Join es = Some e) \<longleftrightarrow> (\<exists>e. Some e \<in> set es)"
  using errors_Join_None [of es] by (metis not_None_eq)

text \<open>\<open>errors.Is\<close> against a sentinel: the error itself or anything it wraps.\<close>

fun is_error :: "string \<Rightarrow> goerror \<Rightarrow> bool" where
  "is_error i (Leaf j m) = (i = j)"
| "is_error i (Wrapf s e) = is_error i e"
| "is_error i (Joined es) = list_ex (is_error i) es"

definition errors_Is :: "goerror option \<Rightarrow> string \<Rightarrow> bool" where
  "errors_Is e i = (case e of None \<Rightarrow> False | Some e' \<Rightarrow> is_error i e')"

lemma errors_Is_simps [simp]:
  "errors_Is None i = False"
  "errors_Is (Some e) i = is_error i e"
  by (simp_all add: errors_Is_def)

lemma set_map_filter_id [simp]: "set (List.map_filter id es) = {e. Some e \<in> set es}"
  by (induction es) (auto simp: List.map_filter_def)

lemma errors_Is_Join: "errors_Is (errors_Join es) i \<longleftrightarrow> (\<exists>e. Some e \<in> set es \<and> is_error i e)"
proof -
  have "errors_Is (errors_Join es) i \<longleftrightarrow> (\<exists>e \<in> set (List.map_filter id es). is_error i e)"
    by (cases "List.map_filter id es") (simp_all add: errors_Join_def list_ex_iff del: set_map_filter_id)
  then show ?thesis by simp
qed

text \<open>\<open>fmt.Errorf("s: %w", err)\<close> applied to an error that may be nil in the model only.\<close>

definition wrap :: "string \<Rightarrow> goerror option \<Rightarrow> goerror option" where
  "wrap s e = map_option (Wrapf s) e"

lemma errors_Is_wrap [simp]: "errors_Is (wrap s e) i = errors_Is e i"
  by (cases e) (simp_all add: wrap_def)

end
