(* ===== verification/GoUtils.thy ===== *)
theory GoUtils
  imports GoErrors
begin

text \<open>
  The package \<open>internal/utils\<close>: slice difference, the panic-aware \<open>Map\<close>, the two-way
  synchronisation all list-valued fields of a volume group go through, and \<open>ToSnakeCase\<close>.
  The locale \<open>slice_difference\<close> is the contract of the difference that the synchronisation
  relies on; \<open>InLeftButNotInRight\<close> is its provider.
\<close>

section \<open>InLeftButNotInRight\<close>

text \<open>
  The Go code builds a set of the right-hand elements (here the set itself, built by the same
  loop) and appends what is not in it, after two early returns.
\<close>

fun right_members :: "'a list \<Rightarrow> 'a set \<Rightarrow> 'a set" where
  "right_members [] m = m"
| "right_members (x # xs) m = right_members xs (insert x m)"

fun collect_missing :: "'a set \<Rightarrow> 'a list \<Rightarrow> 'a list \<Rightarrow> 'a list" where
  "collect_missing m [] diff = diff"
| "collect_missing m (x # xs) diff =
     collect_missing m xs (if x \<notin> m then diff @ [x] else diff)"

definition InLeftButNotInRight :: "'a list \<Rightarrow> 'a list \<Rightarrow> 'a list" where
  "InLeftButNotInRight left right =
     (if left = [] then []
      else if right = [] then left
      else collect_missing (right_members right {}) left [])"

lemma right_members_eq: "right_members xs m = set xs \<union> m"
  by (induction xs arbitrary: m) auto

lemma collect_missing_eq: "collect_missing m xs diff = diff @ filter (\<lambda>x. x \<notin> m) xs"
  by (induction xs arbitrary: diff) auto

lemma InLeftButNotInRight_filter: "InLeftButNotInRight left right = filter (\<lambda>x. x \<notin> set right) left"
  by (simp add: InLeftButNotInRight_def right_members_eq collect_missing_eq)

section \<open>The contract of a slice difference\<close>

locale slice_difference =
  fixes diff :: "'a list \<Rightarrow> 'a list \<Rightarrow> 'a list"
  assumes set_diff: "set (diff left right) = set left - set right"
    and diff_subseq: "subseq (diff left right) left"
    and diff_distinct: "distinct left \<Longrightarrow> distinct (diff left right)"
begin

lemma diff_empty_iff: "diff left right = [] \<longleftrightarrow> set left \<subseteq> set right"
proof -
  have "diff left right = [] \<longleftrightarrow> set (diff left right) = {}" by simp
  then show ?thesis by (simp only: set_diff) blast
qed

lemma both_empty_iff:
  "diff desired current = [] \<and> diff current desired = [] \<longleftrightarrow> set desired = set current"
  by (auto simp: diff_empty_iff)

lemma apply_both:
  "(set current \<union> set (diff desired current)) - set (diff current desired) = set desired"
  by (auto simp: set_diff)

lemma disjoint_sides: "set (diff desired current) \<inter> set (diff current desired) = {}"
  by (auto simp: set_diff)

lemma diff_new: "set (diff desired current) \<inter> set current = {}"
  by (auto simp: set_diff)

lemma diff_old: "set (diff current desired) \<inter> set desired = {}"
  by (auto simp: set_diff)

end

interpretation sd: slice_difference InLeftButNotInRight
  by unfold_locales (auto simp: InLeftButNotInRight_filter)

section \<open>Map\<close>

text \<open>
  \<open>Map\<close> over a function that may panic (a failed type assertion in the closure). The loop
  appends to the slice made so far.
\<close>

fun Map_loop :: "('a \<Rightarrow> 'b outcome) \<Rightarrow> 'a list \<Rightarrow> 'b list \<Rightarrow> 'b list outcome" where
  "Map_loop f [] acc = Ret acc"
| "Map_loop f (x # xs) acc = obind (f x) (\<lambda>y. Map_loop f xs (acc @ [y]))"

definition MapSlice :: "('a \<Rightarrow> 'b outcome) \<Rightarrow> 'a list \<Rightarrow> 'b list outcome" where
  "MapSlice f original = Map_loop f original []"

lemma Map_loop_pure: "Map_loop (\<lambda>x. Ret (f x)) xs acc = Ret (acc @ map f xs)"
  by (induction xs arbitrary: acc) auto

lemma MapSlice_pure [simp]: "MapSlice (\<lambda>x. Ret (f x)) xs = Ret (map f xs)"
  by (simp add: MapSlice_def Map_loop_pure)

lemma Map_loop_Ret:
  "Map_loop f xs acc = Ret ys \<longleftrightarrow>
     (\<exists>zs. ys = acc @ zs \<and> list_all2 (\<lambda>x z. f x = Ret z) xs zs)"
proof (induction xs arbitrary: acc)
  case Nil
  then show ?case by auto
next
  case (Cons x xs)
  then show ?case
    by (cases "f x") (auto simp: list_all2_Cons1)
qed

lemma MapSlice_Ret: "MapSlice f xs = Ret ys \<longleftrightarrow> list_all2 (\<lambda>x y. f x = Ret y) xs ys"
  by (simp add: MapSlice_def Map_loop_Ret)

section \<open>SequentialTwoWaySync\<close>

text \<open>
  The additions first; the removals only when the additions succeeded; neither callback when it
  has nothing to do.
\<close>

definition SequentialTwoWaySync ::
  "'a list \<Rightarrow> 'a list \<Rightarrow> ('a list \<Rightarrow> ('w, goerror option) prog) \<Rightarrow>
   ('a list \<Rightarrow> ('w, goerror option) prog) \<Rightarrow> ('w, goerror option) prog" where
  "SequentialTwoWaySync desired current new old =
     (let newFromA = InLeftButNotInRight desired current;
          oldFromB = InLeftButNotInRight current desired
      in andThen (if newFromA \<noteq> [] then new newFromA else return None) (\<lambda>err.
         case err of
           Some e \<Rightarrow> return (Some e)
         | None \<Rightarrow> if oldFromB \<noteq> [] then old oldFromB else return None))"

lemma SequentialTwoWaySync_in_sync:
  "set desired = set current \<Longrightarrow> SequentialTwoWaySync desired current new old = return None"
  using sd.both_empty_iff [of desired current]
  by (simp add: SequentialTwoWaySync_def)

section \<open>ToSnakeCase\<close>

text \<open>
  Go strings are byte strings. \<open>matchFirstCap\<close> is the expression \<open>(.)([A-Z][a-z]+)\<close>,
  \<open>matchAllCap\<close> is \<open>([a-z0-9])([A-Z])\<close>; \<open>ReplaceAllString\<close> rewrites the leftmost
  matches that do not overlap, each with its longest run of lower-case letters, and goes on
  behind the match. A dot does not match a newline. Lower-casing is on ASCII letters.
\<close>

definition is_upper :: "char \<Rightarrow> bool" where
  "is_upper c \<longleftrightarrow> CHR ''A'' \<le> c \<and> c \<le> CHR ''Z''"

definition is_lower :: "char \<Rightarrow> bool" where
  "is_lower c \<longleftrightarrow> CHR ''a'' \<le> c \<and> c \<le> CHR ''z''"

definition is_digit :: "char \<Rightarrow> bool" where
  "is_digit c \<longleftrightarrow> CHR ''0'' \<le> c \<and> c \<le> CHR ''9''"

definition lower_char :: "char \<Rightarrow> char" where
  "lower_char c = (if is_upper c then char_of (of_char c + (32 :: nat)) else c)"

definition ToLower :: "string \<Rightarrow> string" where
  "ToLower s = map lower_char s"

function matchFirstCap :: "string \<Rightarrow> string" where
  "matchFirstCap [] = []"
| "matchFirstCap [c] = [c]"
| "matchFirstCap (c # u # s) =
     (if c \<noteq> CHR 0x0A \<and> is_upper u \<and> takeWhile is_lower s \<noteq> []
      then c # CHR ''_'' # u # takeWhile is_lower s @ matchFirstCap (dropWhile is_lower s)
      else c # matchFirstCap (u # s))"
  by pat_completeness auto
termination
  by (relation "measure length") (auto simp: less_Suc_eq_le intro: le_SucI length_dropWhile_le)

fun matchAllCap :: "string \<Rightarrow> string" where
  "matchAllCap [] = []"
| "matchAllCap [c] = [c]"
| "matchAllCap (c # u # s) =
     (if (is_lower c \<or> is_digit c) \<and> is_upper u
      then c # CHR ''_'' # u # matchAllCap s
      else c # matchAllCap (u # s))"

definition ToSnakeCase :: "string \<Rightarrow> string" where
  "ToSnakeCase str = ToLower (matchAllCap (matchFirstCap str))"

lemma lower_char_not_upper [simp]: "\<not> is_upper (lower_char c)"
proof (cases "is_upper c")
  case True
  then have c: "65 \<le> (of_char c :: nat)" "of_char c \<le> (90 :: nat)"
    by (simp_all add: is_upper_def less_eq_char_def)
  then have "of_char (lower_char c) = of_char c + (32 :: nat)"
    using True by (simp add: lower_char_def)
  with c show ?thesis by (simp add: is_upper_def less_eq_char_def)
next
  case False
  then show ?thesis by (simp add: lower_char_def)
qed

lemma lower_char_idem: "\<not> is_upper c \<Longrightarrow> lower_char c = c"
  by (simp add: lower_char_def)

lemma no_upper_ToLower: "c \<in> set (ToLower s) \<Longrightarrow> \<not> is_upper c"
  by (auto simp: ToLower_def)

lemma matchFirstCap_no_upper: "\<forall>c \<in> set s. \<not> is_upper c \<Longrightarrow> matchFirstCap s = s"
  by (induction s rule: matchFirstCap.induct) auto

lemma matchAllCap_no_upper: "\<forall>c \<in> set s. \<not> is_upper c \<Longrightarrow> matchAllCap s = s"
  by (induction s rule: matchAllCap.induct) auto

lemma ToLower_no_upper: "\<forall>c \<in> set s. \<not> is_upper c \<Longrightarrow> ToLower s = s"
  by (simp add: ToLower_def lower_char_idem map_idI)

lemma filter_underscore_first: "filter (\<lambda>c. c \<noteq> CHR ''_'') (matchFirstCap s) = filter (\<lambda>c. c \<noteq> CHR ''_'') s"
proof (induction s rule: matchFirstCap.induct)
  case (3 c u s)
  have "filter P (takeWhile is_lower s) @ filter P (dropWhile is_lower s) = filter P s" for P
    by (simp flip: filter_append)
  with 3 show ?case by auto
qed auto

lemma filter_underscore_all: "filter (\<lambda>c. c \<noteq> CHR ''_'') (matchAllCap s) = filter (\<lambda>c. c \<noteq> CHR ''_'') s"
  by (induction s rule: matchAllCap.induct) auto

lemma lower_char_underscore: "lower_char c = CHR ''_'' \<longleftrightarrow> c = CHR ''_''"
proof (cases "is_upper c")
  case True
  then have c: "65 \<le> (of_char c :: nat)" "of_char c \<le> (90 :: nat)"
    by (simp_all add: is_upper_def less_eq_char_def)
  then have "of_char (lower_char c) = of_char c + (32 :: nat)"
    using True by (simp add: lower_char_def)
  with c have "lower_char c \<noteq> CHR ''_''" by auto
  moreover have "c \<noteq> CHR ''_''" using c by auto
  ultimately show ?thesis by simp
qed (simp add: lower_char_def)

lemma filter_underscore_ToLower:
  "filter (\<lambda>c. c \<noteq> CHR ''_'') (ToLower s) = ToLower (filter (\<lambda>c. c \<noteq> CHR ''_'') s)"
  by (induction s) (simp_all add: ToLower_def lower_char_underscore)

lemma is_lower_lower_char: "is_upper c \<Longrightarrow> is_lower (lower_char c) \<and> of_char (lower_char c) = of_char c + (32 :: nat)"
proof -
  assume u: "is_upper c"
  then have c: "65 \<le> (of_char c :: nat)" "of_char c \<le> (90 :: nat)"
    by (simp_all add: is_upper_def less_eq_char_def)
  then have "of_char (lower_char c) = of_char c + (32 :: nat)"
    using u by (simp add: lower_char_def)
  with c show ?thesis by (simp add: is_lower_def less_eq_char_def)
qed

lemma lower_char_inj: "lower_char c = lower_char d \<Longrightarrow> \<not> is_lower c \<Longrightarrow> \<not> is_lower d \<Longrightarrow> c = d"
proof -
  assume eq: "lower_char c = lower_char d" and low: "\<not> is_lower c" "\<not> is_lower d"
  have "is_upper c \<longleftrightarrow> is_upper d" using eq low is_lower_lower_char lower_char_idem by metis
  then show "c = d"
    using eq is_lower_lower_char [of c] is_lower_lower_char [of d] lower_char_idem [of c] lower_char_idem [of d]
    by (metis add_right_cancel of_char_eq_iff)
qed

lemma ToLower_inj:
  "ToLower s = ToLower t \<Longrightarrow> list_all (\<lambda>c. \<not> is_lower c) s \<Longrightarrow> list_all (\<lambda>c. \<not> is_lower c) t \<Longrightarrow> s = t"
proof (induction s arbitrary: t)
  case Nil
  then show ?case by (simp add: ToLower_def)
next
  case (Cons c s)
  then show ?case by (cases t) (auto simp: ToLower_def dest: lower_char_inj)
qed

end
