(* ===== verification/Api.thy ===== *)
theory Api
  imports GoErrors
begin

text \<open>
  The package \<open>api/v1alpha1\<close>: the VolumeGroup resource. A Go pointer field and a slice that
  the code tests against nil are options, an optional string type keeps the strings the code
  compares it with (an unknown string is a value like any other), \<open>resource.Quantity\<close> of
  apimachinery is the type parameter \<open>'q\<close>, and a field's name carries the struct's prefix.
  Of the object metadata the fields the controller reads are kept.
\<close>

section \<open>Selectors (lines 304-353)\<close>

type_synonym LSBLKSelectorKey = string
type_synonym PVSelectorOperator = string

definition PVSelectorOpIn :: PVSelectorOperator where "PVSelectorOpIn = ''In''"
definition PVSelectorOpExists :: PVSelectorOperator where "PVSelectorOpExists = ''Exists''"
definition PVSelectorOpDoesNotExist :: PVSelectorOperator where
  "PVSelectorOpDoesNotExist = ''DoesNotExist''"
definition PVSelectorGt :: PVSelectorOperator where "PVSelectorGt = ''Gt''"

lemmas operator_defs = PVSelectorOpIn_def PVSelectorOpExists_def PVSelectorOpDoesNotExist_def
  PVSelectorGt_def

text \<open>The enumeration the API server validates a key against (line 352).\<close>

definition selector_key_enum :: "LSBLKSelectorKey list" where
  "selector_key_enum =
    [''NAME'', ''KNAME'', ''PATH'', ''MAJ:MIN'', ''FSAVAIL'', ''FSSIZE'', ''FSTYPE'', ''FSUSED'',
     ''FSUSE%'', ''FSROOTS'', ''FSVER'', ''MOUNTPOINT'', ''MOUNTPOINTS'', ''LABEL'', ''UUID'',
     ''PTUUID'', ''PTTYPE'', ''PARTTYPE'', ''PARTTYPENAME'', ''PARTLABEL'', ''PARTUUID'',
     ''PARTFLAGS'', ''RA'', ''RO'', ''RM'', ''HOTPLUG'', ''MODEL'', ''SERIAL'', ''SIZE'', ''STATE'',
     ''OWNER'', ''GROUP'', ''MODE'', ''ALIGNMENT'', ''MIN-IO'', ''OPT-IO'', ''PHY-SEC'',
     ''LOG-SEC'', ''ROTA'', ''SCHED'', ''RQ-SIZE'', ''TYPE'', ''DISC-ALN'', ''DISC-GRAN'',
     ''DISC-MAX'', ''DISC-ZERO'', ''WSAME'', ''WWN'', ''RAND'', ''PKNAME'', ''HCTL'', ''TRAN'',
     ''SUBSYSTEMS'', ''REV'', ''VENDOR'', ''ZONED'', ''DAX'']"

record LSBLKSelectorRequirement =
  req_Key :: LSBLKSelectorKey
  req_Operator :: PVSelectorOperator
  req_Values :: "string list"

record PVSelectorTerm =
  MatchLSBLK :: "LSBLKSelectorRequirement list"

type_synonym PhysicalVolumeSelector = "PVSelectorTerm list"

section \<open>Policies (lines 355-405)\<close>

type_synonym AllocationPolicy = string

definition Contiguous :: AllocationPolicy where "Contiguous = ''Contiguous''"
definition Normal :: AllocationPolicy where "Normal = ''Normal''"
definition Cling :: AllocationPolicy where "Cling = ''Cling''"
definition ClingByTags :: AllocationPolicy where "ClingByTags = ''ClingByTags''"
definition Anywhere :: AllocationPolicy where "Anywhere = ''Anywhere''"
definition Inherit :: AllocationPolicy where "Inherit = ''Inherit''"

definition allocation_policies :: "AllocationPolicy list" where
  "allocation_policies = [Contiguous, Normal, Cling, ClingByTags, Anywhere, Inherit]"

lemmas allocation_policy_defs = allocation_policies_def Contiguous_def Normal_def Cling_def
  ClingByTags_def Anywhere_def Inherit_def

type_synonym DeviceLossSynchronizationPolicy = string

definition DeviceLossFail :: DeviceLossSynchronizationPolicy where
  "DeviceLossFail = ''Fail''"
definition DeviceLossRemoveMissing :: DeviceLossSynchronizationPolicy where
  "DeviceLossRemoveMissing = ''Remove''"
definition DeviceLossForceRemoveMissing :: DeviceLossSynchronizationPolicy where
  "DeviceLossForceRemoveMissing = ''ForceRemove''"

type_synonym DeviceRemovalVolumePolicy = string

definition RemovalMoveAndReduce :: DeviceRemovalVolumePolicy where
  "RemovalMoveAndReduce = ''MoveAndReduce''"
definition RemovalReduce :: DeviceRemovalVolumePolicy where
  "RemovalReduce = ''Reduce''"
definition RemovalForceReduce :: DeviceRemovalVolumePolicy where
  "RemovalForceReduce = ''ForceReduce''"

lemmas policy_defs = DeviceLossFail_def DeviceLossRemoveMissing_def
  DeviceLossForceRemoveMissing_def RemovalMoveAndReduce_def RemovalReduce_def
  RemovalForceReduce_def

section \<open>VolumeGroupSpec (lines 24-130)\<close>

record 'q VolumeGroupSpec =
  spec_NodeName :: string
  spec_NameOnNode :: "string option"
  spec_PhysicalVolumeSelector :: PhysicalVolumeSelector
  spec_Tags :: "string list option"
  spec_MaximumLogicalVolumes :: "int64 option"
  spec_MaximumPhysicalVolumes :: "int64 option"
  spec_PhysicalExtentSize :: "'q option"
  spec_MetadataSize :: "'q option"
  spec_AllocationPolicy :: "AllocationPolicy option"
  spec_DataAlignment :: "'q option"
  spec_DataAlignmentOffset :: "'q option"
  spec_Devices :: "string list option"
  spec_DevicesFile :: "string option"
  spec_Zero :: "bool option"
  spec_AutoActivation :: "bool option"
  spec_DeviceLossSynchronizationPolicy :: DeviceLossSynchronizationPolicy
  spec_DeviceRemovalVolumePolicy :: DeviceRemovalVolumePolicy

section \<open>Status (lines 132-275)\<close>

text \<open>\<open>metav1.Condition\<close>; a time is a number of nanoseconds since the Unix epoch.\<close>

record Condition =
  cond_Type :: string
  cond_Status :: string
  cond_ObservedGeneration :: int64
  cond_LastTransitionTime :: int
  cond_Reason :: string
  cond_Message :: string

record 'q PhysicalVolumeStatus =
  pvst_Name :: string
  pvst_UUID :: string
  pvst_DeviceSize :: "'q option"
  pvst_Attributes :: string
  pvst_Major :: int64
  pvst_Minor :: int64
  pvst_Size :: "'q option"
  pvst_Free :: "'q option"
  pvst_Used :: "'q option"
  pvst_MetadataAreaFree :: "'q option"
  pvst_MetadataAreaSize :: "'q option"
  pvst_PhysicalExtentStart :: "'q option"
  pvst_MetadataAreaCount :: int64
  pvst_MetadataAreaUsedCount :: int64
  pvst_Tags :: "string list"
  pvst_DeviceID :: string
  pvst_DeviceIDType :: string

record 'q VolumeGroupStatus =
  st_Name :: string
  st_UUID :: string
  st_SysID :: string
  st_PhysicalVolumes :: "'q PhysicalVolumeStatus list"
  st_Attributes :: string
  st_Tags :: "string list"
  st_ExtentSize :: "'q option"
  st_ExtentCount :: int64
  st_SequenceNumber :: int64
  st_Size :: "'q option"
  st_Free :: "'q option"
  st_PhysicalVolumeCount :: int64
  st_MissingPhysicalVolumeCount :: int64
  st_MaximumPhysicalVolumes :: int64
  st_LogicalVolumeCount :: int64
  st_MaximumLogicalVolumes :: int64
  st_SnapshotCount :: int64
  st_MetadataAreaCount :: int64
  st_MetadataAreaUsedCount :: int64
  st_Conditions :: "Condition list"

section \<open>VolumeGroup (lines 277-289)\<close>

record ObjectMeta =
  meta_Name :: string
  meta_UID :: string
  meta_Generation :: int64
  meta_Finalizers :: "string list"
  meta_DeletionTimestamp :: "int option"
  meta_DeletionGracePeriodSeconds :: "int64 option"

record 'q VolumeGroup =
  vg_meta :: ObjectMeta
  vg_Spec :: "'q VolumeGroupSpec"
  vg_Status :: "'q VolumeGroupStatus"

text \<open>The getters of the embedded object metadata.\<close>

abbreviation GetUID :: "'q VolumeGroup \<Rightarrow> string" where
  "GetUID vg \<equiv> meta_UID (vg_meta vg)"

abbreviation GetGeneration :: "'q VolumeGroup \<Rightarrow> int64" where
  "GetGeneration vg \<equiv> meta_Generation (vg_meta vg)"

abbreviation GetFinalizers :: "'q VolumeGroup \<Rightarrow> string list" where
  "GetFinalizers vg \<equiv> meta_Finalizers (vg_meta vg)"

text \<open>Writes through the pointer \<open>vg\<close>.\<close>

definition set_Conditions :: "Condition list \<Rightarrow> 'q VolumeGroup \<Rightarrow> 'q VolumeGroup" where
  "set_Conditions cs vg = vg\<lparr>vg_Status := (vg_Status vg)\<lparr>st_Conditions := cs\<rparr>\<rparr>"

definition set_Finalizers :: "string list \<Rightarrow> 'q VolumeGroup \<Rightarrow> 'q VolumeGroup" where
  "set_Finalizers fs vg = vg\<lparr>vg_meta := (vg_meta vg)\<lparr>meta_Finalizers := fs\<rparr>\<rparr>"

lemma set_Conditions_simps [simp]:
  "vg_meta (set_Conditions cs vg) = vg_meta vg"
  "vg_Spec (set_Conditions cs vg) = vg_Spec vg"
  "st_Conditions (vg_Status (set_Conditions cs vg)) = cs"
  by (simp_all add: set_Conditions_def)

lemma set_Finalizers_simps [simp]:
  "vg_Spec (set_Finalizers fs vg) = vg_Spec vg"
  "vg_Status (set_Finalizers fs vg) = vg_Status vg"
  "GetFinalizers (set_Finalizers fs vg) = fs"
  by (simp_all add: set_Finalizers_def)

end
