(* ===== verification/Lsblk.thy ===== *)
theory Lsblk
  imports GoUtils
begin

text \<open>
  The package \<open>internal/lsblk\<close>: the columns of \<open>lsblk\<close>, block devices as decoded JSON
  objects, and the flattening of the device tree.
\<close>

section \<open>Columns (lines 18-80)\<close>

datatype Column = Column (column_string: string)

text \<open>Go orders a string type by its bytes, which is what \<open>slices.Sort\<close> uses.\<close>

instantiation Column :: linorder
begin

definition less_eq_Column :: "Column \<Rightarrow> Column \<Rightarrow> bool" where
  "less_eq_Column a b \<longleftrightarrow> column_string a \<le> column_string b"

definition less_Column :: "Column \<Rightarrow> Column \<Rightarrow> bool" where
  "less_Column a b \<longleftrightarrow> column_string a < column_string b"

instance
  by standard (auto simp: less_eq_Column_def less_Column_def Column.expand)

end

definition ColumnPath :: Column where "ColumnPath = Column ''PATH''"

definition lsblk_columns :: "Column list" where
  "lsblk_columns = map Column
    [''NAME'', ''KNAME'', ''PATH'', ''MAJ:MIN'', ''FSAVAIL'', ''FSSIZE'', ''FSTYPE'', ''FSUSED'',
     ''FSUSE%'', ''FSROOTS'', ''FSVER'', ''MOUNTPOINT'', ''MOUNTPOINTS'', ''LABEL'', ''UUID'',
     ''PTUUID'', ''PTTYPE'', ''PARTTYPE'', ''PARTTYPENAME'', ''PARTLABEL'', ''PARTUUID'',
     ''PARTFLAGS'', ''RA'', ''RO'', ''RM'', ''HOTPLUG'', ''MODEL'', ''SERIAL'', ''SIZE'', ''STATE'',
     ''OWNER'', ''GROUP'', ''MODE'', ''ALIGNMENT'', ''MIN-IO'', ''OPT-IO'', ''PHY-SEC'',
     ''LOG-SEC'', ''ROTA'', ''SCHED'', ''RQ-SIZE'', ''TYPE'', ''DISC-ALN'', ''DISC-GRAN'',
     ''DISC-MAX'', ''DISC-ZERO'', ''WSAME'', ''WWN'', ''RAND'', ''PKNAME'', ''HCTL'', ''TRAN'',
     ''SUBSYSTEMS'', ''REV'', ''VENDOR'', ''ZONED'', ''DAX'']"

section \<open>Block devices (lines 82-105)\<close>

text \<open>
  A value of Go's type \<open>any\<close> as far as a block device can hold one. \<open>encoding/json\<close> makes
  nil, bool, float64, string, \<open>[]any\<close> and \<open>map[string]any\<close>; a Go \<open>int\<close> can only be put
  there by hand.
\<close>

datatype goany = GNil | GBool bool | GFloat float64 | GInt int64 | GString string
  | GSlice "goany list" | GMap "(string \<times> goany) list"

type_synonym BlockDevice = "(string \<times> goany) list"

definition Get :: "BlockDevice \<Rightarrow> Column \<Rightarrow> goany option" where
  "Get dev col = map_of dev (ToLower (column_string col))"

definition GetString :: "BlockDevice \<Rightarrow> Column \<Rightarrow> (string \<times> bool) outcome" where
  "GetString dev col = (case Get dev col of
       None \<Rightarrow> Ret ([], False)
     | Some val \<Rightarrow> (case val of GString s \<Rightarrow> Ret (s, True) | _ \<Rightarrow> Panic TypeAssertion))"

definition assert_map :: "goany \<Rightarrow> BlockDevice outcome" where
  "assert_map t = (case t of GMap kvs \<Rightarrow> Ret kvs | _ \<Rightarrow> Panic TypeAssertion)"

definition Children :: "BlockDevice \<Rightarrow> BlockDevice list outcome" where
  "Children dev = (case map_of dev ''children'' of
       None \<Rightarrow> Ret []
     | Some children \<Rightarrow>
         (case children of GSlice ts \<Rightarrow> MapSlice assert_map ts | _ \<Rightarrow> Panic TypeAssertion))"

lemma assert_map_Ret: "assert_map t = Ret kvs \<longleftrightarrow> t = GMap kvs"
  by (cases t) (simp_all add: assert_map_def)

lemma Children_Ret:
  "Children dev = Ret cs \<longleftrightarrow>
     (map_of dev ''children'' = None \<and> cs = []) \<or>
     map_of dev ''children'' = Some (GSlice (map GMap cs))"
proof -
  have "list_all2 (\<lambda>x y. x = GMap y) ts cs \<longleftrightarrow> ts = map GMap cs" for ts
    by (simp add: list_all2_conv_all_nth list_eq_iff_nth_eq) auto
  then show ?thesis
    by (auto simp: Children_def MapSlice_Ret assert_map_Ret split: option.splits goany.splits)
qed

section \<open>RecursiveBlockDevices (lines 144-150)\<close>

text \<open>The number of values in a device tree, which shrinks from a device to its children.\<close>

fun any_weight :: "goany \<Rightarrow> nat" where
  "any_weight (GSlice ts) = Suc (sum_list (map any_weight ts))"
| "any_weight (GMap kvs) = Suc (sum_list (map (\<lambda>(k, v). any_weight v) kvs))"
| "any_weight _ = 1"

definition device_weight :: "BlockDevice \<Rightarrow> nat" where
  "device_weight dev = any_weight (GMap dev)"

lemma map_of_weight: "map_of kvs k = Some v \<Longrightarrow> any_weight v \<le> sum_list (map (\<lambda>(k, v). any_weight v) kvs)"
  by (induction kvs) (auto split: if_splits)

lemma Children_weight: "Children dev = Ret cs \<Longrightarrow> sum_list (map device_weight cs) < device_weight dev"
proof -
  assume "Children dev = Ret cs"
  then consider "cs = []" | "map_of dev ''children'' = Some (GSlice (map GMap cs))"
    by (auto simp: Children_Ret)
  then show ?thesis
  proof cases
    case 2
    then have "any_weight (GSlice (map GMap cs)) \<le> sum_list (map (\<lambda>(k, v). any_weight v) dev)"
      by (rule map_of_weight)
    moreover have "map (any_weight \<circ> GMap) cs = map device_weight cs"
      by (simp add: device_weight_def del: any_weight.simps)
    ultimately show ?thesis by (simp add: device_weight_def)
  qed (simp add: device_weight_def)
qed

function RecursiveBlockDevices :: "BlockDevice list \<Rightarrow> BlockDevice list outcome" where
  "RecursiveBlockDevices [] = Ret []"
| "RecursiveBlockDevices (dev # devices) =
     obind (Children dev) (\<lambda>cs.
     obind (RecursiveBlockDevices cs) (\<lambda>below.
     obind (RecursiveBlockDevices devices) (\<lambda>rest.
     Ret (dev # below @ rest))))"
  by pat_completeness auto
termination
proof (relation "measure (\<lambda>ds. sum_list (map device_weight ds))")
  fix dev devices cs
  assume "Children dev = Ret cs"
  then show "(cs, dev # devices) \<in> measure (\<lambda>ds. sum_list (map device_weight ds))"
    using Children_weight by fastforce
qed (simp_all add: device_weight_def)


text \<open>
  What the flattening is for: a device of the result is a listed device or one below it, and
  \<open>preorder\<close> is the order the devices appear in.
\<close>

inductive below :: "BlockDevice \<Rightarrow> BlockDevice \<Rightarrow> bool" where
  below_refl: "below d d"
| below_child: "below c d \<Longrightarrow> Children e = Ret cs \<Longrightarrow> c \<in> set cs \<Longrightarrow> below e d"

inductive_cases below_cases: "below e d"

lemma below_unfold:
  "below e d \<longleftrightarrow> e = d \<or> (\<exists>cs c. Children e = Ret cs \<and> c \<in> set cs \<and> below c d)"
  by (auto intro: below.intros elim: below_cases)

lemma RecursiveBlockDevices_set:
  "RecursiveBlockDevices devices = Ret ds \<Longrightarrow> set ds = {d. \<exists>r \<in> set devices. below r d}"
proof (induction devices arbitrary: ds rule: RecursiveBlockDevices.induct)
  case 1
  then show ?case by simp
next
  case (2 dev devices)
  then obtain cs sub rest where
      cs: "Children dev = Ret cs" and sub: "RecursiveBlockDevices cs = Ret sub"
      and rest: "RecursiveBlockDevices devices = Ret rest" and ds: "ds = dev # sub @ rest"
    by (auto simp: obind_eq_Ret)
  have "set sub = {d. \<exists>r \<in> set cs. below r d}" using "2.IH"(1) cs sub by blast
  moreover have "set rest = {d. \<exists>r \<in> set devices. below r d}" using "2.IH"(2) cs sub rest by blast
  moreover have "{d. below dev d} = insert dev {d. \<exists>r \<in> set cs. below r d}"
    by (subst below_unfold) (use cs in auto)
  ultimately show ?case using ds by auto
qed

lemma RecursiveBlockDevices_append:
  "RecursiveBlockDevices (xs @ ys) =
     obind (RecursiveBlockDevices xs) (\<lambda>a. obind (RecursiveBlockDevices ys) (\<lambda>b. Ret (a @ b)))"
proof (induction xs)
  case Nil
  then show ?case by (cases "RecursiveBlockDevices ys") auto
next
  case (Cons x xs)
  then show ?case
    by (cases "Children x"; simp; cases "RecursiveBlockDevices xs"; simp;
        cases "RecursiveBlockDevices ys"; simp add: obind_def split: outcome.split)
qed

lemma RecursiveBlockDevices_length:
  "RecursiveBlockDevices devices = Ret ds \<Longrightarrow> length devices \<le> length ds"
proof (induction devices arbitrary: ds rule: RecursiveBlockDevices.induct)
  case (2 dev devices)
  then show ?case by (fastforce simp: obind_eq_Ret)
qed simp


text \<open>The flattening panics exactly when some device below has a malformed \<open>children\<close> value.\<close>

definition well_shaped :: "BlockDevice \<Rightarrow> bool" where
  "well_shaped r \<longleftrightarrow> (\<forall>d. below r d \<longrightarrow> (\<exists>cs. Children d = Ret cs))"

lemma well_shaped_unfold:
  "well_shaped r \<longleftrightarrow> (\<exists>cs. Children r = Ret cs \<and> (\<forall>c \<in> set cs. well_shaped c))"
proof
  assume *: "well_shaped r"
  then obtain cs where "Children r = Ret cs"
    unfolding well_shaped_def using below_refl by blast
  moreover have "well_shaped c" if "c \<in> set cs" for c
    using * that \<open>Children r = Ret cs\<close> by (auto simp: well_shaped_def intro: below_child)
  ultimately show "\<exists>cs. Children r = Ret cs \<and> (\<forall>c \<in> set cs. well_shaped c)" by blast
next
  assume "\<exists>cs. Children r = Ret cs \<and> (\<forall>c \<in> set cs. well_shaped c)"
  then show "well_shaped r"
    unfolding well_shaped_def by (metis below_cases outcome.inject(1))
qed

lemma RecursiveBlockDevices_defined:
  "(\<exists>ds. RecursiveBlockDevices devices = Ret ds) \<longleftrightarrow> (\<forall>r \<in> set devices. well_shaped r)"
proof (induction devices rule: RecursiveBlockDevices.induct)
  case 1
  then show ?case by simp
next
  case (2 dev devices)
  show ?case
  proof (cases "Children dev")
    case (Ret cs)
    show ?thesis
    proof (cases "RecursiveBlockDevices cs")
      case (Ret sub)
      with "2.IH"(1) [OF \<open>Children dev = Ret cs\<close>] have "well_shaped dev"
        using \<open>Children dev = Ret cs\<close> by (auto simp: well_shaped_unfold [of dev])
      with "2.IH"(2) [OF \<open>Children dev = Ret cs\<close> Ret] \<open>Children dev = Ret cs\<close> Ret
      show ?thesis by (auto simp: obind_eq_Ret)
    next
      case (Panic p)
      with "2.IH"(1) [OF \<open>Children dev = Ret cs\<close>] have "\<not> well_shaped dev"
        using \<open>Children dev = Ret cs\<close> by (auto simp: well_shaped_unfold [of dev])
      with \<open>Children dev = Ret cs\<close> Panic show ?thesis by auto
    qed
  next
    case (Panic p)
    then have "\<not> well_shaped dev" by (simp add: well_shaped_unfold [of dev])
    with Panic show ?thesis by auto
  qed
qed

end
