(* ===== verification/External.thy ===== *)
theory External
  imports Api Lsblk
begin

text \<open>
  Everything the controller calls that is not in this repository: lvm2go, controller-runtime,
  apimachinery, the clock and the processes it starts. What the sources read of lvm2go's structs
  is written down as records; the functions themselves are the fields of \<open>env\<close>, parameters of
  every definition that uses them. The outside world is a value of type \<open>'h\<close> that the fields
  transform; nothing is known of it. Every call is also recorded, with the error it returned, in
  the trace of the \<open>world\<close>, so that a theorem can say what was asked of the outside and in
  which order.
\<close>

section \<open>lvm2go values\<close>

record Size =
  sz_Val :: float64
  sz_Unit :: string

definition UnitBytes :: string where "UnitBytes = ''b''"

datatype AutoActivation = SetAutoActivate | SetNoAutoActivate

datatype Zero = ZeroVolume | DoNotZeroVolume

text \<open>
  \<open>lvg_Attr\<close> is the text of \<open>Attr.String()\<close>, \<open>lvg_AutoActivation\<close> the result of
  \<open>AutoActivation.True()\<close>: the only uses made of them.
\<close>

record LvmVolumeGroup =
  lvg_Name :: string
  lvg_UUID :: string
  lvg_SysID :: string
  lvg_Attr :: string
  lvg_Tags :: "string list"
  lvg_ExtentSize :: Size
  lvg_ExtentCount :: int64
  lvg_SeqNo :: int64
  lvg_Size :: Size
  lvg_Free :: Size
  lvg_PvCount :: int64
  lvg_MissingPVCount :: int64
  lvg_MaxPv :: int64
  lvg_LvCount :: int64
  lvg_MaxLv :: int64
  lvg_SnapCount :: int64
  lvg_MDACount :: int64
  lvg_MDAUsedCount :: int64
  lvg_AllocationPolicy :: string
  lvg_AutoActivation :: bool

record LvmPhysicalVolume =
  lpv_Name :: string
  lpv_UUID :: string
  lpv_DevSize :: Size
  lpv_Size :: Size
  lpv_Free :: Size
  lpv_Used :: Size
  lpv_MdaFree :: Size
  lpv_MdaSize :: Size
  lpv_PeStart :: Size
  lpv_MdaCount :: int64
  lpv_MdaUsedCount :: int64
  lpv_Tags :: "string list"
  lpv_DeviceID :: string
  lpv_DeviceIDType :: string
  lpv_Attr :: string
  lpv_Minor :: int64
  lpv_Major :: int64

text \<open>A field left at Go's zero value is \<open>None\<close> (for a number, 0).\<close>

record VGCreateOptions =
  vco_VolumeGroupName :: string
  vco_Tags :: "string list option"
  vco_PhysicalVolumeNames :: "string list"
  vco_AutoActivation :: "AutoActivation option"
  vco_Zero :: "Zero option"
  vco_AllocationPolicy :: string
  vco_MaximumPhysicalVolumes :: int64
  vco_MaximumLogicalVolumes :: int64
  vco_PhysicalExtentSize :: "Size option"
  vco_MetadataSize :: "Size option"
  vco_DataAlignment :: "Size option"
  vco_DataAlignmentOffset :: "Size option"
  vco_Devices :: "string list option"
  vco_DevicesFile :: string

datatype VGChangeOption =
    ChTags "string list" | ChDelTags "string list"
  | ChMaximumPhysicalVolumes int64 | ChMaximumLogicalVolumes int64
  | ChAllocationPolicy string | ChAutoActivation AutoActivation

datatype VGReduceOption =
    RedName string | RedPVs "string list" | RedForce bool | RedRemoveMissing bool

text \<open>The commands that change LVM state.\<close>

datatype lvm_cmd =
    VGCreate VGCreateOptions
  | VGChange string VGChangeOption
  | VGExtend string "string list"
  | VGReduce "VGReduceOption list"
  | PVMove string "string list"
  | VGRename string string
  | VGRemove string bool

section \<open>Processes\<close>

record Command =
  cmd_Path :: string
  cmd_Args :: "string list"
  cmd_Env :: "string list"

text \<open>
  The output of a finished command as \<open>runInto\<close> uses it: what \<open>encoding/json\<close> decodes
  from it into a \<open>map[string][]BlockDevice\<close>, the decoder's error, and the error of closing it.
\<close>

record Output =
  out_Decoded :: "(string \<times> BlockDevice list) list"
  out_DecodeError :: "goerror option"
  out_CloseError :: "goerror option"

section \<open>The environment\<close>

record ('q, 'h) env =
  \<comment> \<open>resource.Quantity\<close>
  ParseQuantity :: "string \<Rightarrow> goerror + 'q"
  NewQuantity :: "int64 \<Rightarrow> 'q"
  Cmp :: "'q \<Rightarrow> 'q \<Rightarrow> int"
  AsApproximateFloat64 :: "'q \<Rightarrow> float64"
  \<comment> \<open>lvm2go.Size\<close>
  Size_Validate :: "Size \<Rightarrow> goerror option"
  Size_ToUnit :: "Size \<Rightarrow> string \<Rightarrow> goerror + Size"
  \<comment> \<open>Go leaves the conversion of a float64 that no int64 can hold to the implementation\<close>
  unrepresentable_int64 :: "float64 \<Rightarrow> int64"
  \<comment> \<open>error classification\<close>
  IsLVMErrVGMissingPVs :: "goerror option \<Rightarrow> bool"
  IsLVMErrNotFound :: "goerror \<Rightarrow> bool"
  ErrVolumeGroupNotFound :: string
  IgnoreNotFound :: "goerror \<Rightarrow> goerror option"
  \<comment> \<open>apimachinery and controller-runtime helpers; SetStatusCondition reads the clock\<close>
  SetStatusCondition :: "'h \<Rightarrow> Condition list \<Rightarrow> Condition \<Rightarrow> Condition list"
  AddFinalizer :: "string list \<Rightarrow> string \<Rightarrow> string list \<times> bool"
  RemoveFinalizer :: "string list \<Rightarrow> string \<Rightarrow> string list \<times> bool"
  \<comment> \<open>effects\<close>
  IsContainerized :: "'h \<Rightarrow> bool"
  StreamedCommand :: "Command \<Rightarrow> 'h \<Rightarrow> (goerror + Output) \<times> 'h"
  Lvm_VG :: "string \<Rightarrow> 'h \<Rightarrow> (LvmVolumeGroup option \<times> goerror option) \<times> 'h"
  Lvm_PVs :: "string \<Rightarrow> 'h \<Rightarrow> (goerror + LvmPhysicalVolume list) \<times> 'h"
  Lvm_exec :: "lvm_cmd \<Rightarrow> 'h \<Rightarrow> goerror option \<times> 'h"
  Api_Get :: "string \<Rightarrow> 'h \<Rightarrow> (goerror + 'q VolumeGroup) \<times> 'h"
  Api_Update :: "'q VolumeGroup \<Rightarrow> 'h \<Rightarrow> goerror option \<times> 'h"
  Api_StatusUpdate :: "'q VolumeGroup \<Rightarrow> 'h \<Rightarrow> goerror option \<times> 'h"
  Time_Now :: "'h \<Rightarrow> int \<times> 'h"

section \<open>The world and the calls into it\<close>

datatype 'q event =
    EvExec Command
  | EvVG string "goerror option"
  | EvPVs string
  | EvLvm lvm_cmd "goerror option"
  | EvGet string
  | EvUpdate "'q VolumeGroup" "goerror option"
  | EvStatusUpdate "'q VolumeGroup" "goerror option"
  | EvNow

record ('q, 'h) world =
  host :: 'h
  trace :: "'q event list"

definition log_event :: "'q event \<Rightarrow> 'h \<Rightarrow> ('q, 'h) world \<Rightarrow> ('q, 'h) world" where
  "log_event e h w = w\<lparr>host := h, trace := trace w @ [e]\<rparr>"

definition run_command :: "('q, 'h) env \<Rightarrow> Command \<Rightarrow> (('q, 'h) world, goerror + Output) prog" where
  "run_command E c w = (let (r, h) = StreamedCommand E c (host w) in (Ret r, log_event (EvExec c) h w))"

definition query_VG ::
  "('q, 'h) env \<Rightarrow> string \<Rightarrow> (('q, 'h) world, LvmVolumeGroup option \<times> goerror option) prog" where
  "query_VG E name w =
     (let (r, h) = Lvm_VG E name (host w) in (Ret r, log_event (EvVG name (snd r)) h w))"

definition query_PVs ::
  "('q, 'h) env \<Rightarrow> string \<Rightarrow> (('q, 'h) world, goerror + LvmPhysicalVolume list) prog" where
  "query_PVs E name w = (let (r, h) = Lvm_PVs E name (host w) in (Ret r, log_event (EvPVs name) h w))"

definition exec_lvm :: "('q, 'h) env \<Rightarrow> lvm_cmd \<Rightarrow> (('q, 'h) world, goerror option) prog" where
  "exec_lvm E c w = (let (r, h) = Lvm_exec E c (host w) in (Ret r, log_event (EvLvm c r) h w))"

definition api_get :: "('q, 'h) env \<Rightarrow> string \<Rightarrow> (('q, 'h) world, goerror + 'q VolumeGroup) prog" where
  "api_get E k w = (let (r, h) = Api_Get E k (host w) in (Ret r, log_event (EvGet k) h w))"

definition api_update :: "('q, 'h) env \<Rightarrow> 'q VolumeGroup \<Rightarrow> (('q, 'h) world, goerror option) prog" where
  "api_update E vg w = (let (r, h) = Api_Update E vg (host w) in (Ret r, log_event (EvUpdate vg r) h w))"

definition api_status_update ::
  "('q, 'h) env \<Rightarrow> 'q VolumeGroup \<Rightarrow> (('q, 'h) world, goerror option) prog" where
  "api_status_update E vg w =
     (let (r, h) = Api_StatusUpdate E vg (host w) in (Ret r, log_event (EvStatusUpdate vg r) h w))"

definition time_now :: "('q, 'h) env \<Rightarrow> (('q, 'h) world, int) prog" where
  "time_now E w = (let (r, h) = Time_Now E (host w) in (Ret r, log_event EvNow h w))"

text \<open>A pure function of the outside, such as the clock inside apimachinery.\<close>

definition read_host :: "(('q, 'h) world, 'h) prog" where
  "read_host w = (Ret (host w), w)"

lemmas call_defs = run_command_def query_VG_def query_PVs_def exec_lvm_def api_get_def
  api_update_def api_status_update_def time_now_def read_host_def

lemma trace_log_event [simp]: "trace (log_event e h w) = trace w @ [e]"
  by (simp add: log_event_def)

lemma host_log_event [simp]: "host (log_event e h w) = h"
  by (simp add: log_event_def)

text \<open>The calls as equations.\<close>

lemma call_runs:
  "run_command E c w = (let r = StreamedCommand E c (host w) in (Ret (fst r), log_event (EvExec c) (snd r) w))"
  "query_VG E n w = (let r = Lvm_VG E n (host w) in (Ret (fst r), log_event (EvVG n (snd (fst r))) (snd r) w))"
  "query_PVs E n w = (let r = Lvm_PVs E n (host w) in (Ret (fst r), log_event (EvPVs n) (snd r) w))"
  "api_get E k w = (let r = Api_Get E k (host w) in (Ret (fst r), log_event (EvGet k) (snd r) w))"
  "api_update E vg w = (let r = Api_Update E vg (host w) in (Ret (fst r), log_event (EvUpdate vg (fst r)) (snd r) w))"
  "api_status_update E vg w =
     (let r = Api_StatusUpdate E vg (host w) in (Ret (fst r), log_event (EvStatusUpdate vg (fst r)) (snd r) w))"
  "time_now E w = (let r = Time_Now E (host w) in (Ret (fst r), log_event EvNow (snd r) w))"
  by (simp_all add: call_defs split: prod.split)

end
