(* ===== verification/Effects.thy ===== *)
theory Effects
  imports External
begin

text \<open>
  The effect contract of a program: \<open>emits P m\<close> says that whatever \<open>m\<close> does, from any
  world and also when it panics, it only appends to the trace, and only events that satisfy
  \<open>P\<close>. The rules follow the program text, so a component's contract is proved by
  \<open>emits_intros\<close> and its case splits.
\<close>

definition emits :: "('q event \<Rightarrow> bool) \<Rightarrow> (('q, 'h) world, 'a) prog \<Rightarrow> bool" where
  "emits P m \<longleftrightarrow> (\<forall>w. \<exists>es. trace (snd (m w)) = trace w @ es \<and> (\<forall>e \<in> set es. P e))"

named_theorems emits_intros \<open>rules that prove the effect contract of a program\<close>

lemma emitsE:
  assumes "emits P m"
  obtains es where "trace (snd (m w)) = trace w @ es" "\<forall>e \<in> set es. P e"
  using assms by (auto simp: emits_def)

lemma emits_run:
  assumes "emits P m" "m w = (r, w')"
  obtains es where "trace w' = trace w @ es" "\<forall>e \<in> set es. P e"
  using assms by (metis emitsE snd_conv)

lemma emits_mono: "emits P m \<Longrightarrow> (\<And>e. P e \<Longrightarrow> Q e) \<Longrightarrow> emits Q m"
  by (fastforce simp: emits_def)

lemma emits_return [emits_intros]: "emits P (return a)"
  by (simp add: emits_def prog_simps)

lemma emits_panic [emits_intros]: "emits P (panic p)"
  by (simp add: emits_def prog_simps)

lemma emits_lift_outcome [emits_intros]: "emits P (lift_outcome m)"
  by (simp add: emits_def prog_simps)

lemma emits_deref [emits_intros]: "emits P (deref p)"
  by (simp add: deref_def emits_return emits_panic split: option.split)

lemma emits_andThen [emits_intros]:
  assumes "emits P m" and "\<And>a. emits P (k a)"
  shows "emits P (andThen m k)"
  unfolding emits_def
proof
  fix w
  obtain es where es: "trace (snd (m w)) = trace w @ es" "\<forall>e \<in> set es. P e"
    using assms(1) by (rule emitsE)
  show "\<exists>es. trace (snd (andThen m k w)) = trace w @ es \<and> (\<forall>e \<in> set es. P e)"
  proof (cases "m w")
    case (Pair r w')
    show ?thesis
    proof (cases r)
      case (Ret a)
      obtain fs where "trace (snd (k a w')) = trace w' @ fs" "\<forall>e \<in> set fs. P e"
        using assms(2) by (rule emitsE)
      with es Pair Ret have "trace (snd (andThen m k w)) = trace w @ (es @ fs)"
        and "\<forall>e \<in> set (es @ fs). P e"
        by (auto simp: prog_simps)
      then show ?thesis by blast
    next
      case (Panic p)
      with es Pair show ?thesis by (auto simp: prog_simps)
    qed
  qed
qed

lemma emits_if [emits_intros]:
  "(b \<Longrightarrow> emits P m) \<Longrightarrow> (\<not> b \<Longrightarrow> emits P n) \<Longrightarrow> emits P (if b then m else n)"
  by simp

lemma emits_case_option [emits_intros]:
  "(x = None \<Longrightarrow> emits P m) \<Longrightarrow> (\<And>a. x = Some a \<Longrightarrow> emits P (k a)) \<Longrightarrow>
   emits P (case x of None \<Rightarrow> m | Some a \<Rightarrow> k a)"
  by (cases x) simp_all

lemma emits_case_sum [emits_intros]:
  "(\<And>e. x = Inl e \<Longrightarrow> emits P (m e)) \<Longrightarrow> (\<And>a. x = Inr a \<Longrightarrow> emits P (k a)) \<Longrightarrow>
   emits P (case x of Inl e \<Rightarrow> m e | Inr a \<Rightarrow> k a)"
  by (cases x) simp_all

lemma emits_case_prod [emits_intros]:
  "(\<And>a b. x = (a, b) \<Longrightarrow> emits P (k a b)) \<Longrightarrow> emits P (case x of (a, b) \<Rightarrow> k a b)"
  by (cases x) simp

lemma emits_run_command [emits_intros]: "P (EvExec c) \<Longrightarrow> emits P (run_command E c)"
  by (auto simp: emits_def call_defs split: prod.split)

lemma exec_lvm_run: "exec_lvm E c w =
    (Ret (fst (Lvm_exec E c (host w))), log_event (EvLvm c (fst (Lvm_exec E c (host w)))) (snd (Lvm_exec E c (host w))) w)"
  by (simp add: exec_lvm_def split: prod.split)

lemma emits_query_VG [emits_intros]: "(\<And>r. P (EvVG n r)) \<Longrightarrow> emits P (query_VG E n)"
  by (auto simp: emits_def call_defs split: prod.split)

lemma emits_query_PVs [emits_intros]: "P (EvPVs n) \<Longrightarrow> emits P (query_PVs E n)"
  by (auto simp: emits_def call_defs split: prod.split)

lemma emits_exec_lvm [emits_intros]: "(\<And>r. P (EvLvm c r)) \<Longrightarrow> emits P (exec_lvm E c)"
  by (auto simp: emits_def call_defs split: prod.split)

lemma emits_api_get [emits_intros]: "P (EvGet k) \<Longrightarrow> emits P (api_get E k)"
  by (auto simp: emits_def call_defs split: prod.split)

lemma emits_api_update [emits_intros]: "(\<And>r. P (EvUpdate vg r)) \<Longrightarrow> emits P (api_update E vg)"
  by (auto simp: emits_def call_defs split: prod.split)

lemma emits_api_status_update [emits_intros]:
  "(\<And>r. P (EvStatusUpdate vg r)) \<Longrightarrow> emits P (api_status_update E vg)"
  by (auto simp: emits_def call_defs split: prod.split)

lemma emits_time_now [emits_intros]: "P EvNow \<Longrightarrow> emits P (time_now E)"
  by (auto simp: emits_def call_defs split: prod.split)

lemma emits_read_host [emits_intros]: "emits P read_host"
  by (simp add: emits_def call_defs)

lemma emits_SequentialTwoWaySync [emits_intros]:
  assumes "\<And>xs. xs \<noteq> [] \<Longrightarrow> set xs \<subseteq> set desired - set current \<Longrightarrow> emits P (new xs)"
    and "\<And>xs. xs \<noteq> [] \<Longrightarrow> set xs \<subseteq> set current - set desired \<Longrightarrow> emits P (old xs)"
  shows "emits P (SequentialTwoWaySync desired current new old)"
  unfolding SequentialTwoWaySync_def Let_def
  by (intro emits_intros assms) (simp_all add: sd.set_diff)

section \<open>Programs that change nothing outside\<close>

text \<open>Events that only read: no LVM command and no write to the API server.\<close>

fun read_only :: "'q event \<Rightarrow> bool" where
  "read_only (EvLvm c r) = False"
| "read_only (EvUpdate vg r) = False"
| "read_only (EvStatusUpdate vg r) = False"
| "read_only _ = True"

fun api_only :: "'q event \<Rightarrow> bool" where
  "api_only (EvGet k) = True"
| "api_only (EvUpdate vg r) = True"
| "api_only (EvStatusUpdate vg r) = True"
| "api_only _ = False"

section \<open>Programs that do not panic\<close>

definition never_panics :: "('w, 'a) prog \<Rightarrow> bool" where
  "never_panics m \<longleftrightarrow> (\<forall>w. \<exists>a w'. m w = (Ret a, w'))"

named_theorems panic_free \<open>rules for programs that do not panic\<close>

lemma never_panicsE:
  assumes "never_panics m"
  obtains a w' where "m w = (Ret a, w')"
  using assms unfolding never_panics_def by blast

lemma never_panics_return [panic_free]: "never_panics (return a)"
  by (simp add: never_panics_def return_run)

lemma never_panics_andThen [panic_free]:
  "never_panics m \<Longrightarrow> (\<And>a. never_panics (k a)) \<Longrightarrow> never_panics (andThen m k)"
  unfolding never_panics_def andThen_eq_Ret by meson

lemma never_panics_if [panic_free]:
  "(b \<Longrightarrow> never_panics m) \<Longrightarrow> (\<not> b \<Longrightarrow> never_panics n) \<Longrightarrow> never_panics (if b then m else n)"
  by simp

lemma never_panics_case_option [panic_free]:
  "(x = None \<Longrightarrow> never_panics m) \<Longrightarrow> (\<And>a. x = Some a \<Longrightarrow> never_panics (k a)) \<Longrightarrow>
   never_panics (case x of None \<Rightarrow> m | Some a \<Rightarrow> k a)"
  by (cases x) simp_all

lemma never_panics_case_sum [panic_free]:
  "(\<And>e. x = Inl e \<Longrightarrow> never_panics (m e)) \<Longrightarrow> (\<And>a. x = Inr a \<Longrightarrow> never_panics (k a)) \<Longrightarrow>
   never_panics (case x of Inl e \<Rightarrow> m e | Inr a \<Rightarrow> k a)"
  by (cases x) simp_all

lemma never_panics_calls [panic_free]:
  "never_panics (exec_lvm E c)" "never_panics (query_PVs E n)" "never_panics (query_VG E n)"
  "never_panics (api_get E k)" "never_panics (api_update E vg)" "never_panics (api_status_update E vg)"
  "never_panics (run_command E cmd)" "never_panics (time_now E)" "never_panics read_host"
  by (simp_all add: never_panics_def call_defs split: prod.split)

lemma never_panics_SequentialTwoWaySync [panic_free]:
  "(\<And>xs. never_panics (new xs)) \<Longrightarrow> (\<And>xs. never_panics (old xs)) \<Longrightarrow>
   never_panics (SequentialTwoWaySync desired current new old)"
  unfolding SequentialTwoWaySync_def Let_def by (intro panic_free)

end
