(* ===== verification/LsblkCommand.thy ===== *)
theory LsblkCommand
  imports Effects
begin

text \<open>
  Running \<open>lsblk\<close> (\<open>LSBLK\<close> and \<open>runInto\<close> of \<open>internal/lsblk/lsblk.go\<close>): the command
  line for the host and for a container, and how the three errors of a run are reported.
\<close>

definition lsblkCommand :: string where "lsblkCommand = ''/usr/bin/lsblk''"
definition nsenterCommand :: string where "nsenterCommand = ''/usr/bin/nsenter''"

definition lsblk_command :: "bool \<Rightarrow> string list \<Rightarrow> Command" where
  "lsblk_command containerized args =
     (if containerized
      then \<lparr>cmd_Path = nsenterCommand,
            cmd_Args = [''-m'', ''-u'', ''-i'', ''-n'', ''-p'', ''-t'', ''1'', lsblkCommand] @ args,
            cmd_Env = [''LC_ALL=C'']\<rparr>
      else \<lparr>cmd_Path = lsblkCommand, cmd_Args = args, cmd_Env = [''LC_ALL=C'']\<rparr>)"

text \<open>The decoded map and the error; on a failed start nothing is decoded.\<close>

definition runInto ::
  "('q, 'h) env \<Rightarrow> string list \<Rightarrow>
   (('q, 'h) world, (string \<times> BlockDevice list) list \<times> goerror option) prog" where
  "runInto E args =
     andThen read_host (\<lambda>h.
     andThen (run_command E (lsblk_command (IsContainerized E h) args)) (\<lambda>r.
       case r of
         Inl e \<Rightarrow> return ([], Some (errorf (''failed to execute command: '' @ Error e)))
       | Inr out \<Rightarrow>
           return (out_Decoded out, errors_Join [out_DecodeError out, out_CloseError out])))"

definition lsblk_args :: "Column list \<Rightarrow> string list" where
  "lsblk_args columns =
     [''--json'', ''--bytes'', ''-o'', join_strings '','' (map column_string columns)]"

definition LSBLK ::
  "('q, 'h) env \<Rightarrow> Column list \<Rightarrow> (('q, 'h) world, goerror + BlockDevice list) prog" where
  "LSBLK E columns =
     andThen (runInto E (lsblk_args columns)) (\<lambda>(blockDeviceMap, err).
       case err of
         Some e \<Rightarrow> return (Inl e)
       | None \<Rightarrow> return (Inr (case map_of blockDeviceMap ''blockdevices'' of
                                None \<Rightarrow> [] | Some ds \<Rightarrow> ds)))"

lemma emits_runInto [emits_intros]: "(\<And>c. P (EvExec c)) \<Longrightarrow> emits P (runInto E args)"
  unfolding runInto_def by (intro emits_intros)

lemma emits_LSBLK [emits_intros]: "(\<And>c. P (EvExec c)) \<Longrightarrow> emits P (LSBLK E columns)"
  unfolding LSBLK_def by (intro emits_intros)

text \<open>A run of \<open>lsblk\<close> that starts, decodes and closes without an error.\<close>

lemma LSBLK_decoded:
  assumes "StreamedCommand E (lsblk_command (IsContainerized E (host w)) (lsblk_args columns)) (host w)
      = (Inr out, h)"
    and "out_DecodeError out = None" "out_CloseError out = None"
    and "map_of (out_Decoded out) ''blockdevices'' = Some devices"
  shows "LSBLK E columns w = (Ret (Inr devices),
    log_event (EvExec (lsblk_command (IsContainerized E (host w)) (lsblk_args columns))) h w)"
  using assms by (simp add: LSBLK_def runInto_def andThen_run return_run read_host_def run_command_def
      errors_Join_def List.map_filter_def)

end
