(* ===== verification/Selector.thy ===== *)
theory Selector
  imports LsblkCommand
begin

text \<open>
  The package \<open>internal/selector\<close>: which block devices a \<open>PhysicalVolumeSelector\<close> chooses.
  The loops are recursions in the order of the code, with its early returns and its panics; the
  specification at the end is the set of paths a selector denotes.
\<close>

section \<open>matchesLSBLKRequirement\<close>

text \<open>The \<open>In\<close> loop: \<open>GetString\<close> is evaluated again for every value, and stops at a match.\<close>

fun matches_In :: "BlockDevice \<Rightarrow> Column \<Rightarrow> string list \<Rightarrow> bool outcome" where
  "matches_In dev col [] = Ret False"
| "matches_In dev col (v # vs) =
     obind (GetString dev col) (\<lambda>(val, ok). if v = val then Ret True else matches_In dev col vs)"

text \<open>\<open>%v\<close> of the interface value in the error text; the branch is only reached with nil.\<close>

definition matches_Gt ::
  "('q, 'h) env \<Rightarrow> BlockDevice \<Rightarrow> LSBLKSelectorRequirement \<Rightarrow> bool fallible" where
  "matches_Gt E dev req =
     (case req_Values req of
        [] \<Rightarrow> Panic IndexOutOfRange
      | v # _ \<Rightarrow>
          (case ParseQuantity E v of
             Inl e \<Rightarrow> Ret (Inl (Wrapf ''value is not a valid quantity'' e))
           | Inr quantityRequirement \<Rightarrow>
               (case Get dev (Column (req_Key req)) of
                  None \<Rightarrow> Ret (Inl (errorf (''column '' @ req_Key req @
                    '' with value <nil> cannot be converted to int for comparison'')))
                | Some fromLSBLK \<Rightarrow>
                    let intFromLSBLK = (case fromLSBLK of GInt i \<Rightarrow> i | _ \<Rightarrow> 0);
                        quantityFromLSBLK = NewQuantity E intFromLSBLK
                    in Ret (Inr (Cmp E quantityFromLSBLK quantityRequirement = 1)))))"

definition matchesLSBLKRequirement ::
  "('q, 'h) env \<Rightarrow> BlockDevice \<Rightarrow> LSBLKSelectorRequirement \<Rightarrow> bool fallible" where
  "matchesLSBLKRequirement E dev req =
     (if req_Operator req = PVSelectorOpExists
      then Ret (Inr (Get dev (Column (req_Key req)) \<noteq> None))
      else if req_Operator req = PVSelectorOpDoesNotExist
      then Ret (Inr (Get dev (Column (req_Key req)) = None))
      else if req_Operator req = PVSelectorOpIn
      then obind (matches_In dev (Column (req_Key req)) (req_Values req)) (\<lambda>b. Ret (Inr b))
      else if req_Operator req = PVSelectorGt
      then matches_Gt E dev req
      else Ret (Inr False))"

section \<open>DevicesMatchingSelector\<close>

text \<open>Lines 21-29: the columns asked of \<open>lsblk\<close>.\<close>

definition selector_columns :: "PhysicalVolumeSelector \<Rightarrow> Column list" where
  "selector_columns selector =
     sort_compact (ColumnPath # concat (map (\<lambda>trm. map (\<lambda>req. Column (req_Key req)) (MatchLSBLK trm)) selector))"

text \<open>\<open>fmt\<close>'s \<open>%v\<close> of a requirement, for the error text.\<close>

definition show_requirement :: "LSBLKSelectorRequirement \<Rightarrow> string" where
  "show_requirement req =
     ''{'' @ req_Key req @ '' '' @ req_Operator req @ '' ['' @ join_strings '' '' (req_Values req) @ '']}''"

text \<open>Lines 43-50: the number of requirements of a term that a device meets.\<close>

fun count_matches ::
  "('q, 'h) env \<Rightarrow> BlockDevice \<Rightarrow> LSBLKSelectorRequirement list \<Rightarrow> nat \<Rightarrow> nat fallible" where
  "count_matches E dev [] matches = Ret (Inr matches)"
| "count_matches E dev (req # reqs) matches =
     obind (matchesLSBLKRequirement E dev req) (\<lambda>r. case r of
         Inl e \<Rightarrow> Ret (Inl (Wrapf (''could not match requirement '' @ show_requirement req) e))
       | Inr match \<Rightarrow> count_matches E dev reqs (if match then Suc matches else matches))"

text \<open>Lines 42-59: one term over all devices.\<close>

fun select_devices ::
  "('q, 'h) env \<Rightarrow> PVSelectorTerm \<Rightarrow> BlockDevice list \<Rightarrow> string list \<Rightarrow> string list fallible" where
  "select_devices E trm [] selected = Ret (Inr selected)"
| "select_devices E trm (dev # devices) selected =
     tryO (count_matches E dev (MatchLSBLK trm) 0) (\<lambda>matches.
       if matches = length (MatchLSBLK trm)
       then obind (GetString dev ColumnPath) (\<lambda>(kname, exists).
         if \<not> exists then Ret (Inl (errorf (''block device '' @ kname @ '' is missing path'')))
         else select_devices E trm devices (selected @ [kname]))
       else select_devices E trm devices selected)"

text \<open>Lines 41-60: all terms.\<close>

fun select_terms ::
  "('q, 'h) env \<Rightarrow> PhysicalVolumeSelector \<Rightarrow> BlockDevice list \<Rightarrow> string list \<Rightarrow> string list fallible" where
  "select_terms E [] devices selected = Ret (Inr selected)"
| "select_terms E (trm # terms) devices selected =
     tryO (select_devices E trm devices selected) (\<lambda>selected'.
       select_terms E terms devices selected')"

text \<open>Lines 39-66.\<close>

definition selectFrom ::
  "('q, 'h) env \<Rightarrow> PhysicalVolumeSelector \<Rightarrow> BlockDevice list \<Rightarrow> string list fallible" where
  "selectFrom E selector devices =
     tryO (select_terms E selector devices []) (\<lambda>selected. Ret (Inr (sort_compact selected)))"

definition DevicesMatchingSelector ::
  "('q, 'h) env \<Rightarrow> PhysicalVolumeSelector \<Rightarrow> (('q, 'h) world, goerror + string list) prog" where
  "DevicesMatchingSelector E selector =
     (if selector = [] then return (Inr [])
      else andThen (LSBLK E (selector_columns selector)) (\<lambda>r.
        case r of
          Inl e \<Rightarrow> return (Inl (Wrapf ''failed to list block devices for selector translation'' e))
        | Inr roots \<Rightarrow>
            andThen (lift_outcome (RecursiveBlockDevices roots)) (\<lambda>devices.
              lift_outcome (selectFrom E selector devices))))"

lemma DevicesMatchingSelector_ok:
  assumes "DevicesMatchingSelector E selector w = (Ret (Inr ps), w')" "selector \<noteq> []"
  obtains roots devices where "LSBLK E (selector_columns selector) w = (Ret (Inr roots), w')"
    "RecursiveBlockDevices roots = Ret devices" "selectFrom E selector devices = Ret (Inr ps)"
proof -
  obtain r w1 where r: "LSBLK E (selector_columns selector) w = (Ret r, w1)"
    using assms by (auto simp: DevicesMatchingSelector_def andThen_eq_Ret)
  show thesis
  proof (cases r)
    case (Inl e)
    with assms r show thesis by (simp add: DevicesMatchingSelector_def andThen_run return_run)
  next
    case (Inr roots)
    with assms r obtain devices where "RecursiveBlockDevices roots = Ret devices"
      "selectFrom E selector devices = Ret (Inr ps)" "w1 = w'"
      by (cases "RecursiveBlockDevices roots")
        (simp_all add: DevicesMatchingSelector_def andThen_run lift_outcome_run)
    with r Inr that show thesis by blast
  qed
qed

lemma DevicesMatchingSelector_run:
  assumes "LSBLK E (selector_columns selector) w = (Ret (Inr roots), w')" "selector \<noteq> []"
    "RecursiveBlockDevices roots = Ret devices"
  shows "DevicesMatchingSelector E selector w = (selectFrom E selector devices, w')"
  using assms by (simp add: DevicesMatchingSelector_def andThen_run lift_outcome_run)

lemma emits_DevicesMatchingSelector [emits_intros]:
  "(\<And>c. P (EvExec c)) \<Longrightarrow> emits P (DevicesMatchingSelector E selector)"
  unfolding DevicesMatchingSelector_def by (intro emits_intros)

section \<open>What a selector denotes\<close>

definition device_path :: "BlockDevice \<Rightarrow> string option" where
  "device_path dev = (case GetString dev ColumnPath of Ret (p, True) \<Rightarrow> Some p | _ \<Rightarrow> None)"

definition requirement_holds ::
  "('q, 'h) env \<Rightarrow> BlockDevice \<Rightarrow> LSBLKSelectorRequirement \<Rightarrow> bool" where
  "requirement_holds E dev req \<longleftrightarrow> matchesLSBLKRequirement E dev req = Ret (Inr True)"

definition term_selects :: "('q, 'h) env \<Rightarrow> PVSelectorTerm \<Rightarrow> BlockDevice \<Rightarrow> bool" where
  "term_selects E trm dev \<longleftrightarrow> (\<forall>req \<in> set (MatchLSBLK trm). requirement_holds E dev req)"

definition selected_paths ::
  "('q, 'h) env \<Rightarrow> PhysicalVolumeSelector \<Rightarrow> BlockDevice list \<Rightarrow> string set" where
  "selected_paths E selector devices =
     {p. \<exists>dev \<in> set devices. \<exists>trm \<in> set selector. term_selects E trm dev \<and> device_path dev = Some p}"

lemma finite_selected_paths: "finite (selected_paths E selector devices)"
proof -
  have "p \<in> (the \<circ> device_path) ` set devices" if "p \<in> selected_paths E selector devices" for p
    using that by (force simp: selected_paths_def)
  then show ?thesis by (meson List.finite_set finite_imageI finite_subset subsetI)
qed

text \<open>A requirement that can be decided on a device without error or panic.\<close>

definition decidable_on ::
  "('q, 'h) env \<Rightarrow> BlockDevice \<Rightarrow> LSBLKSelectorRequirement \<Rightarrow> bool" where
  "decidable_on E dev req \<longleftrightarrow> (\<exists>b. matchesLSBLKRequirement E dev req = Ret (Inr b))"

lemma decidable_on_cases:
  "decidable_on E dev req \<Longrightarrow>
     matchesLSBLKRequirement E dev req = Ret (Inr (requirement_holds E dev req))"
  by (auto simp: decidable_on_def requirement_holds_def)

lemma count_matches_decided:
  assumes "\<forall>req \<in> set reqs. decidable_on E dev req"
  shows "count_matches E dev reqs n = Ret (Inr (n + length (filter (requirement_holds E dev) reqs)))"
  using assms by (induction reqs arbitrary: n) (auto simp: decidable_on_cases)

lemma GetString_path: "device_path dev = Some p \<Longrightarrow> GetString dev ColumnPath = Ret (p, True)"
  by (auto simp: device_path_def split: outcome.splits prod.splits bool.splits)

lemma select_devices_decided:
  assumes "\<forall>dev \<in> set devices. \<forall>req \<in> set (MatchLSBLK trm). decidable_on E dev req"
    and "\<forall>dev \<in> set devices. device_path dev \<noteq> None"
  shows "\<exists>ps. select_devices E trm devices selected = Ret (Inr (selected @ ps)) \<and>
    set ps = {p. \<exists>dev \<in> set devices. term_selects E trm dev \<and> device_path dev = Some p}"
  using assms
proof (induction devices arbitrary: selected)
  case Nil
  then show ?case by simp
next
  case (Cons dev devices)
  obtain p where p: "device_path dev = Some p" using Cons.prems by auto
  have count: "count_matches E dev (MatchLSBLK trm) 0 =
      Ret (Inr (length (filter (requirement_holds E dev) (MatchLSBLK trm))))"
    using Cons.prems by (simp add: count_matches_decided)
  have met: "length (filter (requirement_holds E dev) (MatchLSBLK trm)) = length (MatchLSBLK trm)
      \<longleftrightarrow> term_selects E trm dev"
    by (simp add: filter_length_all term_selects_def)
  show ?case
  proof (cases "term_selects E trm dev")
    case True
    with Cons.IH [of "selected @ [p]"] Cons.prems obtain ps where
      "select_devices E trm devices (selected @ [p]) = Ret (Inr ((selected @ [p]) @ ps))"
      "set ps = {p. \<exists>dev \<in> set devices. term_selects E trm dev \<and> device_path dev = Some p}"
      by auto
    with True p count met show ?thesis
      by (intro exI [of _ "p # ps"]) (auto simp: GetString_path)
  next
    case False
    with Cons.IH [of selected] Cons.prems p count met show ?thesis by auto
  qed
qed


lemma select_terms_decided:
  assumes "\<forall>dev \<in> set devices. \<forall>trm \<in> set terms. \<forall>req \<in> set (MatchLSBLK trm). decidable_on E dev req"
    and "\<forall>dev \<in> set devices. device_path dev \<noteq> None"
  shows "\<exists>ps. select_terms E terms devices selected = Ret (Inr (selected @ ps)) \<and>
    set ps = selected_paths E terms devices"
  using assms
proof (induction terms arbitrary: selected)
  case Nil
  then show ?case by (simp add: selected_paths_def)
next
  case (Cons trm terms)
  obtain ps where ps: "select_devices E trm devices selected = Ret (Inr (selected @ ps))"
    "set ps = {p. \<exists>dev \<in> set devices. term_selects E trm dev \<and> device_path dev = Some p}"
    using select_devices_decided [of devices trm E selected] Cons.prems by auto
  obtain qs where "select_terms E terms devices (selected @ ps) = Ret (Inr ((selected @ ps) @ qs))"
    "set qs = selected_paths E terms devices"
    using Cons.IH [of "selected @ ps"] Cons.prems by auto
  with ps show ?case by (intro exI [of _ "ps @ qs"]) (auto simp: selected_paths_def)
qed

text \<open>
  Conversely, a run that succeeds has decided every requirement it looked at: all of them, in
  every term and on every device.
\<close>

lemma count_matches_ok:
  "count_matches E dev reqs n = Ret (Inr m) \<Longrightarrow> req \<in> set reqs \<Longrightarrow> decidable_on E dev req"
  by (induction reqs arbitrary: n) (auto simp: obind_sum_ok decidable_on_def)

lemma select_devices_ok:
  "select_devices E trm devices selected = Ret (Inr ps) \<Longrightarrow> dev \<in> set devices \<Longrightarrow>
     (\<forall>req \<in> set (MatchLSBLK trm). decidable_on E dev req) \<and>
     (term_selects E trm dev \<longrightarrow> device_path dev \<noteq> None)"
proof (induction devices arbitrary: selected)
  case Nil
  then show ?case by simp
next
  case (Cons d devices)
  obtain m where m: "count_matches E d (MatchLSBLK trm) 0 = Ret (Inr m)"
    using Cons.prems(1) by (auto simp: tryO_eq_ok)
  then have dec: "\<forall>req \<in> set (MatchLSBLK trm). decidable_on E d req"
    using count_matches_ok by blast
  then have met: "m = length (MatchLSBLK trm) \<longleftrightarrow> term_selects E trm d"
    using m by (auto simp: count_matches_decided filter_length_all term_selects_def)
  show ?case
  proof (cases "term_selects E trm d")
    case True
    with Cons.prems(1) m met obtain p where "GetString d ColumnPath = Ret (p, True)"
      and rest: "select_devices E trm devices (selected @ [p]) = Ret (Inr ps)"
      by (auto simp: obind_eq_Ret split: if_splits)
    then have "device_path d \<noteq> None" by (simp add: device_path_def)
    with dec Cons.IH [OF rest] Cons.prems(2) show ?thesis by auto
  next
    case False
    with Cons.prems(1) m met have "select_devices E trm devices selected = Ret (Inr ps)" by simp
    from Cons.IH [OF this] Cons.prems(2) dec False show ?thesis by auto
  qed
qed


lemma select_devices_result:
  assumes "select_devices E trm devices selected = Ret (Inr ps)"
  shows "set ps = set selected \<union>
    {p. \<exists>dev \<in> set devices. term_selects E trm dev \<and> device_path dev = Some p}"
  using assms
proof (induction devices arbitrary: selected)
  case Nil
  then show ?case by simp
next
  case (Cons d devices)
  then obtain m where m: "count_matches E d (MatchLSBLK trm) 0 = Ret (Inr m)"
    by (auto simp: tryO_eq_ok)
  have "\<forall>req \<in> set (MatchLSBLK trm). decidable_on E d req"
    using select_devices_ok [OF Cons.prems] by simp
  with m have met: "m = length (MatchLSBLK trm) \<longleftrightarrow> term_selects E trm d"
    by (auto simp: count_matches_decided filter_length_all term_selects_def)
  show ?case
  proof (cases "term_selects E trm d")
    case True
    with Cons.prems m met obtain p where p: "GetString d ColumnPath = Ret (p, True)"
      and "select_devices E trm devices (selected @ [p]) = Ret (Inr ps)"
      by (auto simp: obind_eq_Ret split: if_splits)
    from Cons.IH [OF this(2)] p True show ?thesis by (auto simp: device_path_def)
  next
    case False
    with Cons.prems m met have "select_devices E trm devices selected = Ret (Inr ps)" by simp
    from Cons.IH [OF this] False show ?thesis by auto
  qed
qed

lemma select_terms_result:
  "select_terms E terms devices selected = Ret (Inr ps) \<Longrightarrow>
     set ps = set selected \<union> selected_paths E terms devices"
proof (induction terms arbitrary: selected)
  case Nil
  then show ?case by (simp add: selected_paths_def)
next
  case (Cons trm terms)
  then obtain qs where qs: "select_devices E trm devices selected = Ret (Inr qs)"
    and "select_terms E terms devices qs = Ret (Inr ps)"
    by (auto simp: tryO_eq_ok)
  from Cons.IH [OF this(2)] select_devices_result [OF qs] show ?case
    by (auto simp: selected_paths_def)
qed

lemma selectFrom_result:
  "selectFrom E selector devices = Ret (Inr ps) \<Longrightarrow>
     set ps = selected_paths E selector devices \<and> sorted ps \<and> distinct ps"
  by (auto simp: selectFrom_def tryO_eq_ok dest: select_terms_result)

lemma selectFrom_decided:
  assumes "\<forall>dev \<in> set devices. \<forall>trm \<in> set selector. \<forall>req \<in> set (MatchLSBLK trm). decidable_on E dev req"
    and "\<forall>dev \<in> set devices. device_path dev \<noteq> None"
  shows "selectFrom E selector devices = Ret (Inr (sorted_list_of_set (selected_paths E selector devices)))"
  using select_terms_decided [OF assms, of "[]"]
  by (auto simp: selectFrom_def sort_compact_eq)

section \<open>When a requirement can be decided\<close>

definition string_or_absent :: "BlockDevice \<Rightarrow> Column \<Rightarrow> bool" where
  "string_or_absent dev col = (case Get dev col of None \<Rightarrow> True | Some v \<Rightarrow> (case v of GString s \<Rightarrow> True | _ \<Rightarrow> False))"

definition string_value :: "BlockDevice \<Rightarrow> Column \<Rightarrow> string" where
  "string_value dev col = (case Get dev col of Some (GString s) \<Rightarrow> s | _ \<Rightarrow> [])"

lemma GetString_string_or_absent:
  "string_or_absent dev col \<Longrightarrow> GetString dev col = Ret (string_value dev col, Get dev col \<noteq> None)"
  by (auto simp: string_or_absent_def GetString_def string_value_def split: option.splits goany.splits)

lemma GetString_not_string:
  "\<not> string_or_absent dev col \<Longrightarrow> GetString dev col = Panic TypeAssertion"
  by (auto simp: string_or_absent_def GetString_def split: option.splits goany.splits)

lemma matches_In_string:
  "string_or_absent dev col \<Longrightarrow> matches_In dev col vs = Ret (string_value dev col \<in> set vs)"
  by (induction vs) (auto simp: GetString_string_or_absent)

lemma matches_In_panics:
  "\<not> string_or_absent dev col \<Longrightarrow> vs \<noteq> [] \<Longrightarrow> matches_In dev col vs = Panic TypeAssertion"
  by (cases vs) (simp_all add: GetString_not_string)

text \<open>What \<open>encoding/json\<close> can have produced: no Go \<open>int\<close> anywhere among the values of a device.\<close>

definition json_device :: "BlockDevice \<Rightarrow> bool" where
  "json_device dev \<longleftrightarrow> (\<forall>(k, v) \<in> set dev. \<not> (case v of GInt i \<Rightarrow> True | _ \<Rightarrow> False))"

lemma json_device_Get: "json_device dev \<Longrightarrow> Get dev col = Some v \<Longrightarrow> v \<noteq> GInt i"
  by (auto simp: json_device_def Get_def dest!: map_of_SomeD)

lemma matches_Gt_json:
  assumes "json_device dev" "matches_Gt E dev req = Ret (Inr b)"
  shows "\<exists>v q. req_Values req ! 0 = v \<and> ParseQuantity E v = Inr q \<and> b = (Cmp E (NewQuantity E 0) q = 1)"
  using assms
  by (auto simp: matches_Gt_def Let_def dest: json_device_Get
      split: list.splits sum.splits option.splits goany.splits)


text \<open>The requirements that can be decided on a device, spelt out.\<close>

definition well_typed_for ::
  "('q, 'h) env \<Rightarrow> BlockDevice \<Rightarrow> LSBLKSelectorRequirement \<Rightarrow> bool" where
  "well_typed_for E dev req \<longleftrightarrow>
     (if req_Operator req = PVSelectorOpIn
      then req_Values req = [] \<or> string_or_absent dev (Column (req_Key req))
      else if req_Operator req = PVSelectorGt
      then (case req_Values req of [] \<Rightarrow> False
            | v # _ \<Rightarrow> (case ParseQuantity E v of Inl e \<Rightarrow> False | Inr q \<Rightarrow> True)) \<and>
        Get dev (Column (req_Key req)) \<noteq> None
      else True)"

lemma decidable_on_iff: "decidable_on E dev req \<longleftrightarrow> well_typed_for E dev req"
proof -
  consider (exists) "req_Operator req = PVSelectorOpExists"
    | (absent) "req_Operator req = PVSelectorOpDoesNotExist"
    | (in_op) "req_Operator req = PVSelectorOpIn" | (gt) "req_Operator req = PVSelectorGt"
    | (other) "req_Operator req \<notin> {PVSelectorOpExists, PVSelectorOpDoesNotExist, PVSelectorOpIn, PVSelectorGt}"
    by blast
  then show ?thesis
  proof cases
    case in_op
    show ?thesis
    proof (cases "req_Values req = [] \<or> string_or_absent dev (Column (req_Key req))")
      case True
      with in_op show ?thesis
        by (auto simp: decidable_on_def well_typed_for_def matchesLSBLKRequirement_def operator_defs
            matches_In_string)
    next
      case False
      with in_op show ?thesis
        by (auto simp: decidable_on_def well_typed_for_def matchesLSBLKRequirement_def operator_defs
            matches_In_panics)
    qed
  next
    case gt
    then show ?thesis
      by (auto simp: decidable_on_def well_typed_for_def matchesLSBLKRequirement_def operator_defs
          matches_Gt_def Let_def split: list.splits sum.splits option.splits)
  qed (auto simp: decidable_on_def well_typed_for_def matchesLSBLKRequirement_def operator_defs)
qed

end
