(* ===== verification/Conversion.thy ===== *)
theory Conversion
  imports Selector
begin

text \<open>
  \<open>internal/controller/volumegroup_conversion_util.go\<close>: from the resource's spec to lvm2go's
  arguments, and sizes to and from \<open>resource.Quantity\<close>.
\<close>

section \<open>Names\<close>

definition getNameOnNode :: "'q VolumeGroup \<Rightarrow> string" where
  "getNameOnNode vg = (case spec_NameOnNode (vg_Spec vg) of None \<Rightarrow> GetUID vg | Some n \<Rightarrow> n)"

definition getPhysicalVolumeNames ::
  "('q, 'h) env \<Rightarrow> 'q VolumeGroup \<Rightarrow> (('q, 'h) world, goerror + string list) prog" where
  "getPhysicalVolumeNames E vg =
     andThen (DevicesMatchingSelector E (spec_PhysicalVolumeSelector (vg_Spec vg))) (\<lambda>r.
       case r of
         Inl e \<Rightarrow> return (Inl (Wrapf ''could not get devices matching selector'' e))
       | Inr fromSelector \<Rightarrow>
           andThen (lift_outcome (MapSlice (\<lambda>pv. Ret pv) fromSelector)) (\<lambda>names. return (Inr names)))"

lemma emits_getPhysicalVolumeNames [emits_intros]:
  "(\<And>c. P (EvExec c)) \<Longrightarrow> emits P (getPhysicalVolumeNames E vg)"
  unfolding getPhysicalVolumeNames_def by (intro emits_intros)

section \<open>Flags\<close>

definition convertToAutoActivation :: "bool option \<Rightarrow> AutoActivation" where
  "convertToAutoActivation autoActivation =
     (if autoActivation = None then SetAutoActivate else SetNoAutoActivate)"

definition convertToZero :: "bool option \<Rightarrow> Zero" where
  "convertToZero zero =
     (case zero of None \<Rightarrow> DoNotZeroVolume
      | Some z \<Rightarrow> if z then DoNotZeroVolume else ZeroVolume)"

section \<open>Sizes\<close>

definition NewSize :: "float64 \<Rightarrow> string \<Rightarrow> Size" where
  "NewSize v u = \<lparr>sz_Val = v, sz_Unit = u\<rparr>"

definition convertQuantityToSize :: "('q, 'h) env \<Rightarrow> 'q option \<Rightarrow> goerror + Size" where
  "convertQuantityToSize E q =
     (case q of
        None \<Rightarrow> Inl (errorf ''quantity is nil'')
      | Some x \<Rightarrow>
          let sz = NewSize (AsApproximateFloat64 E x) UnitBytes
          in (case Size_Validate E sz of Some err \<Rightarrow> Inl err | None \<Rightarrow> Inr sz))"

text \<open>Go's \<open>int64(f)\<close>: towards zero where the result fits.\<close>

definition truncate_rat :: "rat \<Rightarrow> int" where
  "truncate_rat r = (if 0 \<le> r then \<lfloor>r\<rfloor> else \<lceil>r\<rceil>)"

definition int64_of_float :: "('q, 'h) env \<Rightarrow> float64 \<Rightarrow> int64" where
  "int64_of_float E f =
     (case f of
        Finite r \<Rightarrow> (if - (2 ^ 63) \<le> truncate_rat r \<and> truncate_rat r < 2 ^ 63
                     then word_of_int (truncate_rat r) else unrepresentable_int64 E f)
      | _ \<Rightarrow> unrepresentable_int64 E f)"

definition convertSizeToQuantity :: "('q, 'h) env \<Rightarrow> Size \<Rightarrow> goerror + 'q" where
  "convertSizeToQuantity E sz =
     sbind (Size_ToUnit E sz UnitBytes) (\<lambda>q. Inr (NewQuantity E (int64_of_float E (sz_Val q))))"

lemma truncate_rat_of_int [simp]: "truncate_rat (of_int i) = i"
  by (simp add: truncate_rat_def)

lemma int64_of_float_of_int:
  "- (2 ^ 63) \<le> i \<Longrightarrow> i < 2 ^ 63 \<Longrightarrow> int64_of_float E (Finite (of_int i)) = word_of_int i"
  by (simp add: int64_of_float_def)

section \<open>convertToVGCreateOptions\<close>

text \<open>A quantity field of the spec, converted when it is set.\<close>

definition convertIfSet :: "('q, 'h) env \<Rightarrow> 'q option \<Rightarrow> goerror + Size option" where
  "convertIfSet E q =
     (if q \<noteq> None then sbind (convertQuantityToSize E q) (\<lambda>s. Inr (Some s)) else Inr None)"

definition initial_options :: "'q VolumeGroup \<Rightarrow> VGCreateOptions" where
  "initial_options vg =
     \<lparr>vco_VolumeGroupName = getNameOnNode vg, vco_Tags = None, vco_PhysicalVolumeNames = [],
      vco_AutoActivation = None, vco_Zero = None, vco_AllocationPolicy = [],
      vco_MaximumPhysicalVolumes = 0, vco_MaximumLogicalVolumes = 0,
      vco_PhysicalExtentSize = None, vco_MetadataSize = None, vco_DataAlignment = None,
      vco_DataAlignmentOffset = None, vco_Devices = None, vco_DevicesFile = []\<rparr>"

text \<open>Lines 66-84: the fields that are copied or mapped without a possible error.\<close>

definition plain_options :: "'q VolumeGroupSpec \<Rightarrow> VGCreateOptions \<Rightarrow> VGCreateOptions" where
  "plain_options s opts =
     opts\<lparr>vco_AutoActivation :=
            (if spec_AutoActivation s \<noteq> None
             then Some (convertToAutoActivation (spec_AutoActivation s))
             else vco_AutoActivation opts),
          vco_Zero :=
            (if spec_Zero s \<noteq> None then Some (convertToZero (spec_Zero s)) else vco_Zero opts),
          vco_AllocationPolicy :=
            (case spec_AllocationPolicy s of Some p \<Rightarrow> p | None \<Rightarrow> vco_AllocationPolicy opts),
          vco_MaximumPhysicalVolumes :=
            (case spec_MaximumPhysicalVolumes s of Some n \<Rightarrow> n
             | None \<Rightarrow> vco_MaximumPhysicalVolumes opts),
          vco_MaximumLogicalVolumes :=
            (case spec_MaximumLogicalVolumes s of Some n \<Rightarrow> n
             | None \<Rightarrow> vco_MaximumLogicalVolumes opts)\<rparr>"

text \<open>Lines 86-116: the four sizes, in order; the first failing one is the error.\<close>

definition size_options ::
  "('q, 'h) env \<Rightarrow> 'q VolumeGroupSpec \<Rightarrow> VGCreateOptions \<Rightarrow> goerror + VGCreateOptions" where
  "size_options E s opts =
     sbind (convertIfSet E (spec_PhysicalExtentSize s)) (\<lambda>physicalExtentSize.
     sbind (convertIfSet E (spec_MetadataSize s)) (\<lambda>metadataSize.
     sbind (convertIfSet E (spec_DataAlignment s)) (\<lambda>dataAlignment.
     sbind (convertIfSet E (spec_DataAlignmentOffset s)) (\<lambda>dataAlignmentOffset.
       Inr (opts\<lparr>vco_PhysicalExtentSize := physicalExtentSize,
                 vco_MetadataSize := metadataSize,
                 vco_DataAlignment := dataAlignment,
                 vco_DataAlignmentOffset := dataAlignmentOffset\<rparr>)))))"

definition device_options :: "'q VolumeGroupSpec \<Rightarrow> VGCreateOptions \<Rightarrow> VGCreateOptions" where
  "device_options s opts =
     opts\<lparr>vco_Devices := (if spec_Devices s \<noteq> None then spec_Devices s else vco_Devices opts),
          vco_DevicesFile :=
            (case spec_DevicesFile s of Some f \<Rightarrow> f | None \<Rightarrow> vco_DevicesFile opts)\<rparr>"

definition convertToVGCreateOptions ::
  "('q, 'h) env \<Rightarrow> 'q VolumeGroup \<Rightarrow> (('q, 'h) world, goerror + VGCreateOptions) prog" where
  "convertToVGCreateOptions E vg =
     (let s = vg_Spec vg;
          opts = (initial_options vg)\<lparr>vco_Tags := spec_Tags s\<rparr>
      in andThen (getPhysicalVolumeNames E vg) (\<lambda>r.
           case r of
             Inl e \<Rightarrow> return (Inl (Wrapf ''could not get physical volume names from spec'' e))
           | Inr names \<Rightarrow>
               return (sbind (size_options E s (plain_options s (opts\<lparr>vco_PhysicalVolumeNames := names\<rparr>)))
                        (\<lambda>opts. Inr (device_options s opts)))))"

lemma emits_convertToVGCreateOptions [emits_intros]:
  "(\<And>c. P (EvExec c)) \<Longrightarrow> emits P (convertToVGCreateOptions E vg)"
  unfolding convertToVGCreateOptions_def Let_def by (intro emits_intros)

text \<open>The parts of a conversion that succeeded.\<close>

lemma convertToVGCreateOptions_ok:
  assumes "convertToVGCreateOptions E vg w = (Ret (Inr opts), w')"
  obtains names a b c d where "getPhysicalVolumeNames E vg w = (Ret (Inr names), w')"
    "convertIfSet E (spec_PhysicalExtentSize (vg_Spec vg)) = Inr a"
    "convertIfSet E (spec_MetadataSize (vg_Spec vg)) = Inr b"
    "convertIfSet E (spec_DataAlignment (vg_Spec vg)) = Inr c"
    "convertIfSet E (spec_DataAlignmentOffset (vg_Spec vg)) = Inr d"
    "opts = device_options (vg_Spec vg) ((plain_options (vg_Spec vg)
       ((initial_options vg)\<lparr>vco_Tags := spec_Tags (vg_Spec vg), vco_PhysicalVolumeNames := names\<rparr>))
       \<lparr>vco_PhysicalExtentSize := a, vco_MetadataSize := b, vco_DataAlignment := c,
        vco_DataAlignmentOffset := d\<rparr>)"
proof -
  obtain r w1 where r: "getPhysicalVolumeNames E vg w = (Ret r, w1)"
    using assms by (auto simp: convertToVGCreateOptions_def Let_def andThen_eq_Ret)
  then obtain names where names: "r = Inr names" "w1 = w'"
    using assms by (cases r) (simp_all add: convertToVGCreateOptions_def Let_def andThen_run return_run)
  with assms r that show thesis
    by (auto simp: convertToVGCreateOptions_def Let_def andThen_run return_run sbind_eq_Inr size_options_def)
qed

end
