(* ===== verification/Conditions.thy ===== *)
theory Conditions
  imports External
begin

text \<open>
  \<open>internal/controller/volumegroup_synced_on_host.go\<close>: the one status condition of a volume
  group. \<open>meta.SetStatusCondition\<close> is apimachinery's; \<open>condition_store\<close> states its documented
  contract.
\<close>

definition ConditionTrue :: string where "ConditionTrue = ''True''"
definition ConditionFalse :: string where "ConditionFalse = ''False''"

definition ConditionTypeVolumeGroupSyncedOnNode :: string where
  "ConditionTypeVolumeGroupSyncedOnNode = ''VolumeGroupSyncedOnNode''"
definition ReasonVolumeGroupSynced :: string where
  "ReasonVolumeGroupSynced = ''VolumeGroupSynced''"
definition ReasonVolumeGroupSyncFailed :: string where
  "ReasonVolumeGroupSyncFailed = ''VolumeGroupSyncFailed''"
definition ReasonVolumeGroupSyncPending :: string where
  "ReasonVolumeGroupSyncPending = ''VolumeGroupSyncPending''"
definition MessageVolumeGroupSyncPending :: string where
  "MessageVolumeGroupSyncPending = ''The volume group is waiting to be synchronized with the node.''"
definition MessageVolumeGroupCreated :: string where
  "MessageVolumeGroupCreated =
     ''The volume group is present on the node and discoverable in the lvm2 subsystem.''"

lemmas condition_strings = ConditionTrue_def ConditionFalse_def
  ConditionTypeVolumeGroupSyncedOnNode_def ReasonVolumeGroupSynced_def
  ReasonVolumeGroupSyncFailed_def ReasonVolumeGroupSyncPending_def
  MessageVolumeGroupSyncPending_def MessageVolumeGroupCreated_def

text \<open>Go's zero \<open>time.Time\<close>, midnight of 1 January of the year 1, in nanoseconds of Unix time.\<close>

definition zero_time :: int where "zero_time = - 62135596800000000000"

definition SyncedOnHost :: Condition where
  "SyncedOnHost =
     \<lparr>cond_Type = ConditionTypeVolumeGroupSyncedOnNode, cond_Status = ConditionFalse,
      cond_ObservedGeneration = 0, cond_LastTransitionTime = zero_time,
      cond_Reason = ReasonVolumeGroupSyncPending, cond_Message = MessageVolumeGroupSyncPending\<rparr>"

definition pending_condition :: "int64 \<Rightarrow> Condition" where
  "pending_condition generation = SyncedOnHost\<lparr>cond_ObservedGeneration := generation\<rparr>"

definition failed_condition :: "int64 \<Rightarrow> goerror \<Rightarrow> Condition" where
  "failed_condition generation err =
     SyncedOnHost\<lparr>cond_Reason := ReasonVolumeGroupSyncFailed,
       cond_Message := ''volume group creation failed: '' @ Error err,
       cond_ObservedGeneration := generation\<rparr>"

definition ok_condition :: "int64 \<Rightarrow> Condition" where
  "ok_condition generation =
     SyncedOnHost\<lparr>cond_Status := ConditionTrue, cond_Reason := ReasonVolumeGroupSynced,
       cond_Message := MessageVolumeGroupCreated, cond_ObservedGeneration := generation\<rparr>"

definition SetSyncedOnHostDefault ::
  "('q, 'h) env \<Rightarrow> 'h \<Rightarrow> Condition list \<Rightarrow> int64 \<Rightarrow> Condition list" where
  "SetSyncedOnHostDefault E h conditions generation =
     SetStatusCondition E h conditions (pending_condition generation)"

definition SetSyncedOnHostCreationFailed ::
  "('q, 'h) env \<Rightarrow> 'h \<Rightarrow> Condition list \<Rightarrow> int64 \<Rightarrow> goerror \<Rightarrow> Condition list" where
  "SetSyncedOnHostCreationFailed E h conditions generation err =
     SetStatusCondition E h conditions (failed_condition generation err)"

definition SetSyncedOnHostCreationOK ::
  "('q, 'h) env \<Rightarrow> 'h \<Rightarrow> Condition list \<Rightarrow> int64 \<Rightarrow> Condition list" where
  "SetSyncedOnHostCreationOK E h conditions generation =
     SetStatusCondition E h conditions (ok_condition generation)"

section \<open>The contract of meta.SetStatusCondition\<close>

text \<open>
  Documented: the condition of the same type is replaced by the new one (its transition time is
  kept, or set, by the function), or the new one is appended; the others stay.
\<close>

definition same_condition :: "Condition \<Rightarrow> Condition \<Rightarrow> bool" where
  "same_condition a b \<longleftrightarrow>
     a\<lparr>cond_LastTransitionTime := 0\<rparr> = b\<lparr>cond_LastTransitionTime := 0\<rparr>"

definition FindStatusCondition :: "Condition list \<Rightarrow> string \<Rightarrow> Condition option" where
  "FindStatusCondition conditions t = find (\<lambda>c. cond_Type c = t) conditions"

definition condition_store :: "('q, 'h) env \<Rightarrow> bool" where
  "condition_store E \<longleftrightarrow>
     (\<forall>h cs c. \<exists>c'. FindStatusCondition (SetStatusCondition E h cs c) (cond_Type c) = Some c' \<and>
        same_condition c' c) \<and>
     (\<forall>h cs c t. t \<noteq> cond_Type c \<longrightarrow>
        FindStatusCondition (SetStatusCondition E h cs c) t = FindStatusCondition cs t)"

lemma condition_storeE:
  assumes "condition_store E"
  obtains c' where "FindStatusCondition (SetStatusCondition E h cs c) (cond_Type c) = Some c'"
    "same_condition c' c"
  using assms unfolding condition_store_def by blast

lemma same_condition_fields:
  "same_condition a b \<Longrightarrow> cond_Type a = cond_Type b \<and> cond_Status a = cond_Status b \<and>
     cond_Reason a = cond_Reason b \<and> cond_Message a = cond_Message b \<and>
     cond_ObservedGeneration a = cond_ObservedGeneration b"
  by (cases a; cases b) (simp add: same_condition_def)

lemma condition_types [simp]:
  "cond_Type (pending_condition g) = ConditionTypeVolumeGroupSyncedOnNode"
  "cond_Type (failed_condition g e) = ConditionTypeVolumeGroupSyncedOnNode"
  "cond_Type (ok_condition g) = ConditionTypeVolumeGroupSyncedOnNode"
  by (simp_all add: pending_condition_def failed_condition_def ok_condition_def SyncedOnHost_def)

end
