(* ===== verification/Sync.thy ===== *)
theory Sync
  imports Conversion Conditions
begin

text \<open>
  \<open>internal/controller/volumegroup_controller_sync.go\<close>, lines 15-218: the six syncers that
  bring the volume group on the node to the spec, and \<open>sync\<close>, which runs them and handles lost
  devices. \<open>lvm\<close> is the pointer \<open>*lvm2go.VolumeGroup\<close> the caller passes: \<open>None\<close> is nil, and
  reading a field of it then panics.
\<close>

section \<open>The syncers\<close>

definition slice_of :: "'a list option \<Rightarrow> 'a list" where
  "slice_of xs = (case xs of None \<Rightarrow> [] | Some ys \<Rightarrow> ys)"

definition syncTags ::
  "('q, 'h) env \<Rightarrow> 'q VolumeGroup \<Rightarrow> LvmVolumeGroup option \<Rightarrow> (('q, 'h) world, goerror option) prog" where
  "syncTags E vg lvm =
     (let name = getNameOnNode vg
      in andThen (deref lvm) (\<lambda>l.
           SequentialTwoWaySync (slice_of (spec_Tags (vg_Spec vg))) (lvg_Tags l)
             (\<lambda>tags. exec_lvm E (VGChange name (ChTags tags)))
             (\<lambda>tags. exec_lvm E (VGChange name (ChDelTags tags)))))"

text \<open>The loop over \<open>PVMove\<close>: it stops at the first error.\<close>

fun movePVs ::
  "('q, 'h) env \<Rightarrow> string list \<Rightarrow> string list \<Rightarrow> (('q, 'h) world, goerror option) prog" where
  "movePVs E [] desiredState = return None"
| "movePVs E (pv # names) desiredState =
     andThen (exec_lvm E (PVMove pv desiredState)) (\<lambda>err.
       case err of Some e \<Rightarrow> return (Some e) | None \<Rightarrow> movePVs E names desiredState)"

definition removePVs ::
  "('q, 'h) env \<Rightarrow> DeviceRemovalVolumePolicy \<Rightarrow> string \<Rightarrow> string list \<Rightarrow> string list \<Rightarrow>
   (('q, 'h) world, goerror option) prog" where
  "removePVs E policy name desiredState names =
     (let args = [RedName name, RedPVs names]
      in if policy = RemovalMoveAndReduce
         then andThen (movePVs E names desiredState) (\<lambda>err.
                case err of Some e \<Rightarrow> return (Some e) | None \<Rightarrow> exec_lvm E (VGReduce args))
         else if policy = RemovalForceReduce
         then exec_lvm E (VGReduce (args @ [RedForce True]))
         else exec_lvm E (VGReduce args))"

definition syncPVs ::
  "('q, 'h) env \<Rightarrow> 'q VolumeGroup \<Rightarrow> LvmVolumeGroup option \<Rightarrow> (('q, 'h) world, goerror option) prog" where
  "syncPVs E vg lvm =
     (let name = getNameOnNode vg
      in andThen (getPhysicalVolumeNames E vg) (\<lambda>r.
         case r of
           Inl e \<Rightarrow> return (Some (Wrapf ''could not get physical volume names to sync spec'' e))
         | Inr desiredState \<Rightarrow>
             andThen (deref lvm) (\<lambda>l.
             andThen (query_PVs E (lvg_Name l)) (\<lambda>r.
             case r of
               Inl e \<Rightarrow> return (Some (Wrapf ''could not get pvs for calculation of state diff'' e))
             | Inr pvs \<Rightarrow>
                 andThen (lift_outcome (MapSlice (\<lambda>pv. Ret (lpv_Name pv)) pvs)) (\<lambda>currentState.
                   SequentialTwoWaySync desiredState currentState
                     (\<lambda>names. exec_lvm E (VGExtend name names))
                     (\<lambda>names. removePVs E (spec_DeviceRemovalVolumePolicy (vg_Spec vg)) name
                                desiredState names))))))"

definition syncName ::
  "('q, 'h) env \<Rightarrow> 'q VolumeGroup \<Rightarrow> LvmVolumeGroup option \<Rightarrow> (('q, 'h) world, goerror option) prog" where
  "syncName E vg lvm =
     (let desired = getNameOnNode vg
      in andThen (deref lvm) (\<lambda>l.
           if lvg_Name l = desired then return None
           else exec_lvm E (VGRename (lvg_Name l) desired)))"

text \<open>One of the two limits: \<open>spec\<close> the wanted value, \<open>get\<close> the field of the volume group.\<close>

definition syncMaximum ::
  "('q, 'h) env \<Rightarrow> int64 option \<Rightarrow> (LvmVolumeGroup \<Rightarrow> int64) \<Rightarrow> (int64 \<Rightarrow> VGChangeOption) \<Rightarrow> string \<Rightarrow>
   LvmVolumeGroup option \<Rightarrow> (('q, 'h) world, goerror option) prog" where
  "syncMaximum E spec get opt msg lvm =
     (case spec of
        None \<Rightarrow> return None
      | Some n \<Rightarrow>
          andThen (deref lvm) (\<lambda>l.
            if get l \<noteq> n
            then andThen (exec_lvm E (VGChange (lvg_Name l) (opt n))) (\<lambda>err. return (wrap msg err))
            else return None))"

definition syncMaximumVolumes ::
  "('q, 'h) env \<Rightarrow> 'q VolumeGroup \<Rightarrow> LvmVolumeGroup option \<Rightarrow> (('q, 'h) world, goerror option) prog" where
  "syncMaximumVolumes E vg lvm =
     andThen (syncMaximum E (spec_MaximumPhysicalVolumes (vg_Spec vg)) lvg_MaxPv
                ChMaximumPhysicalVolumes ''could not set maximum physical volumes'' lvm) (\<lambda>err.
       case err of
         Some e \<Rightarrow> return (Some e)
       | None \<Rightarrow>
           syncMaximum E (spec_MaximumLogicalVolumes (vg_Spec vg)) lvg_MaxLv
             ChMaximumLogicalVolumes ''could not set maximum logical volumes'' lvm)"

definition syncAllocationPolicy ::
  "('q, 'h) env \<Rightarrow> 'q VolumeGroup \<Rightarrow> LvmVolumeGroup option \<Rightarrow> (('q, 'h) world, goerror option) prog" where
  "syncAllocationPolicy E vg lvm =
     (case spec_AllocationPolicy (vg_Spec vg) of
        None \<Rightarrow> return None
      | Some policy \<Rightarrow>
          let desired = ToSnakeCase policy
          in andThen (deref lvm) (\<lambda>l.
               if lvg_AllocationPolicy l = desired then return None
               else exec_lvm E (VGChange (lvg_Name l) (ChAllocationPolicy desired))))"

definition syncAutoActivation ::
  "('q, 'h) env \<Rightarrow> 'q VolumeGroup \<Rightarrow> LvmVolumeGroup option \<Rightarrow> (('q, 'h) world, goerror option) prog" where
  "syncAutoActivation E vg lvm =
     (if spec_AutoActivation (vg_Spec vg) = None then return None
      else let desired = convertToAutoActivation (spec_AutoActivation (vg_Spec vg))
           in andThen (deref lvm) (\<lambda>l.
                if lvg_AutoActivation l \<and> desired = SetAutoActivate then return None
                else if \<not> lvg_AutoActivation l \<and> desired = SetNoAutoActivate then return None
                else exec_lvm E (VGChange (lvg_Name l) (ChAutoActivation desired))))"

section \<open>sync\<close>

type_synonym ('q, 'h) syncer_fun =
  "'q VolumeGroup \<Rightarrow> LvmVolumeGroup option \<Rightarrow> (('q, 'h) world, goerror option) prog"

definition syncers :: "('q, 'h) env \<Rightarrow> ('q, 'h) syncer_fun list" where
  "syncers E = [syncTags E, syncPVs E, syncMaximumVolumes E, syncAllocationPolicy E,
     syncAutoActivation E, syncName E]"

text \<open>Every syncer runs, whatever the earlier ones returned; the results are collected.\<close>

fun run_syncers ::
  "('q, 'h) syncer_fun list \<Rightarrow> 'q VolumeGroup \<Rightarrow> LvmVolumeGroup option \<Rightarrow> goerror option list \<Rightarrow>
   (('q, 'h) world, goerror option list) prog" where
  "run_syncers [] vg lvm errs = return errs"
| "run_syncers (s # ss) vg lvm errs = andThen (s vg lvm) (\<lambda>err. run_syncers ss vg lvm (errs @ [err]))"

text \<open>
  \<open>sync\<close> calls itself after a successful removal of missing devices. A round of it ends with
  its result or with that call.
\<close>

datatype 'q sync_step = Done "'q VolumeGroup" "goerror option" | Again "'q VolumeGroup"

definition fail_sync ::
  "('q, 'h) env \<Rightarrow> 'q VolumeGroup \<Rightarrow> goerror option \<Rightarrow> (('q, 'h) world, 'q sync_step) prog" where
  "fail_sync E vg err =
     andThen (deref err) (\<lambda>e.
     andThen read_host (\<lambda>h.
       return (Done (set_Conditions (SetSyncedOnHostCreationFailed E h
         (st_Conditions (vg_Status vg)) (GetGeneration vg) e) vg) (Some e))))"

definition reduce_options :: "DeviceLossSynchronizationPolicy \<Rightarrow> string \<Rightarrow> VGReduceOption list" where
  "reduce_options policy name =
     [RedName name, RedRemoveMissing True] @
     (if policy = DeviceLossForceRemoveMissing then [RedForce True] else [])"

definition handle_device_loss ::
  "('q, 'h) env \<Rightarrow> 'q VolumeGroup \<Rightarrow> LvmVolumeGroup option \<Rightarrow> goerror option \<Rightarrow>
   (('q, 'h) world, 'q sync_step) prog" where
  "handle_device_loss E vg lvmvg err =
     (let policy = spec_DeviceLossSynchronizationPolicy (vg_Spec vg)
      in if policy \<noteq> DeviceLossFail
         then andThen (deref lvmvg) (\<lambda>l.
              andThen (exec_lvm E (VGReduce (reduce_options policy (lvg_Name l)))) (\<lambda>err.
                case err of
                  Some e \<Rightarrow> return (Done vg (Some (Wrapf
                    ''could not remove missing physical volumes (attempted due to DeviceLossSynchronizationPolicy)'' e)))
                | None \<Rightarrow> return (Again vg)))
         else fail_sync E vg err)"

text \<open>Lines 44-81: the end of a round, from the errors the syncers returned.\<close>

definition conclude_round ::
  "('q, 'h) env \<Rightarrow> 'q VolumeGroup \<Rightarrow> LvmVolumeGroup option \<Rightarrow> goerror option list \<Rightarrow>
   (('q, 'h) world, 'q sync_step) prog" where
  "conclude_round E vg lvmvg errs =
     (let err = errors_Join errs
      in if IsLVMErrVGMissingPVs E err then handle_device_loss E vg lvmvg err
         else if err \<noteq> None then fail_sync E vg err
         else andThen read_host (\<lambda>h.
                return (Done (set_Conditions (SetSyncedOnHostCreationOK E h
                  (st_Conditions (vg_Status vg)) (GetGeneration vg)) vg) None)))"

text \<open>Line 21: the resource with the pending condition set.\<close>

definition pending_vg :: "('q, 'h) env \<Rightarrow> 'h \<Rightarrow> 'q VolumeGroup \<Rightarrow> 'q VolumeGroup" where
  "pending_vg E h vg =
     set_Conditions (SetSyncedOnHostDefault E h (st_Conditions (vg_Status vg)) (GetGeneration vg)) vg"

definition sync_round ::
  "('q, 'h) env \<Rightarrow> 'q VolumeGroup \<Rightarrow> LvmVolumeGroup option \<Rightarrow> (('q, 'h) world, 'q sync_step) prog" where
  "sync_round E vg0 lvmvg =
     andThen read_host (\<lambda>h.
     andThen (run_syncers (syncers E) (pending_vg E h vg0) lvmvg [])
       (conclude_round E (pending_vg E h vg0) lvmvg))"

text \<open>\<open>None\<close> means that the calls never return.\<close>

partial_function (option) sync ::
  "('q, 'h) env \<Rightarrow> 'q VolumeGroup \<Rightarrow> LvmVolumeGroup option \<Rightarrow> ('q, 'h) world \<Rightarrow>
   (('q VolumeGroup \<times> goerror option) outcome \<times> ('q, 'h) world) option" where
  "sync E vg lvmvg w =
     (case sync_round E vg lvmvg w of
        (Panic p, w') \<Rightarrow> Some (Panic p, w')
      | (Ret step, w') \<Rightarrow>
          (case step of
             Done vg' err \<Rightarrow> Some (Ret (vg', err), w')
           | Again vg' \<Rightarrow> sync E vg' lvmvg w'))"

declare sync.simps [code]


section \<open>The contract of a syncer\<close>

text \<open>
  The commands that are justified by the spec of \<open>vg\<close> and the observed group \<open>l\<close>: each names
  the volume group and asks for something the spec wants and the observation lacks.
\<close>

fun change_justified :: "'q VolumeGroup \<Rightarrow> LvmVolumeGroup \<Rightarrow> string \<Rightarrow> VGChangeOption \<Rightarrow> bool" where
  "change_justified vg l n (ChTags ts) \<longleftrightarrow>
     n = getNameOnNode vg \<and> set ts \<subseteq> set (slice_of (spec_Tags (vg_Spec vg))) - set (lvg_Tags l)"
| "change_justified vg l n (ChDelTags ts) \<longleftrightarrow>
     n = getNameOnNode vg \<and> set ts \<subseteq> set (lvg_Tags l) - set (slice_of (spec_Tags (vg_Spec vg)))"
| "change_justified vg l n (ChMaximumPhysicalVolumes k) \<longleftrightarrow>
     n = lvg_Name l \<and> spec_MaximumPhysicalVolumes (vg_Spec vg) = Some k \<and> lvg_MaxPv l \<noteq> k"
| "change_justified vg l n (ChMaximumLogicalVolumes k) \<longleftrightarrow>
     n = lvg_Name l \<and> spec_MaximumLogicalVolumes (vg_Spec vg) = Some k \<and> lvg_MaxLv l \<noteq> k"
| "change_justified vg l n (ChAllocationPolicy p) \<longleftrightarrow>
     n = lvg_Name l \<and> (\<exists>q. spec_AllocationPolicy (vg_Spec vg) = Some q \<and> p = ToSnakeCase q) \<and>
     lvg_AllocationPolicy l \<noteq> p"
| "change_justified vg l n (ChAutoActivation a) \<longleftrightarrow>
     n = lvg_Name l \<and> spec_AutoActivation (vg_Spec vg) \<noteq> None \<and> a = SetNoAutoActivate \<and>
     lvg_AutoActivation l"

definition removal_options :: "'q VolumeGroup \<Rightarrow> string list \<Rightarrow> VGReduceOption list" where
  "removal_options vg names =
     [RedName (getNameOnNode vg), RedPVs names] @
     (if spec_DeviceRemovalVolumePolicy (vg_Spec vg) = RemovalForceReduce then [RedForce True] else [])"

fun justified :: "'q VolumeGroup \<Rightarrow> LvmVolumeGroup \<Rightarrow> lvm_cmd \<Rightarrow> bool" where
  "justified vg l (VGCreate opts) = False"
| "justified vg l (VGChange n opt) = change_justified vg l n opt"
| "justified vg l (VGExtend n pvs) = (n = getNameOnNode vg \<and> pvs \<noteq> [])"
| "justified vg l (VGReduce opts) = (\<exists>names. names \<noteq> [] \<and> opts = removal_options vg names)"
| "justified vg l (PVMove pv pvs) \<longleftrightarrow>
     spec_DeviceRemovalVolumePolicy (vg_Spec vg) = RemovalMoveAndReduce \<and> pv \<notin> set pvs"
| "justified vg l (VGRename a b) \<longleftrightarrow> a = lvg_Name l \<and> b = getNameOnNode vg \<and> a \<noteq> b"
| "justified vg l (VGRemove n f) = False"

fun sync_event :: "(lvm_cmd \<Rightarrow> bool) \<Rightarrow> string \<Rightarrow> 'q event \<Rightarrow> bool" where
  "sync_event C n (EvExec c) = True"
| "sync_event C n (EvPVs m) = (m = n)"
| "sync_event C n (EvLvm c r) = C c"
| "sync_event C n _ = False"

text \<open>
  What \<open>sync\<close> relies on in each of the six: justified commands only; nothing but reads and
  success when the observation already agrees with the spec (\<open>agrees\<close>); with a nil pointer no
  command at all.
\<close>

locale syncer =
  fixes run :: "('q, 'h) syncer_fun"
    and agrees :: "'q VolumeGroup \<Rightarrow> LvmVolumeGroup \<Rightarrow> ('q, 'h) world \<Rightarrow> bool"
  assumes run_emits: "emits (sync_event (justified vg l) (lvg_Name l)) (run vg (Some l))"
    and run_nil: "emits read_only (run vg None)"
    and run_agrees: "agrees vg l w \<Longrightarrow>
      \<exists>w' es. run vg (Some l) w = (Ret None, w') \<and> trace w' = trace w @ es \<and> (\<forall>e \<in> set es. read_only e)"
begin

lemma run_commands:
  assumes "run vg (Some l) w = (r, w')"
  shows "\<exists>es. trace w' = trace w @ es \<and> (\<forall>c x. EvLvm c x \<in> set es \<longrightarrow> justified vg l c)"
  using emits_run [OF run_emits assms] by (metis sync_event.simps(3))

lemma run_error_means_work:
  "run vg (Some l) w = (Ret (Some e), w') \<Longrightarrow> \<not> agrees vg l w"
  using run_agrees by fastforce

lemma run_panic_means_work:
  "run vg (Some l) w = (Panic p, w') \<Longrightarrow> \<not> agrees vg l w"
  using run_agrees by fastforce

end

lemma quiet_return:
  "m = return None \<Longrightarrow>
    \<exists>w' es. m w = (Ret None, w') \<and> trace w' = trace w @ es \<and> (\<forall>e \<in> set es. read_only e)"
  by (simp add: prog_simps)

definition tags_agree :: "'q VolumeGroup \<Rightarrow> LvmVolumeGroup \<Rightarrow> ('q, 'h) world \<Rightarrow> bool" where
  "tags_agree vg l w \<longleftrightarrow> set (slice_of (spec_Tags (vg_Spec vg))) = set (lvg_Tags l)"

interpretation tags: syncer "syncTags E" tags_agree for E :: "('q, 'h) env"
proof unfold_locales
  show "emits (sync_event (justified vg l) (lvg_Name l)) (syncTags E vg (Some l))" for vg l
    unfolding syncTags_def Let_def deref_def option.case andThen_return by (intro emits_intros) auto
  show "emits read_only (syncTags E vg None)" for vg
    by (simp add: syncTags_def deref_def emits_intros)
  show "\<exists>w' es. syncTags E vg (Some l) w = (Ret None, w') \<and> trace w' = trace w @ es \<and>
      (\<forall>e \<in> set es. read_only e)" if "tags_agree vg l w" for vg l w
    by (rule quiet_return)
      (use that in \<open>simp add: syncTags_def tags_agree_def deref_def SequentialTwoWaySync_in_sync\<close>)
qed


lemma emits_movePVs:
  "(\<And>pv r. pv \<in> set names \<Longrightarrow> P (EvLvm (PVMove pv desired) r)) \<Longrightarrow> emits P (movePVs E names desired)"
proof (induction names)
  case Nil
  then show ?case by (simp add: emits_intros)
next
  case (Cons pv names)
  then show ?case by (auto intro!: emits_intros)
qed

lemma emits_removePVs:
  assumes "names \<noteq> []" "set names \<inter> set desired = {}"
  shows "emits (sync_event (justified vg l) n)
    (removePVs E (spec_DeviceRemovalVolumePolicy (vg_Spec vg)) (getNameOnNode vg) desired names)"
  unfolding removePVs_def Let_def
proof (intro emits_intros emits_movePVs)
qed (use assms in \<open>auto simp: removal_options_def RemovalMoveAndReduce_def RemovalForceReduce_def\<close>)

definition pvs_agree ::
  "('q, 'h) env \<Rightarrow> 'q VolumeGroup \<Rightarrow> LvmVolumeGroup \<Rightarrow> ('q, 'h) world \<Rightarrow> bool" where
  "pvs_agree E vg l w =
     (case getPhysicalVolumeNames E vg w of
        (Ret (Inr desired), w') \<Rightarrow>
          (case query_PVs E (lvg_Name l) w' of
             (Ret (Inr pvs), w'') \<Rightarrow> set desired = set (map lpv_Name pvs)
           | _ \<Rightarrow> False)
      | _ \<Rightarrow> False)"

lemma syncPVs_agree:
  assumes "pvs_agree E vg l w"
  shows "\<exists>w' es. syncPVs E vg (Some l) w = (Ret None, w') \<and> trace w' = trace w @ es \<and>
    (\<forall>e \<in> set es. read_only e)"
proof -
  obtain desired w1 pvs w2 where names: "getPhysicalVolumeNames E vg w = (Ret (Inr desired), w1)"
    and query: "query_PVs E (lvg_Name l) w1 = (Ret (Inr pvs), w2)"
    and eq: "set desired = set (map lpv_Name pvs)"
    using assms by (auto simp: pvs_agree_def dest!: case_run_okD)
  obtain es where es: "trace w1 = trace w @ es" "\<forall>e \<in> set es. read_only e"
    by (rule emits_run [OF emits_getPhysicalVolumeNames names, of read_only]) auto
  obtain fs where fs: "trace w2 = trace w1 @ fs" "\<forall>e \<in> set fs. read_only e"
    by (rule emits_run [OF emits_query_PVs query, of read_only]) auto
  have "syncPVs E vg (Some l) w = (Ret None, w2)"
    using names query
    by (simp add: syncPVs_def Let_def prog_simps SequentialTwoWaySync_in_sync [OF eq])
  with es fs show ?thesis by (intro exI [of _ w2] exI [of _ "es @ fs"]) auto
qed

interpretation pvs: syncer "syncPVs E" "pvs_agree E" for E :: "('q, 'h) env"
proof unfold_locales
  show "emits (sync_event (justified vg l) (lvg_Name l)) (syncPVs E vg (Some l))" for vg l
    unfolding syncPVs_def Let_def deref_def option.case andThen_return
    by (intro emits_intros emits_removePVs) auto
  show "emits read_only (syncPVs E vg None)" for vg
    unfolding syncPVs_def Let_def deref_def option.case andThen_panic by (intro emits_intros) auto
qed (rule syncPVs_agree)

definition name_agrees :: "'q VolumeGroup \<Rightarrow> LvmVolumeGroup \<Rightarrow> ('q, 'h) world \<Rightarrow> bool" where
  "name_agrees vg l w \<longleftrightarrow> lvg_Name l = getNameOnNode vg"

interpretation nm: syncer "syncName E" name_agrees for E :: "('q, 'h) env"
proof unfold_locales
  show "emits (sync_event (justified vg l) (lvg_Name l)) (syncName E vg (Some l))" for vg l
    unfolding syncName_def Let_def deref_def option.case andThen_return by (intro emits_intros) auto
  show "emits read_only (syncName E vg None)" for vg
    by (simp add: syncName_def deref_def emits_intros)
qed (rule quiet_return, simp add: syncName_def name_agrees_def deref_def)

definition limits_agree :: "'q VolumeGroup \<Rightarrow> LvmVolumeGroup \<Rightarrow> ('q, 'h) world \<Rightarrow> bool" where
  "limits_agree vg l w \<longleftrightarrow>
     spec_MaximumPhysicalVolumes (vg_Spec vg) \<in> {None, Some (lvg_MaxPv l)} \<and>
     spec_MaximumLogicalVolumes (vg_Spec vg) \<in> {None, Some (lvg_MaxLv l)}"

interpretation limits: syncer "syncMaximumVolumes E" limits_agree for E :: "('q, 'h) env"
proof unfold_locales
  show "emits (sync_event (justified vg l) (lvg_Name l)) (syncMaximumVolumes E vg (Some l))" for vg l
    unfolding syncMaximumVolumes_def syncMaximum_def deref_def option.case andThen_return
    by (intro emits_intros) auto
  show "emits read_only (syncMaximumVolumes E vg None)" for vg
    unfolding syncMaximumVolumes_def syncMaximum_def deref_def option.case andThen_panic
    by (intro emits_intros)
qed (rule quiet_return, auto simp: syncMaximumVolumes_def syncMaximum_def limits_agree_def deref_def)

definition policy_agrees :: "'q VolumeGroup \<Rightarrow> LvmVolumeGroup \<Rightarrow> ('q, 'h) world \<Rightarrow> bool" where
  "policy_agrees vg l w \<longleftrightarrow>
     (case spec_AllocationPolicy (vg_Spec vg) of None \<Rightarrow> True
      | Some p \<Rightarrow> lvg_AllocationPolicy l = ToSnakeCase p)"

interpretation policy: syncer "syncAllocationPolicy E" policy_agrees for E :: "('q, 'h) env"
proof unfold_locales
  show "emits (sync_event (justified vg l) (lvg_Name l)) (syncAllocationPolicy E vg (Some l))" for vg l
    unfolding syncAllocationPolicy_def Let_def deref_def option.case andThen_return
    by (intro emits_intros) auto
  show "emits read_only (syncAllocationPolicy E vg None)" for vg
    unfolding syncAllocationPolicy_def Let_def deref_def option.case andThen_panic
    by (intro emits_intros)
qed (rule quiet_return,
  simp add: syncAllocationPolicy_def policy_agrees_def deref_def split: option.splits)

definition activation_agrees :: "'q VolumeGroup \<Rightarrow> LvmVolumeGroup \<Rightarrow> ('q, 'h) world \<Rightarrow> bool" where
  "activation_agrees vg l w \<longleftrightarrow> spec_AutoActivation (vg_Spec vg) = None \<or> \<not> lvg_AutoActivation l"

interpretation activation: syncer "syncAutoActivation E" activation_agrees for E :: "('q, 'h) env"
proof unfold_locales
  show "emits (sync_event (justified vg l) (lvg_Name l)) (syncAutoActivation E vg (Some l))" for vg l
    unfolding syncAutoActivation_def Let_def deref_def option.case andThen_return
    by (intro emits_intros) (auto simp: convertToAutoActivation_def)
  show "emits read_only (syncAutoActivation E vg None)" for vg
    unfolding syncAutoActivation_def Let_def deref_def option.case andThen_panic
    by (intro emits_intros)
qed (rule quiet_return,
  auto simp: syncAutoActivation_def activation_agrees_def deref_def convertToAutoActivation_def)

end
