(* ===== verification/SyncStatus.thy ===== *)
theory SyncStatus
  imports Conversion
begin

text \<open>
  \<open>syncStatus\<close> (\<open>internal/controller/volumegroup_controller_sync.go\<close>, lines 220-292): the
  observed volume group and its physical volumes copied into the resource's status. The code
  writes through the pointer \<open>vg\<close>, so an error leaves the status half written; the model
  returns the status as it is at that moment together with the error.
\<close>

section \<open>Physical volumes\<close>

definition zero_pv_status :: "'q PhysicalVolumeStatus" where
  "zero_pv_status =
     \<lparr>pvst_Name = [], pvst_UUID = [], pvst_DeviceSize = None, pvst_Attributes = [],
      pvst_Major = 0, pvst_Minor = 0, pvst_Size = None, pvst_Free = None, pvst_Used = None,
      pvst_MetadataAreaFree = None, pvst_MetadataAreaSize = None, pvst_PhysicalExtentStart = None,
      pvst_MetadataAreaCount = 0, pvst_MetadataAreaUsedCount = 0, pvst_Tags = [],
      pvst_DeviceID = [], pvst_DeviceIDType = []\<rparr>"

text \<open>
  \<open>if field, err = convertSizeToQuantity(size); err != nil { return err }\<close>: the field is
  assigned in either case, with nil when the conversion failed.
\<close>

definition assign ::
  "('q, 'h) env \<Rightarrow> Size \<Rightarrow> ('q option \<Rightarrow> 's \<Rightarrow> 's) \<Rightarrow> ('s \<Rightarrow> 's \<times> goerror option) \<Rightarrow> 's \<Rightarrow> 's \<times> goerror option" where
  "assign E sz upd k s =
     (case convertSizeToQuantity E sz of
        Inl err \<Rightarrow> (upd None s, Some err)
      | Inr q \<Rightarrow> k (upd (Some q) s))"

definition pv_status ::
  "('q, 'h) env \<Rightarrow> LvmPhysicalVolume \<Rightarrow> 'q PhysicalVolumeStatus \<Rightarrow> 'q PhysicalVolumeStatus \<times> goerror option" where
  "pv_status E pv s =
     assign E (lpv_DevSize pv) (\<lambda>q s. s\<lparr>pvst_DeviceSize := q\<rparr>) (
     assign E (lpv_Size pv) (\<lambda>q s. s\<lparr>pvst_Size := q\<rparr>) (
     assign E (lpv_Free pv) (\<lambda>q s. s\<lparr>pvst_Free := q\<rparr>) (
     assign E (lpv_Used pv) (\<lambda>q s. s\<lparr>pvst_Used := q\<rparr>) (
     assign E (lpv_MdaFree pv) (\<lambda>q s. s\<lparr>pvst_MetadataAreaFree := q\<rparr>) (
     assign E (lpv_MdaSize pv) (\<lambda>q s. s\<lparr>pvst_MetadataAreaSize := q\<rparr>) (
     assign E (lpv_PeStart pv) (\<lambda>q s. s\<lparr>pvst_PhysicalExtentStart := q\<rparr>) (\<lambda>s.
       (s\<lparr>pvst_MetadataAreaCount := lpv_MdaCount pv,
         pvst_MetadataAreaUsedCount := lpv_MdaUsedCount pv,
         pvst_Tags := lpv_Tags pv, pvst_DeviceID := lpv_DeviceID pv,
         pvst_DeviceIDType := lpv_DeviceIDType pv, pvst_Attributes := lpv_Attr pv,
         pvst_Minor := lpv_Minor pv, pvst_Major := lpv_Major pv\<rparr>, None))))))))
     (s\<lparr>pvst_Name := lpv_Name pv, pvst_UUID := lpv_UUID pv\<rparr>)"

text \<open>Lines 231-264: a slice of zero values, filled from index \<open>i\<close> on.\<close>

fun fill_pvs ::
  "('q, 'h) env \<Rightarrow> nat \<Rightarrow> LvmPhysicalVolume list \<Rightarrow> 'q PhysicalVolumeStatus list \<Rightarrow>
   'q PhysicalVolumeStatus list \<times> goerror option" where
  "fill_pvs E i [] sts = (sts, None)"
| "fill_pvs E i (pv # pvs) sts =
     (case pv_status E pv (sts ! i) of
        (s, Some err) \<Rightarrow> (sts[i := s], Some err)
      | (s, None) \<Rightarrow> fill_pvs E (Suc i) pvs (sts[i := s]))"

section \<open>The volume group\<close>

text \<open>Lines 266-291.\<close>

definition group_status ::
  "('q, 'h) env \<Rightarrow> LvmVolumeGroup \<Rightarrow> 'q VolumeGroupStatus \<Rightarrow> 'q VolumeGroupStatus \<times> goerror option" where
  "group_status E lvm =
     assign E (lvg_ExtentSize lvm) (\<lambda>q s. s\<lparr>st_ExtentSize := q\<rparr>) (
     assign E (lvg_Size lvm) (\<lambda>q s. s\<lparr>st_Size := q\<rparr>) (
     assign E (lvg_Free lvm) (\<lambda>q s. s\<lparr>st_Free := q\<rparr>) (\<lambda>s.
       (s\<lparr>st_Name := lvg_Name lvm, st_UUID := lvg_UUID lvm, st_SysID := lvg_SysID lvm,
         st_Attributes := lvg_Attr lvm, st_Tags := lvg_Tags lvm,
         st_ExtentCount := lvg_ExtentCount lvm, st_SequenceNumber := lvg_SeqNo lvm,
         st_PhysicalVolumeCount := lvg_PvCount lvm,
         st_MissingPhysicalVolumeCount := lvg_MissingPVCount lvm,
         st_MaximumPhysicalVolumes := lvg_MaxPv lvm,
         st_LogicalVolumeCount := lvg_LvCount lvm,
         st_MaximumLogicalVolumes := lvg_MaxLv lvm,
         st_SnapshotCount := lvg_SnapCount lvm,
         st_MetadataAreaCount := lvg_MDACount lvm,
         st_MetadataAreaUsedCount := lvg_MDAUsedCount lvm\<rparr>, None))))"

definition status_from ::
  "('q, 'h) env \<Rightarrow> LvmVolumeGroup \<Rightarrow> LvmPhysicalVolume list \<Rightarrow> 'q VolumeGroupStatus \<Rightarrow>
   'q VolumeGroupStatus \<times> goerror option" where
  "status_from E lvm pvs st =
     (case fill_pvs E 0 pvs (replicate (length pvs) zero_pv_status) of
        (sts, Some err) \<Rightarrow> (st\<lparr>st_PhysicalVolumes := sts\<rparr>, Some err)
      | (sts, None) \<Rightarrow> group_status E lvm (st\<lparr>st_PhysicalVolumes := sts\<rparr>))"

definition syncStatus ::
  "('q, 'h) env \<Rightarrow> 'q VolumeGroup \<Rightarrow> LvmVolumeGroup option \<Rightarrow>
   (('q, 'h) world, 'q VolumeGroup \<times> goerror option) prog" where
  "syncStatus E vg lvm =
     andThen (deref lvm) (\<lambda>l.
     andThen (query_PVs E (lvg_Name l)) (\<lambda>r.
       case r of
         Inl e \<Rightarrow> return (vg, Some (Wrapf ''could not get pvs for status summary'' e))
       | Inr pvs \<Rightarrow>
           (case status_from E l pvs (vg_Status vg) of
              (st, err) \<Rightarrow> return (vg\<lparr>vg_Status := st\<rparr>, err))))"

lemma emits_syncStatus [emits_intros]:
  "(\<And>n. P (EvPVs n)) \<Longrightarrow> emits P (syncStatus E vg lvm)"
  unfolding syncStatus_def by (intro emits_intros)

section \<open>The specification of a complete summary\<close>

definition pv_mirrors ::
  "('q, 'h) env \<Rightarrow> LvmPhysicalVolume \<Rightarrow> 'q PhysicalVolumeStatus \<Rightarrow> bool" where
  "pv_mirrors E pv s \<longleftrightarrow>
     pvst_Name s = lpv_Name pv \<and> pvst_UUID s = lpv_UUID pv \<and>
     (\<exists>d z f u mf ms pe.
        convertSizeToQuantity E (lpv_DevSize pv) = Inr d \<and> pvst_DeviceSize s = Some d \<and>
        convertSizeToQuantity E (lpv_Size pv) = Inr z \<and> pvst_Size s = Some z \<and>
        convertSizeToQuantity E (lpv_Free pv) = Inr f \<and> pvst_Free s = Some f \<and>
        convertSizeToQuantity E (lpv_Used pv) = Inr u \<and> pvst_Used s = Some u \<and>
        convertSizeToQuantity E (lpv_MdaFree pv) = Inr mf \<and> pvst_MetadataAreaFree s = Some mf \<and>
        convertSizeToQuantity E (lpv_MdaSize pv) = Inr ms \<and> pvst_MetadataAreaSize s = Some ms \<and>
        convertSizeToQuantity E (lpv_PeStart pv) = Inr pe \<and> pvst_PhysicalExtentStart s = Some pe) \<and>
     pvst_MetadataAreaCount s = lpv_MdaCount pv \<and>
     pvst_MetadataAreaUsedCount s = lpv_MdaUsedCount pv \<and> pvst_Tags s = lpv_Tags pv \<and>
     pvst_DeviceID s = lpv_DeviceID pv \<and> pvst_DeviceIDType s = lpv_DeviceIDType pv \<and>
     pvst_Attributes s = lpv_Attr pv \<and> pvst_Minor s = lpv_Minor pv \<and> pvst_Major s = lpv_Major pv"

lemma assign_ok:
  "assign E sz upd k s = (s', None) \<longleftrightarrow>
     (\<exists>q. convertSizeToQuantity E sz = Inr q \<and> k (upd (Some q) s) = (s', None))"
  by (auto simp: assign_def split: sum.splits)

lemma pv_status_ok: "pv_status E pv s = (s', None) \<Longrightarrow> pv_mirrors E pv s'"
  unfolding pv_status_def assign_ok pv_mirrors_def by fastforce

lemma fill_pvs_ok:
  "fill_pvs E i pvs sts = (sts', None) \<Longrightarrow> length sts = i + length pvs \<Longrightarrow>
     length sts' = length sts \<and> take i sts' = take i sts \<and>
     list_all2 (pv_mirrors E) pvs (drop i sts')"
proof (induction pvs arbitrary: i sts)
  case Nil
  then show ?case by simp
next
  case (Cons pv pvs)
  then obtain s where s: "pv_status E pv (sts ! i) = (s, None)"
    and rest: "fill_pvs E (Suc i) pvs (sts[i := s]) = (sts', None)"
    by (auto split: prod.splits option.splits)
  have "length (sts[i := s]) = Suc i + length pvs" using Cons.prems by simp
  note IH = Cons.IH [OF rest this]
  have i: "i < length sts'" using IH Cons.prems by simp
  have "sts' ! i = take (Suc i) sts' ! i" by simp
  also have "\<dots> = s" using IH Cons.prems by simp
  finally have "drop i sts' = s # drop (Suc i) sts'" using i by (simp add: Cons_nth_drop_Suc [symmetric])
  moreover have "take i sts' = take i (take (Suc i) sts')" by simp
  then have "take i sts' = take i sts" using IH by (simp add: min_def)
  ultimately show ?case using IH s by (simp add: pv_status_ok)
qed

definition group_mirrors :: "('q, 'h) env \<Rightarrow> LvmVolumeGroup \<Rightarrow> 'q VolumeGroupStatus \<Rightarrow> bool" where
  "group_mirrors E lvm st \<longleftrightarrow>
     st_Name st = lvg_Name lvm \<and> st_UUID st = lvg_UUID lvm \<and> st_SysID st = lvg_SysID lvm \<and>
     st_Attributes st = lvg_Attr lvm \<and> st_Tags st = lvg_Tags lvm \<and>
     (\<exists>x z f. convertSizeToQuantity E (lvg_ExtentSize lvm) = Inr x \<and> st_ExtentSize st = Some x \<and>
        convertSizeToQuantity E (lvg_Size lvm) = Inr z \<and> st_Size st = Some z \<and>
        convertSizeToQuantity E (lvg_Free lvm) = Inr f \<and> st_Free st = Some f) \<and>
     st_ExtentCount st = lvg_ExtentCount lvm \<and> st_SequenceNumber st = lvg_SeqNo lvm \<and>
     st_PhysicalVolumeCount st = lvg_PvCount lvm \<and>
     st_MissingPhysicalVolumeCount st = lvg_MissingPVCount lvm \<and>
     st_MaximumPhysicalVolumes st = lvg_MaxPv lvm \<and> st_LogicalVolumeCount st = lvg_LvCount lvm \<and>
     st_MaximumLogicalVolumes st = lvg_MaxLv lvm \<and> st_SnapshotCount st = lvg_SnapCount lvm \<and>
     st_MetadataAreaCount st = lvg_MDACount lvm \<and> st_MetadataAreaUsedCount st = lvg_MDAUsedCount lvm"

lemma group_status_ok:
  "group_status E lvm st = (st', None) \<Longrightarrow> group_mirrors E lvm st' \<and>
     st_PhysicalVolumes st' = st_PhysicalVolumes st \<and> st_Conditions st' = st_Conditions st"
  unfolding group_status_def assign_ok group_mirrors_def by auto

lemma status_from_ok:
  assumes "status_from E lvm pvs st = (st', None)"
  shows "list_all2 (pv_mirrors E) pvs (st_PhysicalVolumes st')" "group_mirrors E lvm st'"
    "st_Conditions st' = st_Conditions st"
proof -
  obtain sts where sts: "fill_pvs E 0 pvs (replicate (length pvs) zero_pv_status) = (sts, None)"
    and g: "group_status E lvm (st\<lparr>st_PhysicalVolumes := sts\<rparr>) = (st', None)"
    using assms by (auto simp: status_from_def split: prod.splits option.splits)
  show "list_all2 (pv_mirrors E) pvs (st_PhysicalVolumes st')" "group_mirrors E lvm st'"
    "st_Conditions st' = st_Conditions st"
    using fill_pvs_ok [OF sts] group_status_ok [OF g] by simp_all
qed

text \<open>Also a summary that fails half-way touches neither the conditions nor anything outside the status.\<close>

lemma assign_keeps:
  "(\<And>q s. f (upd q s) = f s) \<Longrightarrow> (\<And>s. f (fst (k s)) = f s) \<Longrightarrow> f (fst (assign E sz upd k s)) = f s"
  by (simp add: assign_def split: sum.split)

lemma status_from_Conditions:
  "st_Conditions (fst (status_from E lvm pvs st)) = st_Conditions st"
proof -
  have "st_Conditions (fst (group_status E lvm st)) = st_Conditions st" for st
    unfolding group_status_def by (intro assign_keeps [of st_Conditions]) simp_all
  then show ?thesis by (simp add: status_from_def split: prod.split option.split)
qed

lemma syncStatus_frame:
  assumes "syncStatus E vg (Some l) w = (Ret (vg', err), w')"
  shows "st_Conditions (vg_Status vg') = st_Conditions (vg_Status vg)" "vg_Spec vg' = vg_Spec vg"
    "vg_meta vg' = vg_meta vg"
proof -
  obtain r w1 where q: "query_PVs E (lvg_Name l) w = (Ret r, w1)"
    using assms by (auto simp: syncStatus_def deref_def andThen_eq_Ret)
  have "st_Conditions (vg_Status vg') = st_Conditions (vg_Status vg) \<and> vg_Spec vg' = vg_Spec vg \<and>
    vg_meta vg' = vg_meta vg"
  proof (cases r)
    case (Inl e)
    with assms q show ?thesis by (simp add: syncStatus_def deref_def andThen_run return_run)
  next
    case (Inr pvs)
    obtain st e where st: "status_from E l pvs (vg_Status vg) = (st, e)" by fastforce
    with assms q Inr have "vg' = vg\<lparr>vg_Status := st\<rparr>"
      by (simp add: syncStatus_def deref_def andThen_run return_run)
    with st status_from_Conditions [of E l pvs "vg_Status vg"] show ?thesis by simp
  qed
  then show "st_Conditions (vg_Status vg') = st_Conditions (vg_Status vg)" "vg_Spec vg' = vg_Spec vg"
    "vg_meta vg' = vg_meta vg" by simp_all
qed

lemma syncStatus_ok:
  assumes "syncStatus E vg (Some l) w = (Ret (vg', None), w')"
  shows "\<exists>pvs. query_PVs E (lvg_Name l) w = (Ret (Inr pvs), w') \<and>
    list_all2 (pv_mirrors E) pvs (st_PhysicalVolumes (vg_Status vg')) \<and>
    group_mirrors E l (vg_Status vg') \<and> st_Conditions (vg_Status vg') = st_Conditions (vg_Status vg) \<and>
    vg_Spec vg' = vg_Spec vg \<and> vg_meta vg' = vg_meta vg"
proof -
  obtain r w1 where q: "query_PVs E (lvg_Name l) w = (Ret r, w1)"
    using assms by (auto simp: syncStatus_def deref_def andThen_eq_Ret)
  show ?thesis
  proof (cases r)
    case (Inl e)
    with assms q show ?thesis by (simp add: syncStatus_def deref_def andThen_run return_run)
  next
    case (Inr pvs)
    with assms q obtain st where "status_from E l pvs (vg_Status vg) = (st, None)"
      and "vg' = vg\<lparr>vg_Status := st\<rparr>" "w1 = w'"
      by (auto simp: syncStatus_def deref_def andThen_run return_run split: prod.splits)
    with q Inr status_from_ok [OF this(1)] show ?thesis by simp
  qed
qed

end
