(* ===== verification/SyncLoop.thy ===== *)
theory SyncLoop
  imports Sync
begin

text \<open>
  What \<open>sync\<close> as a whole does: the contract of its rounds from the contracts of the six
  syncers, an induction rule over the rounds, when the rounds end, and what the condition says
  afterwards.
\<close>

section \<open>Running the six syncers\<close>

lemma emits_run_syncers:
  "(\<And>s. s \<in> set ss \<Longrightarrow> emits P (s vg lvm)) \<Longrightarrow> emits P (run_syncers ss vg lvm errs)"
proof (induction ss arbitrary: errs)
  case Nil
  then show ?case by (simp add: emits_intros)
next
  case (Cons s ss)
  then show ?case by (auto intro!: emits_andThen)
qed

lemma emits_syncers:
  assumes "s \<in> set (syncers E)"
  shows "emits (sync_event (justified vg l) (lvg_Name l)) (s vg (Some l))"
proof -
  note c = tags.run_emits pvs.run_emits limits.run_emits policy.run_emits activation.run_emits
    nm.run_emits
  from assms have "s = syncTags E \<or> s = syncPVs E \<or> s = syncMaximumVolumes E \<or>
      s = syncAllocationPolicy E \<or> s = syncAutoActivation E \<or> s = syncName E"
    by (simp add: syncers_def)
  then show ?thesis by (elim disjE) (simp_all add: c)
qed

lemma run_syncers_length:
  "run_syncers ss vg lvm errs w = (Ret errs', w') \<Longrightarrow> length errs' = length errs + length ss"
  by (induction ss arbitrary: errs w) (fastforce simp: andThen_eq_Ret return_run)+

lemma run_syncers_keeps:
  "run_syncers ss vg lvm errs w = (Ret errs', w') \<Longrightarrow> set errs \<subseteq> set errs'"
proof (induction ss arbitrary: errs w)
  case Nil
  then show ?case by (simp add: prog_simps)
next
  case (Cons s ss)
  then show ?case by (fastforce simp: andThen_eq_Ret)
qed

text \<open>Only the first syncer that could panic for a nil pointer gets that far: \<open>syncTags\<close>.\<close>

lemma run_syncers_nil: "run_syncers (syncers E) vg None [] w = (Panic NilDereference, w)"
  by (simp add: syncers_def syncTags_def Let_def deref_def prog_simps)

section \<open>Conditions do not matter to a round\<close>

lemma set_Conditions_name [simp]: "getNameOnNode (set_Conditions cs vg) = getNameOnNode vg"
  by (simp add: getNameOnNode_def split: option.split)

lemma set_Conditions_justified [simp]: "justified (set_Conditions cs vg) l c = justified vg l c"
proof (cases c)
  case (VGChange n opt)
  then show ?thesis by (cases opt) simp_all
qed (simp_all add: removal_options_def)

text \<open>The command that removes lost devices.\<close>

definition loss_command :: "'q VolumeGroup \<Rightarrow> LvmVolumeGroup \<Rightarrow> lvm_cmd \<Rightarrow> bool" where
  "loss_command vg l c \<longleftrightarrow>
     spec_DeviceLossSynchronizationPolicy (vg_Spec vg) \<noteq> DeviceLossFail \<and>
     c = VGReduce (reduce_options (spec_DeviceLossSynchronizationPolicy (vg_Spec vg)) (lvg_Name l))"

definition sync_command :: "'q VolumeGroup \<Rightarrow> LvmVolumeGroup \<Rightarrow> lvm_cmd \<Rightarrow> bool" where
  "sync_command vg l c \<longleftrightarrow> justified vg l c \<or> loss_command vg l c"

lemma sync_command_set_Conditions [simp]:
  "sync_command (set_Conditions cs vg) l c = sync_command vg l c"
  by (simp add: sync_command_def loss_command_def)

lemma sync_event_mono: "sync_event C n e \<Longrightarrow> (\<And>c. C c \<Longrightarrow> D c) \<Longrightarrow> sync_event D n e"
  by (cases e) auto

lemma sync_event_same:
  "sync_event (sync_command (set_Conditions cs vg) l) n e = sync_event (sync_command vg l) n e"
  by (cases e) simp_all

lemma emits_fail_sync [emits_intros]: "emits P (fail_sync E vg err)"
  unfolding fail_sync_def by (intro emits_intros)

lemma emits_handle_device_loss:
  "emits (sync_event (sync_command vg l) n) (handle_device_loss E vg (Some l) err)"
  unfolding handle_device_loss_def Let_def deref_def option.case andThen_return
  by (intro emits_intros) (simp add: sync_command_def loss_command_def)

lemma emits_sync_round:
  "emits (sync_event (sync_command vg l) (lvg_Name l)) (sync_round E vg (Some l))"
proof -
  have "emits (sync_event (sync_command vg l) (lvg_Name l)) (conclude_round E (pending_vg E h vg) (Some l) errs)"
    for h errs
    unfolding conclude_round_def Let_def pending_vg_def
    by (intro emits_intros emits_mono [OF emits_handle_device_loss]) (simp add: sync_event_same)
  moreover have "emits (sync_event (sync_command vg l) (lvg_Name l)) (s (pending_vg E h vg) (Some l))"
    if "s \<in> set (syncers E)" for s h
    by (rule emits_mono [OF emits_syncers [OF that]])
      (auto elim!: sync_event_mono simp: sync_command_def pending_vg_def)
  ultimately show ?thesis
    unfolding sync_round_def by (intro emits_intros emits_run_syncers)
qed

text \<open>A round with a nil pointer panics before it has called anything.\<close>

lemma sync_round_nil: "sync_round E vg None w = (Panic NilDereference, w)"
  by (simp add: sync_round_def Let_def prog_simps call_defs run_syncers_nil)

section \<open>Induction over the rounds\<close>

lemma sync_induct [consumes 1, case_names panic finished again]:
  assumes "sync E vg lvm w = Some (r, w')"
    and "\<And>vg w p w'. sync_round E vg lvm w = (Panic p, w') \<Longrightarrow> P vg w (Panic p) w'"
    and "\<And>vg w vg' err w'. sync_round E vg lvm w = (Ret (Done vg' err), w') \<Longrightarrow> P vg w (Ret (vg', err)) w'"
    and "\<And>vg w vg' w1 r w'. sync_round E vg lvm w = (Ret (Again vg'), w1) \<Longrightarrow>
      sync E vg' lvm w1 = Some (r, w') \<Longrightarrow> P vg' w1 r w' \<Longrightarrow> P vg w r w'"
  shows "P vg w r w'"
proof -
  define Q where "Q F vg l w y \<longleftrightarrow> F = E \<longrightarrow> l = lvm \<longrightarrow>
    sync F vg l w = Some y \<and> P vg w (fst y) (snd y)" for F vg l w y
  have "Q E vg lvm w (r, w')"
  proof (rule sync.raw_induct [where P = Q, OF _ assms(1)])
    fix f F vg l w y
    assume IH: "\<And>F vg l w y. f F vg l w = Some y \<Longrightarrow> Q F vg l w y"
      and eq: "(case sync_round F vg l w of
          (Ret step, w') \<Rightarrow> (case step of Done vg' err \<Rightarrow> Some (Ret (vg', err), w') | Again vg' \<Rightarrow> f F vg' l w')
        | (Panic p, w') \<Rightarrow> Some (Panic p, w')) = Some y"
    show "Q F vg l w y"
      unfolding Q_def
    proof (intro impI)
      assume F: "F = E" "l = lvm"
      show "sync F vg l w = Some y \<and> P vg w (fst y) (snd y)"
      proof (cases "sync_round E vg lvm w")
        case (Pair s w1)
        show ?thesis
        proof (cases s)
          case (Panic p)
          with Pair eq F assms(2) show ?thesis by (auto simp: sync.simps)
        next
          case (Ret step)
          show ?thesis
          proof (cases step)
            case (Done vg' err)
            with Pair Ret eq F assms(3) show ?thesis by (auto simp: sync.simps)
          next
            case (Again vg')
            with Pair Ret eq F have "f E vg' lvm w1 = Some y" by simp
            then have "Q E vg' lvm w1 y" by (rule IH)
            then have *: "sync E vg' lvm w1 = Some y" "P vg' w1 (fst y) (snd y)"
              by (simp_all add: Q_def)
            with Pair Ret Again F have "sync F vg l w = Some y" by (simp add: sync.simps [of E vg])
            moreover have "P vg w (fst y) (snd y)"
              using assms(4) [of vg w vg' w1 "fst y" "snd y"] Pair Ret Again * by simp
            ultimately show ?thesis ..
          qed
        qed
      qed
    qed
  qed
  then show ?thesis by (simp add: Q_def)
qed


section \<open>What a round leaves in the resource\<close>

lemma set_Conditions_twice [simp]: "set_Conditions cs (set_Conditions ds vg) = set_Conditions cs vg"
  by (simp add: set_Conditions_def)

text \<open>How a round ends, from the errors of the syncers.\<close>

lemma sync_round_cases:
  assumes "sync_round E vg lvm w = (Ret step, w')"
  obtains (ok) h errs w1 where "run_syncers (syncers E) (pending_vg E (host w) vg) lvm [] w = (Ret errs, w1)"
      "errors_Join errs = None" "w' = w1"
      "step = Done (set_Conditions (SetSyncedOnHostCreationOK E h
        (st_Conditions (vg_Status (pending_vg E (host w) vg))) (GetGeneration vg)) vg) None"
  | (failed) h errs w1 e where "run_syncers (syncers E) (pending_vg E (host w) vg) lvm [] w = (Ret errs, w1)"
      "errors_Join errs = Some e"
      "step = Done (set_Conditions (SetSyncedOnHostCreationFailed E h
        (st_Conditions (vg_Status (pending_vg E (host w) vg))) (GetGeneration vg) e) vg) (Some e)"
  | (not_reduced) errs w1 l e where "run_syncers (syncers E) (pending_vg E (host w) vg) lvm [] w = (Ret errs, w1)"
      "IsLVMErrVGMissingPVs E (errors_Join errs)" "lvm = Some l"
      "spec_DeviceLossSynchronizationPolicy (vg_Spec vg) \<noteq> DeviceLossFail"
      "exec_lvm E (VGReduce (reduce_options (spec_DeviceLossSynchronizationPolicy (vg_Spec vg)) (lvg_Name l))) w1
         = (Ret (Some e), w')"
      "step = Done (pending_vg E (host w) vg) (Some (Wrapf
        ''could not remove missing physical volumes (attempted due to DeviceLossSynchronizationPolicy)'' e))"
  | (reduced) errs w1 l where "run_syncers (syncers E) (pending_vg E (host w) vg) lvm [] w = (Ret errs, w1)"
      "IsLVMErrVGMissingPVs E (errors_Join errs)" "lvm = Some l"
      "spec_DeviceLossSynchronizationPolicy (vg_Spec vg) \<noteq> DeviceLossFail"
      "exec_lvm E (VGReduce (reduce_options (spec_DeviceLossSynchronizationPolicy (vg_Spec vg)) (lvg_Name l))) w1
         = (Ret None, w')"
      "step = Again (pending_vg E (host w) vg)"
proof -
  let ?vg = "pending_vg E (host w) vg"
  obtain errs w1 where 1: "run_syncers (syncers E) ?vg lvm [] w = (Ret errs, w1)"
    and 2: "conclude_round E ?vg lvm errs w1 = (Ret step, w')"
    using assms by (auto simp: sync_round_def andThen_eq_Ret read_host_def)
  have gen: "GetGeneration (pending_vg E (host w) vg) = GetGeneration vg"
    and spec: "vg_Spec (pending_vg E (host w) vg) = vg_Spec vg"
    and over: "set_Conditions cs (pending_vg E (host w) vg) = set_Conditions cs vg" for cs
    by (simp_all add: pending_vg_def)
  show thesis
  proof (cases "IsLVMErrVGMissingPVs E (errors_Join errs) \<and>
      spec_DeviceLossSynchronizationPolicy (vg_Spec vg) \<noteq> DeviceLossFail")
    case True
    with 2 1 show thesis
      by (auto simp: conclude_round_def handle_device_loss_def Let_def spec andThen_eq_Ret return_run deref_def panic_run
          split: option.splits intro: not_reduced reduced)
  next
    case False
    show thesis
    proof (cases "errors_Join errs")
      case None
      with False 2 1 show thesis
        by (auto simp: conclude_round_def handle_device_loss_def fail_sync_def Let_def spec gen over andThen_eq_Ret return_run
            deref_def panic_run read_host_def split: if_splits intro: ok)
    next
      case (Some e)
      with False 2 1 show thesis
        by (auto simp: conclude_round_def handle_device_loss_def fail_sync_def Let_def spec gen over andThen_eq_Ret return_run
            deref_def panic_run read_host_def split: if_splits intro: failed)
    qed
  qed
qed


lemma pending_vg_simps [simp]:
  "vg_Spec (pending_vg E h vg) = vg_Spec vg"
  "vg_meta (pending_vg E h vg) = vg_meta vg"
  "set_Conditions cs (pending_vg E h vg) = set_Conditions cs vg"
  by (simp_all add: pending_vg_def)

lemma sync_round_Again: "sync_round E vg lvm w = (Ret (Again vg'), w') \<Longrightarrow> \<exists>cs. vg' = set_Conditions cs vg"
  by (erule sync_round_cases) (auto simp: pending_vg_def)

lemma sync_round_Done:
  "sync_round E vg lvm w = (Ret (Done vg' err), w') \<Longrightarrow> \<exists>cs. vg' = set_Conditions cs vg"
  by (erule sync_round_cases) (auto simp: pending_vg_def)

section \<open>Results of sync\<close>

text \<open>\<open>sync\<close> writes nothing but the conditions of the resource.\<close>

lemma sync_frame:
  assumes "sync E vg lvm w = Some (Ret (vg', err), w')"
  shows "\<exists>cs. vg' = set_Conditions cs vg"
proof -
  have "\<forall>vg' err. r = Ret (vg', err) \<longrightarrow> (\<exists>cs. vg' = set_Conditions cs vg)"
    if "sync E vg lvm w = Some (r, w')" for r
    using that
  proof (induction rule: sync_induct)
    case (panic vg w p w')
    then show ?case by simp
  next
    case (finished vg w vg' err w')
    then show ?case by (auto dest: sync_round_Done)
  next
    case (again vg w vg' w1 r w')
    then show ?case by (auto dest!: sync_round_Again)
  qed
  with assms show ?thesis by blast
qed

lemma sync_trace:
  assumes "sync E vg (Some l) w = Some (r, w')"
  shows "\<exists>es. trace w' = trace w @ es \<and> (\<forall>e \<in> set es. sync_event (sync_command vg l) (lvg_Name l) e)"
  using assms
proof (induction rule: sync_induct)
  case (panic vg w p w')
  then show ?case by (rule emits_run [OF emits_sync_round]) blast
next
  case (finished vg w vg' err w')
  then show ?case by (rule emits_run [OF emits_sync_round]) blast
next
  case (again vg w vg' w1 r w')
  obtain es where es: "trace w1 = trace w @ es"
      "\<forall>e \<in> set es. sync_event (sync_command vg l) (lvg_Name l) e"
    using again.hyps(1) by (rule emits_run [OF emits_sync_round])
  obtain cs where cs: "vg' = set_Conditions cs vg" using again.hyps(1) sync_round_Again by blast
  obtain fs where fs: "trace w' = trace w1 @ fs"
      "\<forall>e \<in> set fs. sync_event (sync_command vg' l) (lvg_Name l) e"
    using again.IH by blast
  have "\<forall>e \<in> set (es @ fs). sync_event (sync_command vg l) (lvg_Name l) e"
    using es fs by (auto simp: cs sync_event_same)
  with es fs show ?case by (intro exI [of _ "es @ fs"]) simp
qed

lemma sync_nil: "sync E vg None w = Some (Panic NilDereference, w)"
  by (simp add: sync.simps sync_round_nil)

section \<open>The condition\<close>

text \<open>
  What a reader of the status sees of the one condition: it is present and has the given status,
  reason and message, for the generation that was synchronised.
\<close>

definition reports :: "'q VolumeGroup \<Rightarrow> Condition \<Rightarrow> bool" where
  "reports vg c \<longleftrightarrow>
     (\<exists>c'. FindStatusCondition (st_Conditions (vg_Status vg)) ConditionTypeVolumeGroupSyncedOnNode = Some c' \<and>
        same_condition c' c)"

lemma reports_set_Conditions:
  assumes "condition_store E" "cond_Type c = ConditionTypeVolumeGroupSyncedOnNode"
  shows "reports (set_Conditions (SetStatusCondition E h cs c) vg) c"
  using condition_storeE [OF assms(1), of h cs c] assms(2) by (auto simp: reports_def)

definition sync_reported :: "'q VolumeGroup \<Rightarrow> 'q VolumeGroup \<Rightarrow> goerror option \<Rightarrow> bool" where
  "sync_reported vg vg' err =
     (case err of
        None \<Rightarrow> reports vg' (ok_condition (GetGeneration vg))
      | Some e \<Rightarrow> reports vg' (failed_condition (GetGeneration vg) e) \<or>
          reports vg' (pending_condition (GetGeneration vg)) \<and>
          spec_DeviceLossSynchronizationPolicy (vg_Spec vg) \<noteq> DeviceLossFail)"

lemma sync_reported_set_Conditions [simp]:
  "sync_reported (set_Conditions cs vg) vg' err = sync_reported vg vg' err"
  by (cases err) (simp_all add: sync_reported_def)

lemma sync_round_reported:
  assumes "condition_store E" "sync_round E vg lvm w = (Ret (Done vg' err), w')"
  shows "sync_reported vg vg' err"
proof -
  note set = reports_set_Conditions [OF assms(1)]
  from assms(2) show ?thesis
    by (cases rule: sync_round_cases)
      (auto simp: sync_reported_def SetSyncedOnHostCreationOK_def SetSyncedOnHostCreationFailed_def
        pending_vg_def SetSyncedOnHostDefault_def intro!: set)
qed

lemma sync_reports:
  assumes "condition_store E" "sync E vg lvm w = Some (Ret (vg', err), w')"
  shows "sync_reported vg vg' err"
proof -
  have "\<forall>vg' err. r = Ret (vg', err) \<longrightarrow> sync_reported vg vg' err"
    if "sync E vg lvm w = Some (r, w')" for r
    using that
  proof (induction rule: sync_induct)
    case (finished vg w vg' err w')
    then show ?case using sync_round_reported [OF assms(1)] by blast
  next
    case (again vg w vg' w1 r w')
    then show ?case by (auto dest!: sync_round_Again)
  qed simp
  with assms show ?thesis by blast
qed

section \<open>Nothing to do\<close>

definition in_sync ::
  "('q, 'h) env \<Rightarrow> 'q VolumeGroup \<Rightarrow> LvmVolumeGroup \<Rightarrow> ('q, 'h) world \<Rightarrow> bool" where
  "in_sync E vg l w \<longleftrightarrow> tags_agree vg l w \<and> pvs_agree E vg l w \<and> limits_agree vg l w \<and>
     policy_agrees vg l w \<and> activation_agrees vg l w \<and> name_agrees vg l w"

lemma getPhysicalVolumeNames_cong:
  "vg_Spec vg = vg_Spec vg' \<Longrightarrow> getPhysicalVolumeNames E vg = getPhysicalVolumeNames E vg'"
  by (simp add: getPhysicalVolumeNames_def)

lemma getNameOnNode_cong:
  "vg_Spec vg = vg_Spec vg' \<Longrightarrow> vg_meta vg = vg_meta vg' \<Longrightarrow> getNameOnNode vg = getNameOnNode vg'"
  by (simp add: getNameOnNode_def split: option.split)

lemma in_sync_cong:
  assumes "vg_Spec vg = vg_Spec vg'" "vg_meta vg = vg_meta vg'"
  shows "in_sync E vg l w = in_sync E vg' l w"
  unfolding in_sync_def tags_agree_def pvs_agree_def limits_agree_def policy_agrees_def
    activation_agrees_def name_agrees_def
    getPhysicalVolumeNames_cong [OF assms(1)] getNameOnNode_cong [OF assms] assms ..

lemma run_syncers_in_sync:
  assumes "in_sync E vg l w"
  shows "\<exists>w' es. run_syncers (syncers E) vg (Some l) [] w = (Ret (replicate 6 None), w') \<and>
    trace w' = trace w @ es \<and> (\<forall>e \<in> set es. read_only e)"
proof -
  note agree = assms [unfolded in_sync_def]
  have 1: "syncTags E vg (Some l) = return None"
    using agree by (simp add: syncTags_def tags_agree_def deref_def SequentialTwoWaySync_in_sync)
  obtain w2 e2 where 2: "syncPVs E vg (Some l) w = (Ret None, w2)"
      "trace w2 = trace w @ e2" "\<forall>e \<in> set e2. read_only e"
    using pvs.run_agrees agree by blast
  have "limits_agree vg l w2" using agree by (simp add: limits_agree_def)
  then obtain w3 e3 where 3: "syncMaximumVolumes E vg (Some l) w2 = (Ret None, w3)"
      "trace w3 = trace w2 @ e3" "\<forall>e \<in> set e3. read_only e"
    using limits.run_agrees by blast
  have "policy_agrees vg l w3" using agree by (simp add: policy_agrees_def)
  then obtain w4 e4 where 4: "syncAllocationPolicy E vg (Some l) w3 = (Ret None, w4)"
      "trace w4 = trace w3 @ e4" "\<forall>e \<in> set e4. read_only e"
    using policy.run_agrees by blast
  have "activation_agrees vg l w4" using agree by (simp add: activation_agrees_def)
  then obtain w5 e5 where 5: "syncAutoActivation E vg (Some l) w4 = (Ret None, w5)"
      "trace w5 = trace w4 @ e5" "\<forall>e \<in> set e5. read_only e"
    using activation.run_agrees by blast
  have "name_agrees vg l w5" using agree by (simp add: name_agrees_def)
  then obtain w6 e6 where 6: "syncName E vg (Some l) w5 = (Ret None, w6)"
      "trace w6 = trace w5 @ e6" "\<forall>e \<in> set e6. read_only e"
    using nm.run_agrees by blast
  have "run_syncers (syncers E) vg (Some l) [] w = (Ret (replicate 6 None), w6)"
    by (simp add: syncers_def prog_simps 1 2 3 4 5 6 eval_nat_numeral)
  then show ?thesis using 2 3 4 5 6
    by (intro exI [of _ w6] exI [of _ "e2 @ e3 @ e4 @ e5 @ e6"]) auto
qed

lemma sync_in_sync:
  assumes "in_sync E vg l w" "\<not> IsLVMErrVGMissingPVs E None"
  shows "\<exists>vg' w' es. sync E vg (Some l) w = Some (Ret (vg', None), w') \<and>
    trace w' = trace w @ es \<and> (\<forall>e \<in> set es. read_only e)"
proof -
  have "in_sync E (pending_vg E (host w) vg) l w"
    using assms(1) by (subst in_sync_cong [of _ vg]) simp_all
  then obtain w' es where
      run: "run_syncers (syncers E) (pending_vg E (host w) vg) (Some l) [] w = (Ret (replicate 6 None), w')"
    and es: "trace w' = trace w @ es" "\<forall>e \<in> set es. read_only e"
    using run_syncers_in_sync by blast
  have "errors_Join (replicate 6 None) = None" by (simp add: errors_Join_None)
  with run assms(2) have "\<exists>vg'. sync_round E vg (Some l) w = (Ret (Done vg' None), w')"
    by (simp add: sync_round_def conclude_round_def prog_simps read_host_def)
  with es show ?thesis by (auto simp: sync.simps)
qed

end
