(* ===== verification/LossRecovery.thy ===== *)
theory LossRecovery
  imports SyncLoop
begin

text \<open>
  The recursion of \<open>sync\<close> after a removal of lost devices. The code puts no bound on it. It
  ends, after at most one removal, when a successful removal leaves lvm2 in a state in which its
  commands stop reporting missing devices; where lvm2 keeps reporting them it never ends.
\<close>

section \<open>Invariants of the outside world\<close>

text \<open>
  \<open>keeps I Q m\<close>: from a host in \<open>I\<close>, the program \<open>m\<close> ends in one, with a result in \<open>Q\<close>
  (unless it panics).
\<close>

definition keeps :: "('h \<Rightarrow> bool) \<Rightarrow> ('a \<Rightarrow> bool) \<Rightarrow> (('q, 'h) world, 'a) prog \<Rightarrow> bool" where
  "keeps I Q m \<longleftrightarrow> (\<forall>w a w'. I (host w) \<longrightarrow> m w = (Ret a, w') \<longrightarrow> I (host w') \<and> Q a)"

named_theorems keeps_intros \<open>rules for host invariants\<close>

lemma keepsD: "keeps I Q m \<Longrightarrow> I (host w) \<Longrightarrow> m w = (Ret a, w') \<Longrightarrow> I (host w') \<and> Q a"
  by (auto simp: keeps_def)

lemma keeps_return [keeps_intros]: "Q a \<Longrightarrow> keeps I Q (return a)"
  by (simp add: keeps_def prog_simps)

lemma keeps_panic [keeps_intros]: "keeps I Q (panic p)"
  by (simp add: keeps_def prog_simps)

lemma keeps_lift_outcome [keeps_intros]: "(\<And>a. m = Ret a \<Longrightarrow> Q a) \<Longrightarrow> keeps I Q (lift_outcome m)"
  by (simp add: keeps_def prog_simps)

lemma keeps_deref [keeps_intros]: "(\<And>a. p = Some a \<Longrightarrow> Q a) \<Longrightarrow> keeps I Q (deref p)"
  by (auto simp: deref_def intro: keeps_intros split: option.split)

lemma keeps_read_host [keeps_intros]: "(\<And>h. Q h) \<Longrightarrow> keeps I Q read_host"
  by (simp add: keeps_def read_host_def)

lemma keeps_andThen:
  assumes "keeps I R m" "\<And>a. R a \<Longrightarrow> keeps I Q (k a)"
  shows "keeps I Q (andThen m k)"
  using assms unfolding keeps_def by (metis andThen_eq_Ret)

lemma keeps_if [keeps_intros]:
  "(b \<Longrightarrow> keeps I Q m) \<Longrightarrow> (\<not> b \<Longrightarrow> keeps I Q n) \<Longrightarrow> keeps I Q (if b then m else n)"
  by simp

lemma keeps_case_option [keeps_intros]:
  "(x = None \<Longrightarrow> keeps I Q m) \<Longrightarrow> (\<And>a. x = Some a \<Longrightarrow> keeps I Q (k a)) \<Longrightarrow>
   keeps I Q (case x of None \<Rightarrow> m | Some a \<Rightarrow> k a)"
  by (cases x) simp_all

lemma keeps_case_sum [keeps_intros]:
  "(\<And>e. x = Inl e \<Longrightarrow> keeps I Q (m e)) \<Longrightarrow> (\<And>a. x = Inr a \<Longrightarrow> keeps I Q (k a)) \<Longrightarrow>
   keeps I Q (case x of Inl e \<Rightarrow> m e | Inr a \<Rightarrow> k a)"
  by (cases x) simp_all

lemma keeps_case_prod [keeps_intros]:
  "(\<And>a b. x = (a, b) \<Longrightarrow> keeps I Q (k a b)) \<Longrightarrow> keeps I Q (case x of (a, b) \<Rightarrow> k a b)"
  by (cases x) simp

lemma keeps_SequentialTwoWaySync:
  assumes "\<And>xs. keeps I Q (new xs)" "\<And>xs. keeps I Q (old xs)" "Q None"
  shows "keeps I Q (SequentialTwoWaySync desired current new old)"
  unfolding SequentialTwoWaySync_def Let_def
  by (rule keeps_andThen [where R = Q]) (intro keeps_intros assms | simp)+

section \<open>What is relied on\<close>

text \<open>
  The classification of errors looks through wrapping and joining, as the test-suite of the
  controller expects of it, and is false of nil and of errors made from text alone.
\<close>

definition classifies_missing :: "('q, 'h) env \<Rightarrow> bool" where
  "classifies_missing E \<longleftrightarrow> \<not> IsLVMErrVGMissingPVs E None \<and>
     (\<forall>s e. IsLVMErrVGMissingPVs E (Some (Wrapf s e)) = IsLVMErrVGMissingPVs E (Some e)) \<and>
     (\<forall>es. IsLVMErrVGMissingPVs E (Some (Joined es)) = (\<exists>e \<in> set es. IsLVMErrVGMissingPVs E (Some e))) \<and>
     (\<forall>m. \<not> IsLVMErrVGMissingPVs E (Some (errorf m)))"

text \<open>
  \<open>I\<close> describes the hosts on which no volume group lacks a device: the calls of a round keep it
  and do not report missing devices in it, and a successful removal of missing devices leads
  into it.
\<close>

definition settles :: "('q, 'h) env \<Rightarrow> ('h \<Rightarrow> bool) \<Rightarrow> bool" where
  "settles E I \<longleftrightarrow>
     (\<forall>c h r h'. I h \<longrightarrow> StreamedCommand E c h = (r, h') \<longrightarrow> I h' \<and>
        (case r of Inl e \<Rightarrow> True
         | Inr out \<Rightarrow> \<not> IsLVMErrVGMissingPVs E (out_DecodeError out) \<and>
             \<not> IsLVMErrVGMissingPVs E (out_CloseError out))) \<and>
     (\<forall>n h r h'. I h \<longrightarrow> Lvm_PVs E n h = (r, h') \<longrightarrow> I h' \<and>
        (\<forall>e. r = Inl e \<longrightarrow> \<not> IsLVMErrVGMissingPVs E (Some e))) \<and>
     (\<forall>c h r h'. I h \<longrightarrow> Lvm_exec E c h = (r, h') \<longrightarrow> I h' \<and> \<not> IsLVMErrVGMissingPVs E r) \<and>
     (\<forall>opts h h'. RedRemoveMissing True \<in> set opts \<longrightarrow>
        Lvm_exec E (VGReduce opts) h = (None, h') \<longrightarrow> I h') \<and>
     (\<forall>s e. ParseQuantity E s = Inl e \<longrightarrow> \<not> IsLVMErrVGMissingPVs E (Some e))"

abbreviation harmless :: "('q, 'h) env \<Rightarrow> goerror option \<Rightarrow> bool" where
  "harmless E err \<equiv> \<not> IsLVMErrVGMissingPVs E err"

abbreviation harmless_result :: "('q, 'h) env \<Rightarrow> goerror + 'a \<Rightarrow> bool" where
  "harmless_result E r \<equiv> (case r of Inl e \<Rightarrow> harmless E (Some e) | Inr a \<Rightarrow> True)"

lemma harmless_Join:
  assumes "classifies_missing E"
  shows "harmless E (errors_Join es) \<longleftrightarrow> (\<forall>e \<in> set es. harmless E e)"
proof -
  have none: "harmless E None" using assms by (simp add: classifies_missing_def)
  have "harmless E (errors_Join es) \<longleftrightarrow> (\<forall>e \<in> set (List.map_filter id es). harmless E (Some e))"
    using assms
    by (cases "List.map_filter id es")
      (simp_all add: errors_Join_def classifies_missing_def del: set_map_filter_id)
  also have "\<dots> \<longleftrightarrow> (\<forall>e \<in> set es. harmless E e)"
    using none by (simp) (metis not_None_eq)
  finally show ?thesis .
qed

lemma classifies_simps:
  assumes "classifies_missing E"
  shows "\<not> IsLVMErrVGMissingPVs E None"
    "IsLVMErrVGMissingPVs E (Some (Wrapf s e)) = IsLVMErrVGMissingPVs E (Some e)"
    "\<not> IsLVMErrVGMissingPVs E (Some (errorf m))"
    "IsLVMErrVGMissingPVs E (wrap s err) = IsLVMErrVGMissingPVs E err"
  using assms by (cases err; simp add: classifies_missing_def wrap_def)+

lemma missing_Join:
  "classifies_missing E \<Longrightarrow>
    IsLVMErrVGMissingPVs E (errors_Join es) \<longleftrightarrow> (\<exists>e \<in> set es. IsLVMErrVGMissingPVs E e)"
  using harmless_Join [of E es] by blast

lemma settles_command:
  assumes "settles E I" "I h" "StreamedCommand E c h = (r, h')"
  shows "I h'" and "r = Inr out \<Longrightarrow> harmless E (out_DecodeError out) \<and> harmless E (out_CloseError out)"
proof -
  have "\<forall>c h r h'. I h \<longrightarrow> StreamedCommand E c h = (r, h') \<longrightarrow> I h' \<and>
      (case r of Inl e \<Rightarrow> True
       | Inr out \<Rightarrow> harmless E (out_DecodeError out) \<and> harmless E (out_CloseError out))"
    using assms(1) unfolding settles_def by (elim conjE)
  with assms(2,3) have *: "I h' \<and> (case r of Inl e \<Rightarrow> True
       | Inr out \<Rightarrow> harmless E (out_DecodeError out) \<and> harmless E (out_CloseError out))"
    by blast
  then show "I h'" by blast
  show "harmless E (out_DecodeError out) \<and> harmless E (out_CloseError out)" if "r = Inr out"
    using * that by simp
qed

lemma settles_PVs:
  "settles E I \<Longrightarrow> I h \<Longrightarrow> Lvm_PVs E n h = (r, h') \<Longrightarrow> I h'"
  "settles E I \<Longrightarrow> I h \<Longrightarrow> Lvm_PVs E n h = (Inl e, h') \<Longrightarrow> harmless E (Some e)"
  unfolding settles_def by blast+

lemma settles_exec:
  "settles E I \<Longrightarrow> I h \<Longrightarrow> Lvm_exec E c h = (r, h') \<Longrightarrow> I h' \<and> harmless E r"
  unfolding settles_def by blast

lemma settles_removal:
  "settles E I \<Longrightarrow> RedRemoveMissing True \<in> set opts \<Longrightarrow> Lvm_exec E (VGReduce opts) h = (None, h') \<Longrightarrow> I h'"
  unfolding settles_def by blast

lemma settles_quantity: "settles E I \<Longrightarrow> ParseQuantity E s = Inl e \<Longrightarrow> harmless E (Some e)"
  unfolding settles_def by blast

section \<open>The calls of a round\<close>

lemma keeps_run_command:
  assumes "settles E I"
  shows "keeps I (\<lambda>r. case r of Inl e \<Rightarrow> True
    | Inr out \<Rightarrow> harmless E (out_DecodeError out) \<and> harmless E (out_CloseError out)) (run_command E c)"
  unfolding keeps_def run_command_def
  using settles_command [OF assms] by (fastforce split: prod.splits sum.splits)

lemma keeps_query_PVs:
  assumes "settles E I"
  shows "keeps I (harmless_result E) (query_PVs E n)"
  unfolding keeps_def query_PVs_def
  using settles_PVs [OF assms] by (fastforce split: prod.splits sum.splits)

lemma keeps_exec_lvm:
  assumes "settles E I"
  shows "keeps I (harmless E) (exec_lvm E c)"
  unfolding keeps_def exec_lvm_def
  using settles_exec [OF assms] by (fastforce split: prod.splits)

lemma keeps_LSBLK:
  assumes c: "classifies_missing E" and s: "settles E I"
  shows "keeps I (harmless_result E) (LSBLK E columns)"
proof -
  have "keeps I (\<lambda>(m, err). harmless E err) (runInto E args)" for args
    unfolding runInto_def
    by (rule keeps_andThen [where R = "\<lambda>_. True"], intro keeps_intros, simp)
      (rule keeps_andThen [OF keeps_run_command [OF s]];
        auto intro!: keeps_intros simp: classifies_simps [OF c] missing_Join [OF c])
  then show ?thesis
    unfolding LSBLK_def by (rule keeps_andThen) (auto intro!: keeps_intros)
qed

lemma matchesLSBLKRequirement_harmless:
  assumes "classifies_missing E" "settles E I" "matchesLSBLKRequirement E dev req = Ret (Inl e)"
  shows "harmless E (Some e)"
proof -
  have "matches_Gt E dev req = Ret (Inl e)"
    using assms(3) by (auto simp: matchesLSBLKRequirement_def obind_eq_Ret split: if_splits)
  then show ?thesis
    using settles_quantity [OF assms(2)] classifies_simps [OF assms(1)]
    by (auto simp: matches_Gt_def Let_def split: list.splits sum.splits option.splits)
qed

lemma count_matches_harmless:
  assumes "classifies_missing E" "settles E I"
  shows "count_matches E dev reqs n = Ret (Inl e) \<Longrightarrow> harmless E (Some e)"
proof (induction reqs arbitrary: n)
  case (Cons req reqs)
  then obtain r where r: "matchesLSBLKRequirement E dev req = Ret r"
    by (auto simp: obind_eq_Ret)
  show ?case
  proof (cases r)
    case (Inl f)
    with r have "harmless E (Some f)" using matchesLSBLKRequirement_harmless [OF assms] by blast
    with Cons.prems r Inl show ?thesis using classifies_simps [OF assms(1)] by auto
  next
    case (Inr b)
    with Cons r show ?thesis by simp
  qed
qed simp

lemma tryO_eq_err:
  "tryO m k = Ret (Inl e) \<longleftrightarrow> m = Ret (Inl e) \<or> (\<exists>a. m = Ret (Inr a) \<and> k a = Ret (Inl e))"
proof (cases m)
  case (Ret r)
  then show ?thesis by (cases r) simp_all
qed simp

lemma select_devices_harmless:
  assumes "classifies_missing E" "settles E I"
  shows "select_devices E trm devices selected = Ret (Inl e) \<Longrightarrow> harmless E (Some e)"
  by (induction devices arbitrary: selected)
    (auto simp: tryO_eq_err obind_eq_Ret classifies_simps [OF assms(1)] split: if_splits
      dest: count_matches_harmless [OF assms])

lemma select_terms_harmless:
  assumes "classifies_missing E" "settles E I"
  shows "select_terms E terms devices selected = Ret (Inl e) \<Longrightarrow> harmless E (Some e)"
  by (induction terms arbitrary: selected)
    (auto simp: tryO_eq_err dest: select_devices_harmless [OF assms])

lemma keeps_getPhysicalVolumeNames:
  assumes c: "classifies_missing E" and s: "settles E I"
  shows "keeps I (harmless_result E) (getPhysicalVolumeNames E vg)"
proof -
  have "selectFrom E sel devices = Ret (Inl e) \<Longrightarrow> harmless E (Some e)" for sel devices e
    using select_terms_harmless [OF c s] by (auto simp: selectFrom_def tryO_eq_err)
  then have "keeps I (harmless_result E) (DevicesMatchingSelector E sel)" for sel
    unfolding DevicesMatchingSelector_def
    by (intro keeps_intros)
      (auto intro!: keeps_andThen [OF keeps_LSBLK [OF c s]] keeps_intros
        keeps_andThen [where R = "\<lambda>_. True"] simp: classifies_simps [OF c] split: sum.splits)
  then show ?thesis
    unfolding getPhysicalVolumeNames_def
    by (rule keeps_andThen)
      (auto intro!: keeps_intros keeps_andThen [where R = "\<lambda>_. True"] simp: classifies_simps [OF c])
qed


section \<open>The six syncers\<close>

lemma keeps_movePVs:
  assumes c: "classifies_missing E" and s: "settles E I"
  shows "keeps I (harmless E) (movePVs E names desired)"
proof (induction names)
  case Nil
  then show ?case by (auto intro: keeps_intros simp: classifies_simps [OF c])
next
  case (Cons pv names)
  show ?case
    unfolding movePVs.simps
    by (rule keeps_andThen [OF keeps_exec_lvm [OF s]]) (auto intro!: keeps_intros Cons.IH)
qed

lemma keeps_removePVs:
  assumes c: "classifies_missing E" and s: "settles E I"
  shows "keeps I (harmless E) (removePVs E policy name desired names)"
  unfolding removePVs_def Let_def
  by (intro keeps_if keeps_exec_lvm s keeps_andThen [OF keeps_movePVs [OF c s]])
    (auto intro!: keeps_intros keeps_exec_lvm s)

lemma keeps_syncPVs:
  assumes c: "classifies_missing E" and s: "settles E I"
  shows "keeps I (harmless E) (syncPVs E vg lvm)"
proof -
  have two_way: "keeps I (harmless E) (SequentialTwoWaySync desired current
      (\<lambda>names. exec_lvm E (VGExtend n names)) (\<lambda>names. removePVs E policy n desired names))"
    for desired current n policy
    using keeps_exec_lvm [OF s] keeps_removePVs [OF c s] classifies_simps(1) [OF c]
    by (intro keeps_SequentialTwoWaySync) auto
  show ?thesis
    unfolding syncPVs_def Let_def
  proof (rule keeps_andThen [OF keeps_getPhysicalVolumeNames [OF c s]], goal_cases)
    case (1 r)
    then show ?case
      by (auto intro!: keeps_intros keeps_andThen [OF keeps_deref [where Q = "\<lambda>_. True"]]
          keeps_andThen [OF keeps_query_PVs [OF s]] two_way simp: classifies_simps [OF c] split: sum.splits)
  qed
qed

lemma keeps_syncer:
  assumes c: "classifies_missing E" and s: "settles E I" and "f \<in> set (syncers E)"
  shows "keeps I (harmless E) (f vg lvm)"
proof -
  note facts = keeps_exec_lvm [OF s] keeps_return keeps_deref [where Q = "\<lambda>_. True"] TrueI
    classifies_simps(1) [OF c]
  have 1: "keeps I (harmless E) (syncTags E vg lvm)"
    unfolding syncTags_def Let_def
    by (rule keeps_andThen [where R = "\<lambda>_. True"])
      (auto intro!: keeps_SequentialTwoWaySync facts)
  have m: "keeps I (harmless E) (syncMaximum E spec get opt msg lvm)" for spec get opt msg
    unfolding syncMaximum_def
    by (auto intro!: keeps_intros keeps_andThen [OF keeps_exec_lvm [OF s]]
        keeps_andThen [OF keeps_deref [where Q = "\<lambda>_. True"]] simp: classifies_simps [OF c])
  have 2: "keeps I (harmless E) (syncMaximumVolumes E vg lvm)"
    unfolding syncMaximumVolumes_def
    by (rule keeps_andThen [OF m]) (auto intro!: keeps_intros m)
  have 3: "keeps I (harmless E) (syncAllocationPolicy E vg lvm)"
    unfolding syncAllocationPolicy_def Let_def
    by (auto intro!: keeps_intros facts keeps_andThen [OF keeps_deref [where Q = "\<lambda>_. True"]])
  have 4: "keeps I (harmless E) (syncAutoActivation E vg lvm)"
    unfolding syncAutoActivation_def Let_def
    by (auto intro!: keeps_intros facts keeps_andThen [OF keeps_deref [where Q = "\<lambda>_. True"]])
  have 5: "keeps I (harmless E) (syncName E vg lvm)"
    unfolding syncName_def Let_def
    by (auto intro!: keeps_intros facts keeps_andThen [OF keeps_deref [where Q = "\<lambda>_. True"]])
  have "f = syncTags E \<or> f = syncPVs E \<or> f = syncMaximumVolumes E \<or>
      f = syncAllocationPolicy E \<or> f = syncAutoActivation E \<or> f = syncName E"
    using assms(3) by (simp add: syncers_def)
  then show ?thesis by (elim disjE) (simp_all add: 1 2 3 4 5 keeps_syncPVs [OF c s])
qed

lemma keeps_run_syncers:
  assumes "\<And>f. f \<in> set ss \<Longrightarrow> keeps I Q (f vg lvm)" "\<forall>e \<in> set errs. Q e"
  shows "keeps I (\<lambda>es. \<forall>e \<in> set es. Q e) (run_syncers ss vg lvm errs)"
  using assms
proof (induction ss arbitrary: errs)
  case Nil
  then show ?case by (auto intro: keeps_intros)
next
  case (Cons f ss)
  show ?case
    unfolding run_syncers.simps
    by (rule keeps_andThen [of I Q]) (use Cons in auto)
qed

section \<open>The rounds end, or do not\<close>

lemma sync_round_settled:
  assumes c: "classifies_missing E" and s: "settles E I" and "I (host w)"
  shows "sync_round E vg lvm w \<noteq> (Ret (Again vg'), w')"
proof
  assume "sync_round E vg lvm w = (Ret (Again vg'), w')"
  then obtain errs w1 where
      run: "run_syncers (syncers E) (pending_vg E (host w) vg) lvm [] w = (Ret errs, w1)"
    and miss: "IsLVMErrVGMissingPVs E (errors_Join errs)"
    by (cases rule: sync_round_cases) auto
  have keep: "keeps I (\<lambda>es. \<forall>e \<in> set es. harmless E e)
      (run_syncers (syncers E) (pending_vg E (host w) vg) lvm [])"
  proof (rule keeps_run_syncers)
    show "keeps I (harmless E) (f (pending_vg E (host w) vg) lvm)" if "f \<in> set (syncers E)" for f
      using that by (rule keeps_syncer [OF c s])
    show "\<forall>e \<in> set []. harmless E e" by simp
  qed
  from keepsD [OF keep assms(3) run] have "\<forall>e \<in> set errs. harmless E e" by (rule conjunct2)
  with miss show False by (simp add: missing_Join [OF c])
qed

lemma sync_settled_returns:
  assumes "classifies_missing E" "settles E I" "I (host w)"
  shows "\<exists>r. sync E vg lvm w = Some r"
  using sync_round_settled [OF assms, of vg lvm]
  by (auto simp: sync.simps [of E vg] split: prod.split outcome.split sync_step.split)

lemma reduce_options_missing: "RedRemoveMissing True \<in> set (reduce_options policy n)"
  by (simp add: reduce_options_def)

lemma sync_returns:
  assumes "classifies_missing E" "settles E I"
  shows "\<exists>r. sync E vg lvm w = Some r"
proof (cases "\<exists>vg' w'. sync_round E vg lvm w = (Ret (Again vg'), w')")
  case True
  then obtain vg' w' where again: "sync_round E vg lvm w = (Ret (Again vg'), w')" by blast
  then obtain opts w1 where "RedRemoveMissing True \<in> set opts"
    and "exec_lvm E (VGReduce opts) w1 = (Ret None, w')"
    by (cases rule: sync_round_cases) (blast intro: reduce_options_missing)+
  then have "I (host w')"
    using settles_removal [OF assms(2)] by (fastforce simp: exec_lvm_def split: prod.splits)
  from sync_settled_returns [OF assms this] again show ?thesis by (simp add: sync.simps [of E vg])
next
  case False
  then show ?thesis
    by (auto simp: sync.simps [of E vg] split: prod.split outcome.split sync_step.split)
qed

lemma sync_forever:
  assumes step: "\<And>vg w. J vg w \<Longrightarrow> \<exists>vg' w'. sync_round E vg lvm w = (Ret (Again vg'), w') \<and> J vg' w'"
    and "J vg w"
  shows "sync E vg lvm w = None"
proof (rule ccontr)
  assume "sync E vg lvm w \<noteq> None"
  then obtain r w' where "sync E vg lvm w = Some (r, w')" by auto
  then have "\<not> J vg w"
  proof (induction rule: sync_induct)
    case (panic vg w p w')
    then show ?case using step by fastforce
  next
    case (finished vg w vg' err w')
    then show ?case using step by fastforce
  next
    case (again vg w vg' w1 r w')
    then show ?case using step by fastforce
  qed
  with assms(2) show False by blast
qed

section \<open>Syncers that do not panic\<close>

lemma never_panics_movePVs: "never_panics (movePVs E names desired)"
  by (induction names) (auto intro!: panic_free)

lemma never_panics_removePVs: "never_panics (removePVs E policy n desired names)"
  unfolding removePVs_def Let_def by (intro panic_free never_panics_movePVs)

text \<open>With an observation at hand, only the selection of the devices can panic.\<close>

lemma never_panics_syncers:
  assumes "never_panics (getPhysicalVolumeNames E vg)" and "s \<in> set (syncers E)"
  shows "never_panics (s vg (Some l))"
proof -
  have "never_panics (syncTags E vg (Some l))"
    unfolding syncTags_def deref_def Let_def option.case andThen_return by (intro panic_free)
  moreover have "never_panics (syncPVs E vg (Some l))"
    unfolding syncPVs_def deref_def Let_def option.case andThen_return MapSlice_pure lift_outcome_Ret
    by (intro panic_free never_panics_removePVs assms(1))
  moreover have "never_panics (syncMaximumVolumes E vg (Some l))"
    unfolding syncMaximumVolumes_def syncMaximum_def deref_def option.case andThen_return by (intro panic_free)
  moreover have "never_panics (syncAllocationPolicy E vg (Some l))"
    unfolding syncAllocationPolicy_def deref_def Let_def option.case andThen_return by (intro panic_free)
  moreover have "never_panics (syncAutoActivation E vg (Some l))"
    unfolding syncAutoActivation_def deref_def Let_def option.case andThen_return by (intro panic_free)
  moreover have "never_panics (syncName E vg (Some l))"
    unfolding syncName_def deref_def Let_def option.case andThen_return by (intro panic_free)
  ultimately show ?thesis using assms(2) by (auto simp: syncers_def)
qed

lemma never_panics_run_syncers:
  "(\<And>s. s \<in> set ss \<Longrightarrow> never_panics (s vg lvm)) \<Longrightarrow> never_panics (run_syncers ss vg lvm errs)"
  by (induction ss arbitrary: errs) (auto intro!: panic_free)

text \<open>The errors that a syncer of the list may have returned are among the errors of the run.\<close>

lemma run_syncers_second:
  assumes "run_syncers (syncers E) vg (Some l) [] w = (Ret errs, w')"
  shows "\<exists>w1 w2 r. syncPVs E vg (Some l) w1 = (Ret r, w2) \<and> r \<in> set errs"
proof -
  obtain r1 r2 rest w1 w2 where "syncPVs E vg (Some l) w1 = (Ret r2, w2)"
    and "run_syncers (drop 2 (syncers E)) vg (Some l) [r1, r2] w2 = (Ret errs, w')"
    using assms by (auto simp: syncers_def andThen_eq_Ret)
  moreover from this(2) have "r2 \<in> set errs" using run_syncers_keeps by fastforce
  ultimately show ?thesis by blast
qed

end
