(* ===== verification/Convergence.thy ===== *)
theory Convergence
  imports SyncLoop
begin

text \<open>
  What \<open>sync\<close> achieves. \<open>lvm_state\<close> is the state of one volume group as a set of facts,
  \<open>lvm_contract\<close> what lvm2 promises of its commands on that state, and \<open>converged\<close> what the
  spec asks for. A \<open>sync\<close> that returns no error has brought the state of the volume group to the
  spec; also when it removed lost devices on the way and went on with its stale observation.
\<close>

section \<open>The abstract volume group\<close>

record lvm_state =
  ls_tags :: "string set"
  ls_pvs :: "string set"
  ls_maxpv :: int64
  ls_maxlv :: int64
  ls_policy :: string
  ls_auto :: bool

fun change_effect :: "VGChangeOption \<Rightarrow> lvm_state \<Rightarrow> lvm_state" where
  "change_effect (ChTags ts) s = s\<lparr>ls_tags := ls_tags s \<union> set ts\<rparr>"
| "change_effect (ChDelTags ts) s = s\<lparr>ls_tags := ls_tags s - set ts\<rparr>"
| "change_effect (ChMaximumPhysicalVolumes k) s = s\<lparr>ls_maxpv := k\<rparr>"
| "change_effect (ChMaximumLogicalVolumes k) s = s\<lparr>ls_maxlv := k\<rparr>"
| "change_effect (ChAllocationPolicy p) s = s\<lparr>ls_policy := p\<rparr>"
| "change_effect (ChAutoActivation a) s = s\<lparr>ls_auto := (a = SetAutoActivate)\<rparr>"

fun named_pvs :: "VGReduceOption \<Rightarrow> string list" where
  "named_pvs (RedPVs names) = names"
| "named_pvs _ = []"

text \<open>What a command that succeeded did to the group \<open>n\<close>.\<close>

fun effect :: "string \<Rightarrow> lvm_cmd \<Rightarrow> lvm_state \<Rightarrow> lvm_state \<Rightarrow> bool" where
  "effect n (VGChange m opt) s s' \<longleftrightarrow> (m = n \<longrightarrow> s' = change_effect opt s)"
| "effect n (VGExtend m pvs) s s' \<longleftrightarrow> (m = n \<longrightarrow> s' = s\<lparr>ls_pvs := ls_pvs s \<union> set pvs\<rparr>)"
| "effect n (VGReduce opts) s s' \<longleftrightarrow> (RedName n \<in> set opts \<longrightarrow>
     (if RedRemoveMissing True \<in> set opts then \<exists>P. P \<subseteq> ls_pvs s \<and> s' = s\<lparr>ls_pvs := P\<rparr>
      else s' = s\<lparr>ls_pvs := ls_pvs s - set (concat (map named_pvs opts))\<rparr>))"
| "effect n (PVMove pv pvs) s s' \<longleftrightarrow> s' = s"
| "effect n _ s s' \<longleftrightarrow> True"

text \<open>
  Documented of lvm2: listing devices and physical volumes changes nothing, the listing is
  accurate, a command that fails commits nothing, and one that succeeds has its effect.
\<close>

definition lvm_contract :: "('q, 'h) env \<Rightarrow> string \<Rightarrow> ('h \<Rightarrow> lvm_state) \<Rightarrow> bool" where
  "lvm_contract E n view \<longleftrightarrow>
     (\<forall>c h r h'. StreamedCommand E c h = (r, h') \<longrightarrow> view h' = view h) \<and>
     (\<forall>h r h'. Lvm_PVs E n h = (r, h') \<longrightarrow> view h' = view h \<and>
        (\<forall>pvs. r = Inr pvs \<longrightarrow> set (map lpv_Name pvs) = ls_pvs (view h))) \<and>
     (\<forall>c h r h'. Lvm_exec E c h = (r, h') \<longrightarrow>
        (if r = None then effect n c (view h) (view h') else view h' = view h))"

text \<open>The observation that the controller starts from.\<close>

definition observed :: "LvmVolumeGroup \<Rightarrow> lvm_state \<Rightarrow> bool" where
  "observed l s \<longleftrightarrow> ls_tags s = set (lvg_Tags l) \<and> ls_maxpv s = lvg_MaxPv l \<and>
     ls_maxlv s = lvg_MaxLv l \<and> ls_policy s = lvg_AllocationPolicy l \<and>
     ls_auto s = lvg_AutoActivation l"

text \<open>What the spec asks for, \<open>desired\<close> being the devices that the selector chose.\<close>

abbreviation tags_done :: "'q VolumeGroup \<Rightarrow> lvm_state \<Rightarrow> bool" where
  "tags_done vg s \<equiv> ls_tags s = set (slice_of (spec_Tags (vg_Spec vg)))"

definition limits_done :: "'q VolumeGroup \<Rightarrow> lvm_state \<Rightarrow> bool" where
  "limits_done vg s \<longleftrightarrow> spec_MaximumPhysicalVolumes (vg_Spec vg) \<in> {None, Some (ls_maxpv s)} \<and>
     spec_MaximumLogicalVolumes (vg_Spec vg) \<in> {None, Some (ls_maxlv s)}"

definition policy_done :: "'q VolumeGroup \<Rightarrow> lvm_state \<Rightarrow> bool" where
  "policy_done vg s \<longleftrightarrow>
     map_option ToSnakeCase (spec_AllocationPolicy (vg_Spec vg)) \<in> {None, Some (ls_policy s)}"

definition auto_done :: "'q VolumeGroup \<Rightarrow> lvm_state \<Rightarrow> bool" where
  "auto_done vg s \<longleftrightarrow> spec_AutoActivation (vg_Spec vg) = None \<or>
     ls_auto s = (convertToAutoActivation (spec_AutoActivation (vg_Spec vg)) = SetAutoActivate)"

definition converged :: "'q VolumeGroup \<Rightarrow> string list \<Rightarrow> lvm_state \<Rightarrow> bool" where
  "converged vg desired s \<longleftrightarrow> tags_done vg s \<and> ls_pvs s = set desired \<and> limits_done vg s \<and>
     policy_done vg s \<and> auto_done vg s"

text \<open>
  Between the observation and the goal: what every round of \<open>sync\<close> starts from, the later ones
  with an observation that the earlier ones have made stale.
\<close>

definition between :: "'q VolumeGroup \<Rightarrow> LvmVolumeGroup \<Rightarrow> lvm_state \<Rightarrow> bool" where
  "between vg l s \<longleftrightarrow>
     set (lvg_Tags l) \<inter> set (slice_of (spec_Tags (vg_Spec vg))) \<subseteq> ls_tags s \<and>
     ls_tags s \<subseteq> set (lvg_Tags l) \<union> set (slice_of (spec_Tags (vg_Spec vg))) \<and>
     (ls_maxpv s = lvg_MaxPv l \<or> spec_MaximumPhysicalVolumes (vg_Spec vg) = Some (ls_maxpv s)) \<and>
     (ls_maxlv s = lvg_MaxLv l \<or> spec_MaximumLogicalVolumes (vg_Spec vg) = Some (ls_maxlv s)) \<and>
     (ls_policy s = lvg_AllocationPolicy l \<or>
       map_option ToSnakeCase (spec_AllocationPolicy (vg_Spec vg)) = Some (ls_policy s)) \<and>
     (ls_auto s = lvg_AutoActivation l \<or> spec_AutoActivation (vg_Spec vg) \<noteq> None \<and> auto_done vg s)"

lemma observed_between: "observed l s \<Longrightarrow> between vg l s"
  by (auto simp: observed_def between_def)

lemma between_pvs [simp]: "between vg l (s\<lparr>ls_pvs := P\<rparr>) = between vg l s"
  by (simp add: between_def auto_done_def)

section \<open>Programs as relations on the abstract state\<close>

definition refines ::
  "('h \<Rightarrow> lvm_state) \<Rightarrow> ('a \<Rightarrow> lvm_state \<Rightarrow> lvm_state \<Rightarrow> bool) \<Rightarrow> (('q, 'h) world, 'a) prog \<Rightarrow> bool" where
  "refines view R m \<longleftrightarrow> (\<forall>w a w'. m w = (Ret a, w') \<longrightarrow> R a (view (host w)) (view (host w')))"

lemma refinesD: "refines view R m \<Longrightarrow> m w = (Ret a, w') \<Longrightarrow> R a (view (host w)) (view (host w'))"
  by (auto simp: refines_def)

lemma refines_return: "(\<And>s. R a s s) \<Longrightarrow> refines view R (return a)"
  by (simp add: refines_def return_run)

lemma refines_andThen:
  assumes "refines view Q m" and "\<And>a. refines view (\<lambda>b s1 s2. \<forall>s. Q a s s1 \<longrightarrow> R b s s2) (k a)"
  shows "refines view R (andThen m k)"
  using assms unfolding refines_def andThen_eq_Ret by blast

lemma refines_mono: "refines view Q m \<Longrightarrow> (\<And>a s s'. Q a s s' \<Longrightarrow> R a s s') \<Longrightarrow> refines view R m"
  by (auto simp: refines_def)

lemma exec_lvm_refines:
  "lvm_contract E n view \<Longrightarrow>
     refines view (\<lambda>r s s'. if r = None then effect n c s s' else s' = s) (exec_lvm E c)"
  by (auto simp: refines_def lvm_contract_def exec_lvm_def split: prod.splits)

lemma query_PVs_refines:
  "lvm_contract E n view \<Longrightarrow>
     refines view (\<lambda>r s s'. s' = s \<and> (\<forall>pvs. r = Inr pvs \<longrightarrow> set (map lpv_Name pvs) = ls_pvs s)) (query_PVs E n)"
  by (auto simp: refines_def lvm_contract_def query_PVs_def split: prod.splits)

lemma run_command_refines:
  "lvm_contract E n view \<Longrightarrow> refines view (\<lambda>r s s'. s' = s) (run_command E c)"
  by (auto simp: refines_def lvm_contract_def run_command_def split: prod.splits)

lemma refines_lift_outcome: "(\<And>a s. R a s s) \<Longrightarrow> refines view R (lift_outcome m)"
  by (simp add: refines_def lift_outcome_run)

lemma refines_same:
  assumes "refines view (\<lambda>_ s s'. s' = s) m" "\<And>a. refines view (\<lambda>_ s s'. s' = s) (k a)"
  shows "refines view (\<lambda>_ s s'. s' = s) (andThen m k)"
  by (rule refines_andThen [OF assms(1)]) (simp add: assms(2))

lemma refines_case_sum:
  "(\<And>e. refines view R (m e)) \<Longrightarrow> (\<And>a. refines view R (k a)) \<Longrightarrow>
   refines view R (case x of Inl e \<Rightarrow> m e | Inr a \<Rightarrow> k a)"
  by (cases x) simp_all

lemma selector_refines:
  assumes "lvm_contract E n view"
  shows "refines view (\<lambda>_ s s'. s' = s) (getPhysicalVolumeNames E vg)"
proof -
  have host: "refines view (\<lambda>_ s s'. s' = s) read_host" by (simp add: refines_def read_host_def)
  have "refines view (\<lambda>_ s s'. s' = s) (LSBLK E columns)" for columns
    unfolding LSBLK_def runInto_def andThen_assoc
    by (intro refines_same host run_command_refines [OF assms])
      (auto intro!: refines_return refines_same split: sum.split option.split)
  then show ?thesis
    unfolding getPhysicalVolumeNames_def DevicesMatchingSelector_def
    by (auto intro!: refines_same refines_return refines_lift_outcome split: sum.split)
qed

text \<open>The two-way synchronisation over callbacks that add to and delete from the state.\<close>

lemma two_way_refines:
  assumes "\<And>xs. refines view (\<lambda>r s s'. s' = (if r = None then add xs s else s)) (new xs)"
    and "\<And>xs. refines view (\<lambda>r s s'. s' = (if r = None then del xs s else s)) (old xs)"
    and "\<And>s. add [] s = s" "\<And>s. del [] s = s"
  shows "refines view
    (\<lambda>r s s'. let a = add (InLeftButNotInRight desired current) s
              in if r = None then s' = del (InLeftButNotInRight current desired) a else s' \<in> {s, a})
    (SequentialTwoWaySync desired current new old)"
  unfolding SequentialTwoWaySync_def Let_def
proof (rule refines_andThen)
  show "refines view (\<lambda>r s s'. s' = (if r = None then add (InLeftButNotInRight desired current) s else s))
      (if InLeftButNotInRight desired current \<noteq> [] then new (InLeftButNotInRight desired current)
       else return None)"
    by (auto intro: assms(1) refines_return simp: assms(3))
next
  fix a
  have "refines view (\<lambda>r s s'. s' = (if r = None then del (InLeftButNotInRight current desired) s else s))
      (if InLeftButNotInRight current desired \<noteq> [] then old (InLeftButNotInRight current desired)
       else return None)"
    by (auto intro: assms(2) refines_return simp: assms(4))
  then show "refines view (\<lambda>b s1 s2. \<forall>s. s1 = (if a = None then add (InLeftButNotInRight desired current) s else s) \<longrightarrow>
      (if b = None then s2 = del (InLeftButNotInRight current desired) (add (InLeftButNotInRight desired current) s)
       else s2 \<in> {s, add (InLeftButNotInRight desired current) s}))
      (case a of None \<Rightarrow> if InLeftButNotInRight current desired \<noteq> [] then old (InLeftButNotInRight current desired)
          else return None | Some e \<Rightarrow> return (Some e))"
    by (cases a) (auto intro: refines_mono refines_return)
qed

section \<open>The contract of a syncer on the abstract state\<close>

text \<open>
  A syncer writes its own part of the state only (\<open>owns\<close>), keeps it between the observation and
  the goal whatever happens, and has reached its part of the goal (\<open>goal\<close>) when it returns no
  error.
\<close>

locale achiever =
  fixes E :: "('q, 'h) env" and run :: "('q, 'h) syncer_fun"
    and owns :: "lvm_state \<Rightarrow> lvm_state \<Rightarrow> bool" and goal :: "'q VolumeGroup \<Rightarrow> lvm_state \<Rightarrow> bool"
  assumes run_refines: "lvm_contract E (lvg_Name l) view \<Longrightarrow> getNameOnNode vg = lvg_Name l \<Longrightarrow>
      refines view (\<lambda>r s s'. owns s s' \<and>
        (between vg l s \<longrightarrow> between vg l s' \<and> (r = None \<longrightarrow> goal vg s'))) (run vg (Some l))"
begin

lemma run_owns:
  assumes "lvm_contract E (lvg_Name l) view" "getNameOnNode vg = lvg_Name l"
    and "run vg (Some l) w = (Ret r, w')"
  shows "owns (view (host w)) (view (host w'))"
  using refinesD [OF run_refines [OF assms(1,2)] assms(3)] by blast

lemma run_between:
  assumes "lvm_contract E (lvg_Name l) view" "getNameOnNode vg = lvg_Name l"
    and "run vg (Some l) w = (Ret r, w')" "between vg l (view (host w))"
  shows "between vg l (view (host w'))"
  using refinesD [OF run_refines [OF assms(1,2)] assms(3)] assms(4) by blast

lemma run_goal:
  assumes "lvm_contract E (lvg_Name l) view" "getNameOnNode vg = lvg_Name l"
    and "run vg (Some l) w = (Ret None, w')" "between vg l (view (host w))"
  shows "goal vg (view (host w'))"
  using refinesD [OF run_refines [OF assms(1,2)] assms(3)] assms(4) by blast

end

definition tags_only :: "lvm_state \<Rightarrow> lvm_state \<Rightarrow> bool" where
  "tags_only s s' \<longleftrightarrow> s' = s\<lparr>ls_tags := ls_tags s'\<rparr>"

definition pvs_only :: "lvm_state \<Rightarrow> lvm_state \<Rightarrow> bool" where
  "pvs_only s s' \<longleftrightarrow> s' = s\<lparr>ls_pvs := ls_pvs s'\<rparr>"

definition limits_only :: "lvm_state \<Rightarrow> lvm_state \<Rightarrow> bool" where
  "limits_only s s' \<longleftrightarrow> s' = s\<lparr>ls_maxpv := ls_maxpv s', ls_maxlv := ls_maxlv s'\<rparr>"

definition policy_only :: "lvm_state \<Rightarrow> lvm_state \<Rightarrow> bool" where
  "policy_only s s' \<longleftrightarrow> s' = s\<lparr>ls_policy := ls_policy s'\<rparr>"

definition auto_only :: "lvm_state \<Rightarrow> lvm_state \<Rightarrow> bool" where
  "auto_only s s' \<longleftrightarrow> s' = s\<lparr>ls_auto := ls_auto s'\<rparr>"

lemmas owns_defs = tags_only_def pvs_only_def limits_only_def policy_only_def auto_only_def

lemma exec_change_refines:
  assumes "lvm_contract E n view"
  shows "refines view (\<lambda>r s s'. s' = (if r = None then change_effect opt s else s)) (exec_lvm E (VGChange n opt))"
  by (rule refines_mono [OF exec_lvm_refines [OF assms]]) (auto split: if_splits)

interpretation tags_goal: achiever E "syncTags E" tags_only "\<lambda>vg s. tags_done vg s" for E :: "('q, 'h) env"
proof unfold_locales
  fix l :: LvmVolumeGroup and view :: "'h \<Rightarrow> lvm_state" and vg :: "'q VolumeGroup"
  assume c: "lvm_contract E (lvg_Name l) view" and n: "getNameOnNode vg = lvg_Name l"
  let ?D = "slice_of (spec_Tags (vg_Spec vg))" and ?L = "lvg_Tags l"
  have "refines view (\<lambda>r s s'.
      let a = s\<lparr>ls_tags := ls_tags s \<union> set (InLeftButNotInRight ?D ?L)\<rparr>
      in if r = None then s' = a\<lparr>ls_tags := ls_tags a - set (InLeftButNotInRight ?L ?D)\<rparr> else s' \<in> {s, a})
    (SequentialTwoWaySync ?D ?L (\<lambda>tags. exec_lvm E (VGChange (lvg_Name l) (ChTags tags)))
       (\<lambda>tags. exec_lvm E (VGChange (lvg_Name l) (ChDelTags tags))))"
    by (rule two_way_refines; (rule refines_mono [OF exec_change_refines [OF c]])?) auto
  then show "refines view (\<lambda>r s s'. tags_only s s' \<and>
      (between vg l s \<longrightarrow> between vg l s' \<and> (r = None \<longrightarrow> tags_done vg s'))) (syncTags E vg (Some l))"
    unfolding syncTags_def Let_def n deref_def option.case andThen_return
    by (rule refines_mono)
      (auto simp: tags_only_def between_def auto_done_def sd.set_diff split: if_splits)
qed

lemma syncMaximum_refines:
  assumes "lvm_contract E (lvg_Name l) view"
    and "\<And>k s. change_effect (opt k) s = upd k s"
  shows "refines view (\<lambda>r s s'. case spec of None \<Rightarrow> s' = s \<and> r = None
      | Some k \<Rightarrow> if get l = k then s' = s \<and> r = None else s' = (if r = None then upd k s else s))
    (syncMaximum E spec get opt msg (Some l))"
proof (cases spec)
  case None
  then show ?thesis by (simp add: syncMaximum_def refines_return)
next
  case (Some k)
  have "refines view (\<lambda>r s s'. s' = (if r = None then upd k s else s))
      (andThen (exec_lvm E (VGChange (lvg_Name l) (opt k))) (\<lambda>err. return (wrap msg err)))"
    by (rule refines_andThen [OF exec_change_refines [OF assms(1)]])
      (auto intro!: refines_return simp: assms(2) wrap_def)
  with Some show ?thesis by (auto simp: syncMaximum_def deref_def intro: refines_return)
qed

interpretation limits_goal: achiever E "syncMaximumVolumes E" limits_only limits_done for E :: "('q, 'h) env"
proof unfold_locales
  fix l :: LvmVolumeGroup and view :: "'h \<Rightarrow> lvm_state" and vg :: "'q VolumeGroup"
  assume c: "lvm_contract E (lvg_Name l) view" and n: "getNameOnNode vg = lvg_Name l"
  note pv = syncMaximum_refines [OF c, where opt = ChMaximumPhysicalVolumes and upd = "\<lambda>k. ls_maxpv_update (\<lambda>_. k)"
    and spec = "spec_MaximumPhysicalVolumes (vg_Spec vg)" and get = lvg_MaxPv
    and msg = "''could not set maximum physical volumes''"]
  note lv = syncMaximum_refines [OF c, where opt = ChMaximumLogicalVolumes and upd = "\<lambda>k. ls_maxlv_update (\<lambda>_. k)"
    and spec = "spec_MaximumLogicalVolumes (vg_Spec vg)" and get = lvg_MaxLv
    and msg = "''could not set maximum logical volumes''"]
  show "refines view (\<lambda>r s s'. limits_only s s' \<and>
      (between vg l s \<longrightarrow> between vg l s' \<and> (r = None \<longrightarrow> limits_done vg s'))) (syncMaximumVolumes E vg (Some l))"
    unfolding syncMaximumVolumes_def
  proof (rule refines_andThen [OF pv], simp, goal_cases)
    case (1 a)
    show ?case
    proof (cases a)
      case None
      show ?thesis
        unfolding None option.case
        by (rule refines_mono [OF lv], simp;
            cases "spec_MaximumPhysicalVolumes (vg_Spec vg)"; cases "spec_MaximumLogicalVolumes (vg_Spec vg)")
          (auto simp: limits_only_def between_def limits_done_def auto_done_def split: if_splits)
    next
      case (Some e)
      show ?thesis
        unfolding Some option.case
        by (rule refines_return)
          (auto simp: limits_only_def between_def auto_done_def split: option.splits if_splits)
    qed
  qed
qed

interpretation policy_goal: achiever E "syncAllocationPolicy E" policy_only policy_done for E :: "('q, 'h) env"
proof unfold_locales
  fix l :: LvmVolumeGroup and view :: "'h \<Rightarrow> lvm_state" and vg :: "'q VolumeGroup"
  assume c: "lvm_contract E (lvg_Name l) view" and n: "getNameOnNode vg = lvg_Name l"
  show "refines view (\<lambda>r s s'. policy_only s s' \<and>
      (between vg l s \<longrightarrow> between vg l s' \<and> (r = None \<longrightarrow> policy_done vg s'))) (syncAllocationPolicy E vg (Some l))"
  proof (cases "spec_AllocationPolicy (vg_Spec vg)")
    case None
    then show ?thesis
      by (auto simp: syncAllocationPolicy_def policy_only_def policy_done_def intro!: refines_return)
  next
    case (Some p)
    show ?thesis
    proof (cases "lvg_AllocationPolicy l = ToSnakeCase p")
      case True
      with Some show ?thesis
        by (auto simp: syncAllocationPolicy_def policy_only_def policy_done_def deref_def between_def
            intro!: refines_return)
    next
      case False
      have "refines view (\<lambda>r s s'. policy_only s s' \<and>
          (between vg l s \<longrightarrow> between vg l s' \<and> (r = None \<longrightarrow> policy_done vg s')))
        (exec_lvm E (VGChange (lvg_Name l) (ChAllocationPolicy (ToSnakeCase p))))"
        by (rule refines_mono [OF exec_change_refines [OF c]])
          (auto simp: Some policy_only_def policy_done_def between_def auto_done_def split: if_splits)
      with Some False show ?thesis by (simp add: syncAllocationPolicy_def deref_def)
    qed
  qed
qed

interpretation auto_goal: achiever E "syncAutoActivation E" auto_only auto_done for E :: "('q, 'h) env"
proof unfold_locales
  fix l :: LvmVolumeGroup and view :: "'h \<Rightarrow> lvm_state" and vg :: "'q VolumeGroup"
  assume c: "lvm_contract E (lvg_Name l) view" and n: "getNameOnNode vg = lvg_Name l"
  let ?want = "convertToAutoActivation (spec_AutoActivation (vg_Spec vg))"
  have change: "refines view (\<lambda>r s s'. auto_only s s' \<and>
      (between vg l s \<longrightarrow> between vg l s' \<and> (r = None \<longrightarrow> auto_done vg s')))
    (exec_lvm E (VGChange (lvg_Name l) (ChAutoActivation ?want)))"
    if "spec_AutoActivation (vg_Spec vg) \<noteq> None"
    by (rule refines_mono [OF exec_change_refines [OF c]])
      (use that in \<open>auto simp: auto_only_def auto_done_def between_def split: if_splits\<close>)
  have idle: "refines view (\<lambda>r s s'. auto_only s s' \<and>
      (between vg l s \<longrightarrow> between vg l s' \<and> (r = None \<longrightarrow> auto_done vg s'))) (return None)"
    if "spec_AutoActivation (vg_Spec vg) = None \<or> lvg_AutoActivation l = (?want = SetAutoActivate)"
    by (rule refines_return) (use that in \<open>auto simp: auto_only_def auto_done_def between_def\<close>)
  have set: "?want = SetNoAutoActivate \<longleftrightarrow> ?want \<noteq> SetAutoActivate" by (cases ?want) simp_all
  show "refines view (\<lambda>r s s'. auto_only s s' \<and>
      (between vg l s \<longrightarrow> between vg l s' \<and> (r = None \<longrightarrow> auto_done vg s'))) (syncAutoActivation E vg (Some l))"
    unfolding syncAutoActivation_def Let_def deref_def option.case andThen_return
    using change idle by (auto simp: set)
qed

interpretation name_goal: achiever E "syncName E" "(=)" "\<lambda>vg s. True" for E :: "('q, 'h) env"
proof unfold_locales
  fix l :: LvmVolumeGroup and view :: "'h \<Rightarrow> lvm_state" and vg :: "'q VolumeGroup"
  assume "getNameOnNode vg = lvg_Name l"
  then show "refines view (\<lambda>r s s'. s = s' \<and> (between vg l s \<longrightarrow> between vg l s' \<and> (r = None \<longrightarrow> True)))
      (syncName E vg (Some l))"
    by (auto simp: syncName_def deref_def intro!: refines_return)
qed

lemma movePVs_refines:
  assumes "lvm_contract E n view"
  shows "refines view (\<lambda>_ s s'. s' = s) (movePVs E names desired)"
proof (induction names)
  case Nil
  then show ?case by (simp add: refines_return)
next
  case (Cons pv names)
  have "refines view (\<lambda>_ s s'. s' = s) (exec_lvm E (PVMove pv desired))"
    by (rule refines_mono [OF exec_lvm_refines [OF assms]]) (auto split: if_splits)
  then show ?case
    unfolding movePVs.simps by (rule refines_same) (auto intro: refines_return Cons split: option.split)
qed

lemma removePVs_refines:
  assumes "lvm_contract E n view"
  shows "refines view (\<lambda>r s s'. s' = (if r = None then s\<lparr>ls_pvs := ls_pvs s - set names\<rparr> else s))
    (removePVs E policy n desired names)"
proof -
  have reduce: "refines view (\<lambda>r s s'. s' = (if r = None then s\<lparr>ls_pvs := ls_pvs s - set names\<rparr> else s))
      (exec_lvm E (VGReduce ([RedName n, RedPVs names] @ extra)))" if "extra \<in> {[], [RedForce True]}" for extra
    by (rule refines_mono [OF exec_lvm_refines [OF assms]]) (use that in \<open>auto split: if_splits\<close>)
  have "refines view (\<lambda>b s1 s2. \<forall>s. s1 = s \<longrightarrow> s2 = (if b = None then s\<lparr>ls_pvs := ls_pvs s - set names\<rparr> else s))
      (case err of None \<Rightarrow> exec_lvm E (VGReduce [RedName n, RedPVs names]) | Some e \<Rightarrow> return (Some e))" for err
    using reduce [of "[]"] by (cases err) (auto intro: refines_return refines_mono)
  then show ?thesis
    unfolding removePVs_def Let_def
    using reduce [of "[]"] reduce [of "[RedForce True]"]
    by (auto intro: refines_andThen [OF movePVs_refines [OF assms]])
qed

lemma syncPVs_refines:
  assumes "lvm_contract E n view" "getNameOnNode vg = n" "lvg_Name l = n"
    and "syncPVs E vg (Some l) w = (Ret r, w')"
  shows "pvs_only (view (host w)) (view (host w'))"
    and "r = None \<Longrightarrow> \<exists>desired w1. getPhysicalVolumeNames E vg w = (Ret (Inr desired), w1) \<and>
      ls_pvs (view (host w')) = set desired"
proof -
  obtain d w1 where names: "getPhysicalVolumeNames E vg w = (Ret d, w1)"
    using assms(4) by (auto simp: syncPVs_def Let_def andThen_eq_Ret)
  have v1: "view (host w1) = view (host w)" using refinesD [OF selector_refines [OF assms(1)] names] by simp
  have "pvs_only (view (host w)) (view (host w')) \<and>
      (r = None \<longrightarrow> (\<exists>desired. d = Inr desired \<and> ls_pvs (view (host w')) = set desired))"
  proof (cases d)
    case (Inl e)
    with assms(4) names v1 show ?thesis
      by (auto simp: syncPVs_def Let_def andThen_eq_Ret return_run pvs_only_def)
  next
    case (Inr desired)
    obtain q w2 where query: "query_PVs E n w1 = (Ret q, w2)"
      using assms(3,4) names Inr by (auto simp: syncPVs_def Let_def andThen_eq_Ret deref_def return_run)
    note v2 = refinesD [OF query_PVs_refines [OF assms(1)] query]
    show ?thesis
    proof (cases q)
      case Inl
      with assms(3,4) names v1 v2 query \<open>d = Inr desired\<close> show ?thesis
        by (auto simp: syncPVs_def Let_def andThen_eq_Ret return_run deref_def pvs_only_def)
    next
      case (Inr pvs)
      let ?A = "InLeftButNotInRight desired (map lpv_Name pvs)"
      let ?R = "InLeftButNotInRight (map lpv_Name pvs) desired"
      have "refines view (\<lambda>r s s'. s' = (if r = None then s\<lparr>ls_pvs := ls_pvs s \<union> set xs\<rparr> else s))
          (exec_lvm E (VGExtend n xs))" for xs
        by (rule refines_mono [OF exec_lvm_refines [OF assms(1)]]) (auto split: if_splits)
      then have "refines view (\<lambda>r s s'. let a = s\<lparr>ls_pvs := ls_pvs s \<union> set ?A\<rparr>
            in if r = None then s' = a\<lparr>ls_pvs := ls_pvs a - set ?R\<rparr> else s' \<in> {s, a})
          (SequentialTwoWaySync desired (map lpv_Name pvs) (\<lambda>xs. exec_lvm E (VGExtend n xs))
            (\<lambda>xs. removePVs E (spec_DeviceRemovalVolumePolicy (vg_Spec vg)) n desired xs))"
        by (intro two_way_refines removePVs_refines [OF assms(1)]) auto
      moreover have run: "SequentialTwoWaySync desired (map lpv_Name pvs) (\<lambda>xs. exec_lvm E (VGExtend n xs))
            (\<lambda>xs. removePVs E (spec_DeviceRemovalVolumePolicy (vg_Spec vg)) n desired xs) w2 = (Ret r, w')"
        using assms(2-4) names query Inr \<open>d = Inr desired\<close>
        by (simp add: syncPVs_def Let_def andThen_run return_run deref_def)
      ultimately have *: "let a = (view (host w2))\<lparr>ls_pvs := ls_pvs (view (host w2)) \<union> set ?A\<rparr>
          in if r = None then view (host w') = a\<lparr>ls_pvs := ls_pvs a - set ?R\<rparr> else view (host w') \<in> {view (host w2), a}"
        by (rule refinesD)
      have current: "set (map lpv_Name pvs) = ls_pvs (view (host w))" and same: "view (host w2) = view (host w)"
        using v1 v2 Inr by auto
      show ?thesis
      proof (cases r)
        case None
        with * have "view (host w') = (view (host w))\<lparr>ls_pvs := ls_pvs (view (host w)) \<union> set ?A - set ?R\<rparr>"
          by (simp add: Let_def same)
        moreover have "ls_pvs (view (host w)) \<union> set ?A - set ?R = set desired"
          unfolding current [symmetric] by (rule sd.apply_both)
        ultimately show ?thesis by (simp add: pvs_only_def \<open>d = Inr desired\<close>)
      next
        case (Some e)
        with * same show ?thesis by (auto simp: pvs_only_def Let_def)
      qed
    qed
  qed
  with names show "pvs_only (view (host w)) (view (host w'))"
    "r = None \<Longrightarrow> \<exists>desired w1. getPhysicalVolumeNames E vg w = (Ret (Inr desired), w1) \<and>
      ls_pvs (view (host w')) = set desired"
    by auto
qed

lemma pvs_only_between: "pvs_only s s' \<Longrightarrow> between vg l s' = between vg l s"
  unfolding pvs_only_def by (metis between_pvs)

interpretation pvs_goal: achiever E "syncPVs E" pvs_only "\<lambda>vg s. True" for E :: "('q, 'h) env"
proof unfold_locales
  fix l :: LvmVolumeGroup and view :: "'h \<Rightarrow> lvm_state" and vg :: "'q VolumeGroup"
  assume "lvm_contract E (lvg_Name l) view" "getNameOnNode vg = lvg_Name l"
  then have "refines view (\<lambda>r s s'. pvs_only s s') (syncPVs E vg (Some l))"
    using syncPVs_refines(1) by (fastforce simp: refines_def)
  then show "refines view (\<lambda>r s s'. pvs_only s s' \<and>
      (between vg l s \<longrightarrow> between vg l s' \<and> (r = None \<longrightarrow> True))) (syncPVs E vg (Some l))"
    by (rule refines_mono) (auto dest: pvs_only_between)
qed

section \<open>A round, and sync\<close>

text \<open>The goals of the other syncers survive a syncer that does not own them.\<close>

lemma owns_keeps:
  "pvs_only s s' \<Longrightarrow> tags_done vg s' = tags_done vg s"
  "limits_only s s' \<Longrightarrow> tags_done vg s' = tags_done vg s"
  "limits_only s s' \<Longrightarrow> ls_pvs s' = ls_pvs s"
  "policy_only s s' \<Longrightarrow> tags_done vg s' = tags_done vg s"
  "policy_only s s' \<Longrightarrow> ls_pvs s' = ls_pvs s"
  "policy_only s s' \<Longrightarrow> limits_done vg s' = limits_done vg s"
  "auto_only s s' \<Longrightarrow> tags_done vg s' = tags_done vg s"
  "auto_only s s' \<Longrightarrow> ls_pvs s' = ls_pvs s"
  "auto_only s s' \<Longrightarrow> limits_done vg s' = limits_done vg s"
  "auto_only s s' \<Longrightarrow> policy_done vg s' = policy_done vg s"
  by (cases s; cases s'; simp add: owns_defs limits_done_def policy_done_def)+

lemma emits_prefix:
  "emits P m \<Longrightarrow> m w = (r, w') \<Longrightarrow> prefix (trace w) (trace w')"
  by (metis emits_run prefixI)

lemma syncer_prefix:
  assumes "s \<in> set (syncers E)" "s vg (Some l) w = (r, w')"
  shows "prefix (trace w) (trace w')"
  by (rule emits_prefix [OF emits_syncers [OF assms(1)] assms(2)])

lemma run_syncers_steps:
  assumes "run_syncers (syncers E) vg (Some l) [] w = (Ret errs, w6)"
  obtains r1 r2 r3 r4 r5 r6 w1 w2 w3 w4 w5 where
    "syncTags E vg (Some l) w = (Ret r1, w1)" "syncPVs E vg (Some l) w1 = (Ret r2, w2)"
    "syncMaximumVolumes E vg (Some l) w2 = (Ret r3, w3)"
    "syncAllocationPolicy E vg (Some l) w3 = (Ret r4, w4)"
    "syncAutoActivation E vg (Some l) w4 = (Ret r5, w5)" "syncName E vg (Some l) w5 = (Ret r6, w6)"
    "errs = [r1, r2, r3, r4, r5, r6]"
  using assms by (auto simp: syncers_def andThen_eq_Ret return_run)

definition selection_during ::
  "('q, 'h) env \<Rightarrow> 'q VolumeGroup \<Rightarrow> ('q, 'h) world \<Rightarrow> ('q, 'h) world \<Rightarrow> string list \<Rightarrow> bool" where
  "selection_during E vg w w' desired \<longleftrightarrow>
     (\<exists>wa wb. prefix (trace w) (trace wa) \<and> prefix (trace wa) (trace w') \<and>
        getPhysicalVolumeNames E vg wa = (Ret (Inr desired), wb))"

lemma run_syncers_converge:
  assumes c: "lvm_contract E (lvg_Name l) view" and n: "getNameOnNode vg = lvg_Name l"
    and run: "run_syncers (syncers E) vg (Some l) [] w = (Ret errs, w')"
    and b0: "between vg l (view (host w))"
  shows "between vg l (view (host w'))"
    and "errors_Join errs = None \<Longrightarrow>
      \<exists>desired. selection_during E vg w w' desired \<and> converged vg desired (view (host w'))"
proof -
  obtain r1 r2 r3 r4 r5 r6 w1 w2 w3 w4 w5 where
      1: "syncTags E vg (Some l) w = (Ret r1, w1)" and 2: "syncPVs E vg (Some l) w1 = (Ret r2, w2)"
    and 3: "syncMaximumVolumes E vg (Some l) w2 = (Ret r3, w3)"
    and 4: "syncAllocationPolicy E vg (Some l) w3 = (Ret r4, w4)"
    and 5: "syncAutoActivation E vg (Some l) w4 = (Ret r5, w5)"
    and 6: "syncName E vg (Some l) w5 = (Ret r6, w')" and errs: "errs = [r1, r2, r3, r4, r5, r6]"
    using run by (rule run_syncers_steps)
  have b1: "between vg l (view (host w1))" by (rule tags_goal.run_between [OF c n 1 b0])
  have b2: "between vg l (view (host w2))" by (rule pvs_goal.run_between [OF c n 2 b1])
  have b3: "between vg l (view (host w3))" by (rule limits_goal.run_between [OF c n 3 b2])
  have b4: "between vg l (view (host w4))" by (rule policy_goal.run_between [OF c n 4 b3])
  have b5: "between vg l (view (host w5))" by (rule auto_goal.run_between [OF c n 5 b4])
  have same: "view (host w') = view (host w5)" using name_goal.run_owns [OF c n 6] by simp
  with b5 show "between vg l (view (host w'))" by simp
  note o2 = pvs_goal.run_owns [OF c n 2] and o3 = limits_goal.run_owns [OF c n 3]
    and o4 = policy_goal.run_owns [OF c n 4] and o5 = auto_goal.run_owns [OF c n 5]
  have in_list: "syncTags E \<in> set (syncers E)" "syncPVs E \<in> set (syncers E)"
    "syncMaximumVolumes E \<in> set (syncers E)" "syncAllocationPolicy E \<in> set (syncers E)"
    "syncAutoActivation E \<in> set (syncers E)" "syncName E \<in> set (syncers E)"
    by (simp_all add: syncers_def)
  have pre: "prefix (trace w) (trace w1)" "prefix (trace w1) (trace w')"
    using syncer_prefix [OF in_list(1) 1] syncer_prefix [OF in_list(2) 2] syncer_prefix [OF in_list(3) 3]
      syncer_prefix [OF in_list(4) 4] syncer_prefix [OF in_list(5) 5] syncer_prefix [OF in_list(6) 6]
    by (blast intro: prefix_order.trans)+
  assume "errors_Join errs = None"
  then have none: "r1 = None" "r2 = None" "r3 = None" "r4 = None" "r5 = None"
    by (auto simp: errs errors_Join_None)
  obtain desired wb where d: "getPhysicalVolumeNames E vg w1 = (Ret (Inr desired), wb)"
      "ls_pvs (view (host w2)) = set desired"
    using syncPVs_refines(2) [OF c n refl 2 none(2)] by blast
  have "converged vg desired (view (host w'))"
    using tags_goal.run_goal [OF c n 1 [unfolded none] b0] limits_goal.run_goal [OF c n 3 [unfolded none] b2]
      policy_goal.run_goal [OF c n 4 [unfolded none] b3] auto_goal.run_goal [OF c n 5 [unfolded none] b4]
      d(2) o2 o3 o4 o5
    by (simp add: converged_def same owns_keeps)
  with pre d(1) show "\<exists>desired. selection_during E vg w w' desired \<and> converged vg desired (view (host w'))"
    unfolding selection_during_def by blast
qed

lemma converged_set_Conditions [simp]:
  "converged (set_Conditions cs vg) desired s = converged vg desired s"
  "between (set_Conditions cs vg) l s = between vg l s"
  by (simp_all add: converged_def between_def limits_done_def policy_done_def auto_done_def)

lemma selection_set_Conditions [simp]:
  "selection_during E (set_Conditions cs vg) w w' desired = selection_during E vg w w' desired"
  unfolding selection_during_def getPhysicalVolumeNames_cong [of "set_Conditions cs vg" vg, simplified] ..

lemma selection_during_prefix:
  "prefix (trace w) (trace v) \<Longrightarrow> selection_during E vg v w' desired \<Longrightarrow> selection_during E vg w w' desired"
  unfolding selection_during_def by (blast intro: prefix_order.trans)

lemma sync_converged:
  assumes c: "lvm_contract E (lvg_Name l) view" and n: "getNameOnNode vg = lvg_Name l"
    and "sync E vg (Some l) w = Some (r, w')" "between vg l (view (host w))" "r = Ret (vg', None)"
  shows "\<exists>desired. selection_during E vg w w' desired \<and> converged vg desired (view (host w'))"
  using assms(3,2,4,5)
proof (induction rule: sync_induct)
  case (panic vg w p w')
  then show ?case by simp
next
  case (finished vg w vg1 err w')
  from finished.hyps show ?case
  proof (cases rule: sync_round_cases)
    case (ok h errs w1)
    have "\<exists>desired. selection_during E (pending_vg E (host w) vg) w w1 desired \<and>
        converged (pending_vg E (host w) vg) desired (view (host w1))"
      by (rule run_syncers_converge(2) [OF c _ ok(1) _ ok(2)])
        (use finished.prems in \<open>simp_all add: pending_vg_def\<close>)
    then show ?thesis by (simp add: pending_vg_def ok)
  qed (use finished.prems in simp_all)
next
  case (again vg w vg1 w1 r w')
  have pre: "prefix (trace w) (trace w1)" by (rule emits_prefix [OF emits_sync_round again.hyps(1)])
  obtain cs where cs: "vg1 = set_Conditions cs vg" using again.hyps(1) sync_round_Again by blast
  from again.hyps(1) have "between vg l (view (host w1))"
  proof (cases rule: sync_round_cases)
    case (reduced errs w2 l')
    have "between (pending_vg E (host w) vg) l (view (host w2))"
      by (rule run_syncers_converge(1) [OF c _ reduced(1)])
        (use again.prems in \<open>simp_all add: pending_vg_def\<close>)
    moreover have "pvs_only (view (host w2)) (view (host w1))"
      using refinesD [OF exec_lvm_refines [OF c] reduced(5)] reduced(3)
      by (auto simp: reduce_options_def pvs_only_def)
    ultimately show ?thesis by (simp add: pvs_only_between pending_vg_def)
  qed simp_all
  with again.IH again.prems pre show ?case by (auto simp: cs intro: selection_during_prefix)
qed

end
