(* ===== verification/Reconcile.thy ===== *)
theory Reconcile
  imports Sync SyncStatus
begin

text \<open>
  \<open>internal/controller/volumegroup_controller.go\<close>: one call of \<open>Reconcile\<close>, cut into the
  phases of the code: fetch and node check, removal of a deleted group, discovery or creation on
  the host, finalizer, synchronisation and status. Logging and the ten-second timeout of the
  context are not modelled; a call that the timeout cuts off is an error of that call.
\<close>

section \<open>State\<close>

definition VolumeGroupFinalizer :: string where
  "VolumeGroupFinalizer = ''topolvm.io/volumegroup-removal-on-node''"

text \<open>The fields of \<open>VolumeGroupReconciler\<close> that are data; its clients are in \<open>env\<close>.\<close>

record VolumeGroupReconciler =
  rec_NodeName :: string
  rec_SyncInterval :: int64

text \<open>\<open>ctrl.Result\<close>.\<close>

record Result =
  res_Requeue :: bool
  res_RequeueAfter :: int64

definition empty_result :: Result where
  "empty_result = \<lparr>res_Requeue = False, res_RequeueAfter = 0\<rparr>"

definition requeue :: Result where
  "requeue = empty_result\<lparr>res_Requeue := True\<rparr>"

type_synonym reply = "Result \<times> goerror option"

section \<open>Deletion (lines 81-102)\<close>

definition is_deleted :: "'q VolumeGroup \<Rightarrow> bool" where
  "is_deleted vg =
     (case meta_DeletionTimestamp (vg_meta vg) of None \<Rightarrow> False | Some t \<Rightarrow> t \<noteq> zero_time)"

text \<open>
  \<open>time.Duration(secs) * time.Second\<close> is a 64-bit product of nanoseconds; adding it to a time
  is exact. The clock is read after the grace period is.
\<close>

definition grace_duration :: "int64 \<Rightarrow> int64" where
  "grace_duration secs = secs * 1000000000"

definition force_at :: "int \<Rightarrow> int64 \<Rightarrow> int" where
  "force_at deletionTimestamp secs = deletionTimestamp + sint (grace_duration secs)"

definition reconcile_deletion ::
  "('q, 'h) env \<Rightarrow> 'q VolumeGroup \<Rightarrow> (('q, 'h) world, reply) prog" where
  "reconcile_deletion E vg =
     andThen (deref (meta_DeletionTimestamp (vg_meta vg))) (\<lambda>ts.
     andThen (deref (meta_DeletionGracePeriodSeconds (vg_meta vg))) (\<lambda>secs.
     andThen (time_now E) (\<lambda>now.
       let force = (now > force_at ts secs)
       in andThen (exec_lvm E (VGRemove (getNameOnNode vg) force)) (\<lambda>err.
          if (case err of None \<Rightarrow> False | Some e \<Rightarrow> \<not> IsLVMErrNotFound E e)
          then return (empty_result, wrap ''failed to remove volume group'' err)
          else (case RemoveFinalizer E (GetFinalizers vg) VolumeGroupFinalizer of (fs, updated) \<Rightarrow>
            if updated
            then andThen (api_update E (set_Finalizers fs vg)) (\<lambda>uerr. return (empty_result, uerr))
            else return (requeue, None))))))"

section \<open>Creation (lines 142-159)\<close>

definition initializeVG ::
  "('q, 'h) env \<Rightarrow> 'q VolumeGroup \<Rightarrow> (('q, 'h) world, 'q VolumeGroup \<times> goerror option) prog" where
  "initializeVG E vg =
     andThen (convertToVGCreateOptions E vg) (\<lambda>r.
       case r of
         Inl e \<Rightarrow> return (vg, Some (Wrapf ''failed to convert VolumeGroup to VGCreateOptions'' e))
       | Inr opts \<Rightarrow>
           andThen (exec_lvm E (VGCreate opts)) (\<lambda>err.
             case err of
               None \<Rightarrow> return (vg, None)
             | Some e \<Rightarrow>
                 andThen read_host (\<lambda>h.
                   return (set_Conditions (SetSyncedOnHostCreationFailed E h
                     (st_Conditions (vg_Status vg)) (GetGeneration vg) e) vg, Some e))))"

text \<open>Lines 104-115: look the group up and create it when lvm2go says that it is not there.\<close>

definition discover ::
  "('q, 'h) env \<Rightarrow> 'q VolumeGroup \<Rightarrow>
   (('q, 'h) world, 'q VolumeGroup \<times> LvmVolumeGroup option \<times> goerror option) prog" where
  "discover E vg =
     andThen (query_VG E (getNameOnNode vg)) (\<lambda>(lvm, err).
       if errors_Is err (ErrVolumeGroupNotFound E)
       then andThen (initializeVG E vg) (\<lambda>(vg', err'). return (vg', lvm, err'))
       else return (vg, lvm, err))"

section \<open>Synchronisation (lines 125-139)\<close>

definition sync_and_report ::
  "('q, 'h) env \<Rightarrow> VolumeGroupReconciler \<Rightarrow> 'q VolumeGroup \<Rightarrow> LvmVolumeGroup option \<Rightarrow>
   (('q, 'h) world, reply) mayloop" where
  "sync_and_report E r vg lvm =
     andThenL (sync E vg lvm) (\<lambda>(vg1, serr).
       let err = wrap ''failed to sync volume group with lvm2'' serr
       in returning (andThen (syncStatus E vg1 lvm) (\<lambda>(vg2, statusErr).
          let err' = (if statusErr \<noteq> None
                      then errors_Join [err, wrap ''failed to sync status from lvm2 into volume group'' statusErr]
                      else err)
          in andThen (api_status_update E vg2) (\<lambda>uerr.
             case errors_Join [err', uerr] of
               Some e \<Rightarrow> return (empty_result, Some e)
             | None \<Rightarrow> return (empty_result\<lparr>res_RequeueAfter := rec_SyncInterval r\<rparr>, None)))))"

section \<open>Reconcile\<close>

text \<open>Lines 104-139.\<close>

definition reconcile_host ::
  "('q, 'h) env \<Rightarrow> VolumeGroupReconciler \<Rightarrow> 'q VolumeGroup \<Rightarrow> (('q, 'h) world, reply) mayloop" where
  "reconcile_host E r vg =
     andThenL (returning (discover E vg)) (\<lambda>(vg', lvm, err).
       if err \<noteq> None
       then returning (andThen (api_status_update E vg') (\<lambda>uerr.
              return (empty_result, errors_Join [err, uerr])))
       else (case AddFinalizer E (GetFinalizers vg') VolumeGroupFinalizer of (fs, updated) \<Rightarrow>
              if updated
              then returning (andThen (api_update E (set_Finalizers fs vg')) (\<lambda>uerr. return (requeue, uerr)))
              else sync_and_report E r vg' lvm))"

definition reconcile_fetched ::
  "('q, 'h) env \<Rightarrow> VolumeGroupReconciler \<Rightarrow> 'q VolumeGroup \<Rightarrow> (('q, 'h) world, reply) mayloop" where
  "reconcile_fetched E r vg =
     (if rec_NodeName r \<noteq> spec_NodeName (vg_Spec vg) then returning (return (empty_result, None))
      else if is_deleted vg then returning (reconcile_deletion E vg)
      else reconcile_host E r vg)"

definition Reconcile ::
  "('q, 'h) env \<Rightarrow> VolumeGroupReconciler \<Rightarrow> string \<Rightarrow> (('q, 'h) world, reply) mayloop" where
  "Reconcile E r key =
     andThenL (returning (api_get E key)) (\<lambda>g.
       case g of
         Inl err \<Rightarrow> returning (return (empty_result, IgnoreNotFound E err))
       | Inr vg \<Rightarrow> reconcile_fetched E r vg)"

end
