(* ===== verification/ReconcileRuns.thy ===== *)
theory ReconcileRuns
  imports Reconcile SyncLoop
begin

text \<open>
  The runs of \<open>Reconcile\<close>: effect contracts of programs that may not return, and the paths a
  call takes, one lemma each, over which its properties are proved.
\<close>

section \<open>Effect contracts\<close>

definition emitsL :: "('q event \<Rightarrow> bool) \<Rightarrow> (('q, 'h) world, 'a) mayloop \<Rightarrow> bool" where
  "emitsL P m \<longleftrightarrow>
     (\<forall>w r w'. m w = Some (r, w') \<longrightarrow> (\<exists>es. trace w' = trace w @ es \<and> (\<forall>e \<in> set es. P e)))"

lemma emitsL_run:
  assumes "emitsL P m" "m w = Some (r, w')"
  obtains es where "trace w' = trace w @ es" "\<forall>e \<in> set es. P e"
  using assms unfolding emitsL_def by blast

lemma emitsL_returning: "emits P m \<Longrightarrow> emitsL P (returning m)"
  by (auto simp: emitsL_def returning_run elim: emits_run)

lemma emitsL_andThenL:
  assumes "emitsL P m" and "\<And>a w w'. m w = Some (Ret a, w') \<Longrightarrow> emitsL P (k a)"
  shows "emitsL P (andThenL m k)"
  unfolding emitsL_def
proof (intro allI impI)
  fix w r w'
  assume run: "andThenL m k w = Some (r, w')"
  then obtain q w1 where m: "m w = Some (q, w1)" by (auto simp: andThenL_run split: option.splits)
  obtain es where es: "trace w1 = trace w @ es" "\<forall>e \<in> set es. P e" using emitsL_run [OF assms(1) m] .
  show "\<exists>es. trace w' = trace w @ es \<and> (\<forall>e \<in> set es. P e)"
  proof (cases q)
    case (Ret a)
    with run m have "k a w1 = Some (r, w')" by (simp add: andThenL_run)
    then obtain fs where "trace w' = trace w1 @ fs" "\<forall>e \<in> set fs. P e"
      using emitsL_run assms(2) m Ret by metis
    with es show ?thesis by (intro exI [of _ "es @ fs"]) auto
  next
    case (Panic p)
    with run m es show ?thesis by (auto simp: andThenL_run)
  qed
qed

lemma emits_andThen_run:
  assumes "emits P m" and "\<And>a w w'. m w = (Ret a, w') \<Longrightarrow> emits P (k a)"
  shows "emits P (andThen m k)"
proof -
  have "emitsL P (andThenL (returning m) (\<lambda>a. returning (k a)))"
    using assms by (intro emitsL_andThenL emitsL_returning) (auto simp: returning_run)
  moreover have "andThenL (returning m) (\<lambda>a. returning (k a)) = returning (andThen m k)"
    by (rule ext) (auto simp: andThenL_run returning_run andThen_run split: prod.split outcome.split)
  ultimately show ?thesis
    unfolding emitsL_def emits_def returning_run by (metis prod.collapse)
qed

section \<open>A call keeps to its own volume group\<close>

fun names_group :: "string \<Rightarrow> lvm_cmd \<Rightarrow> bool" where
  "names_group n (VGCreate opts) \<longleftrightarrow> vco_VolumeGroupName opts = n"
| "names_group n (VGChange m opt) \<longleftrightarrow> m = n"
| "names_group n (VGExtend m pvs) \<longleftrightarrow> m = n"
| "names_group n (VGReduce opts) \<longleftrightarrow> {m. RedName m \<in> set opts} = {n}"
| "names_group n (PVMove pv pvs) \<longleftrightarrow> True"
| "names_group n (VGRename a b) \<longleftrightarrow> False"
| "names_group n (VGRemove m force) \<longleftrightarrow> m = n"

fun own_event :: "string \<Rightarrow> 'q event \<Rightarrow> bool" where
  "own_event n (EvLvm c x) \<longleftrightarrow> names_group n c"
| "own_event n (EvVG m x) \<longleftrightarrow> m = n"
| "own_event n (EvPVs m) \<longleftrightarrow> m = n"
| "own_event n _ \<longleftrightarrow> True"

lemma sync_command_own:
  assumes "lvg_Name l = getNameOnNode vg" "sync_command vg l c"
  shows "names_group (getNameOnNode vg) c"
  using assms
proof (cases c)
  case (VGChange n opt)
  with assms show ?thesis by (cases opt) (auto simp: sync_command_def loss_command_def)
qed (auto simp: sync_command_def loss_command_def removal_options_def reduce_options_def split: if_splits)

lemma sync_own:
  assumes "\<And>l. lvm = Some l \<Longrightarrow> lvg_Name l = getNameOnNode vg"
  shows "emitsL (own_event (getNameOnNode vg)) (sync E vg lvm)"
  unfolding emitsL_def
proof (intro allI impI)
  fix w r w'
  assume run: "sync E vg lvm w = Some (r, w')"
  show "\<exists>es. trace w' = trace w @ es \<and> (\<forall>e \<in> set es. own_event (getNameOnNode vg) e)"
  proof (cases lvm)
    case None
    with run show ?thesis by (simp add: sync_nil)
  next
    case (Some l)
    note name = assms [OF Some]
    have own: "sync_event (sync_command vg l) (lvg_Name l) e \<Longrightarrow> own_event (getNameOnNode vg) e" for e :: "'a event"
      using name sync_command_own [OF name] by (cases e) auto
    with Some run sync_trace show ?thesis by meson
  qed
qed

lemma convertToVGCreateOptions_name:
  "convertToVGCreateOptions E vg w = (Ret (Inr opts), w') \<Longrightarrow> vco_VolumeGroupName opts = getNameOnNode vg"
  by (erule convertToVGCreateOptions_ok) (simp add: device_options_def plain_options_def initial_options_def)

lemma initializeVG_own: "emits (own_event (getNameOnNode vg)) (initializeVG E vg)"
  unfolding initializeVG_def
proof (rule emits_andThen_run)
  show "emits (own_event (getNameOnNode vg)) (convertToVGCreateOptions E vg)" by (intro emits_intros) simp
qed (auto intro!: emits_intros simp: convertToVGCreateOptions_name split: sum.split)

text \<open>How a creation ends: no options, no group, or a new group.\<close>

lemma initializeVG_cases:
  assumes "initializeVG E vg w = (Ret (vg', err), w')"
  obtains (unconverted) e where "convertToVGCreateOptions E vg w = (Ret (Inl e), w')" "vg' = vg"
      "err = Some (Wrapf ''failed to convert VolumeGroup to VGCreateOptions'' e)"
  | (failed) opts w1 e h where "convertToVGCreateOptions E vg w = (Ret (Inr opts), w1)"
      "exec_lvm E (VGCreate opts) w1 = (Ret (Some e), w')" "err = Some e"
      "vg' = set_Conditions (SetSyncedOnHostCreationFailed E h (st_Conditions (vg_Status vg)) (GetGeneration vg) e) vg"
  | (created) opts w1 where "convertToVGCreateOptions E vg w = (Ret (Inr opts), w1)"
      "exec_lvm E (VGCreate opts) w1 = (Ret None, w')" "err = None" "vg' = vg"
proof -
  obtain r w1 where r: "convertToVGCreateOptions E vg w = (Ret r, w1)"
    using assms by (auto simp: initializeVG_def andThen_eq_Ret)
  show thesis
  proof (cases r)
    case (Inl e)
    with assms r have "vg' = vg" "err = Some (Wrapf ''failed to convert VolumeGroup to VGCreateOptions'' e)" "w1 = w'"
      by (simp_all add: initializeVG_def andThen_run return_run)
    with r Inl show thesis by (intro unconverted) simp_all
  next
    case (Inr opts)
    obtain x w2 where x: "exec_lvm E (VGCreate opts) w1 = (Ret x, w2)" by (simp add: exec_lvm_run)
    show thesis
    proof (cases x)
      case None
      with assms r Inr x have "vg' = vg" "err = None" "w2 = w'"
        by (simp_all add: initializeVG_def andThen_run return_run)
      with r Inr x None show thesis by (intro created) simp_all
    next
      case (Some e)
      with assms r Inr x have "vg' = set_Conditions (SetSyncedOnHostCreationFailed E (host w2)
          (st_Conditions (vg_Status vg)) (GetGeneration vg) e) vg" "err = Some e" "w2 = w'"
        by (auto simp: initializeVG_def andThen_run return_run read_host_def)
      with r Inr x Some show thesis by (intro failed) simp_all
    qed
  qed
qed

lemma initializeVG_frame:
  assumes "initializeVG E vg w = (Ret (vg', err), w')"
  shows "vg_Spec vg' = vg_Spec vg" "vg_meta vg' = vg_meta vg"
  using assms by (cases rule: initializeVG_cases; simp)+

text \<open>\<open>vgs\<close> of a name reports a group of that name.\<close>

definition finds_by_name :: "('q, 'h) env \<Rightarrow> bool" where
  "finds_by_name E \<longleftrightarrow> (\<forall>n h l e h'. Lvm_VG E n h = ((Some l, e), h') \<longrightarrow> lvg_Name l = n)"

lemma finds_by_nameD:
  "finds_by_name E \<Longrightarrow> query_VG E n w = (Ret (Some l, e), w') \<Longrightarrow> lvg_Name l = n"
  unfolding finds_by_name_def query_VG_def by (cases "Lvm_VG E n (host w)") fastforce

text \<open>How a lookup ends: the outcome of the query, or of the creation after it.\<close>

lemma discover_cases:
  assumes "discover E vg w = (Ret (vg', lvm, err), w')"
  obtains (queried) q where "query_VG E (getNameOnNode vg) w = (Ret (lvm, q), w')" "vg' = vg" "err = q"
      "\<not> errors_Is q (ErrVolumeGroupNotFound E)"
  | (absent) q w1 where "query_VG E (getNameOnNode vg) w = (Ret (lvm, q), w1)"
      "errors_Is q (ErrVolumeGroupNotFound E)" "initializeVG E vg w1 = (Ret (vg', err), w')"
proof -
  obtain l q w1 where q: "query_VG E (getNameOnNode vg) w = (Ret (l, q), w1)"
    using assms by (auto simp: discover_def andThen_eq_Ret)
  show thesis
  proof (cases "errors_Is q (ErrVolumeGroupNotFound E)")
    case True
    with assms q obtain "initializeVG E vg w1 = (Ret (vg', err), w')" "l = lvm"
      by (auto simp: discover_def andThen_run return_run split: prod.splits outcome.splits)
    with q True show thesis by (intro absent) simp_all
  next
    case False
    with assms q have "vg' = vg" "lvm = l" "err = q" "w1 = w'"
      by (simp_all add: discover_def andThen_run return_run)
    with q False show thesis by (intro queried) simp_all
  qed
qed

lemma discover_frame:
  assumes "discover E vg w = (Ret (vg', lvm, err), w')"
  shows "vg_Spec vg' = vg_Spec vg" "vg_meta vg' = vg_meta vg"
  using assms by (cases rule: discover_cases; simp add: initializeVG_frame)+

lemma discover_name:
  assumes "finds_by_name E" "discover E vg w = (Ret (vg', Some l, err), w')"
  shows "lvg_Name l = getNameOnNode vg'"
proof -
  have "getNameOnNode vg' = getNameOnNode vg"
    by (rule getNameOnNode_cong [OF discover_frame [OF assms(2)]])
  moreover have "lvg_Name l = getNameOnNode vg"
    using assms(2)
    by (cases rule: discover_cases) (auto dest: finds_by_nameD [OF assms(1)])
  ultimately show ?thesis by simp
qed

lemma discover_own: "emits (own_event (getNameOnNode vg)) (discover E vg)"
  unfolding discover_def by (intro emits_intros initializeVG_own) simp_all

section \<open>The contract of Reconcile\<close>

lemma reconcile_deletion_own: "emits (own_event (getNameOnNode vg)) (reconcile_deletion E vg)"
  unfolding reconcile_deletion_def Let_def by (intro emits_intros) simp_all

lemma sync_and_report_own:
  assumes "\<And>l. lvm = Some l \<Longrightarrow> lvg_Name l = getNameOnNode vg"
  shows "emitsL (own_event (getNameOnNode vg)) (sync_and_report E r vg lvm)"
proof -
  have status: "emits (own_event (getNameOnNode vg)) (syncStatus E vg1 lvm)" for vg1
    unfolding syncStatus_def deref_def using assms by (cases lvm) (auto intro!: emits_intros)
  show ?thesis
    unfolding sync_and_report_def Let_def
    by (intro emitsL_andThenL sync_own assms)
      (auto intro!: emitsL_returning emits_intros status split: prod.split)
qed

lemma reconcile_host_own:
  assumes "finds_by_name E"
  shows "emitsL (own_event (getNameOnNode vg)) (reconcile_host E r vg)"
  unfolding reconcile_host_def
proof (rule emitsL_andThenL)
  show "emitsL (own_event (getNameOnNode vg)) (returning (discover E vg))"
    by (rule emitsL_returning [OF discover_own])
next
  fix a w w'
  assume "returning (discover E vg) w = Some (Ret a, w')"
  then obtain vg' lvm err where a: "a = (vg', lvm, err)" and d: "discover E vg w = (Ret (vg', lvm, err), w')"
    by (cases a) (simp add: returning_run)
  have name: "getNameOnNode vg' = getNameOnNode vg"
    by (rule getNameOnNode_cong [OF discover_frame [OF d]])
  have "emitsL (own_event (getNameOnNode vg)) (sync_and_report E r vg' lvm)"
    unfolding name [symmetric] by (rule sync_and_report_own) (use discover_name [OF assms] d in blast)
  then show "emitsL (own_event (getNameOnNode vg)) (case a of (vg', lvm, err) \<Rightarrow>
      if err \<noteq> None
      then returning (andThen (api_status_update E vg') (\<lambda>uerr. return (empty_result, errors_Join [err, uerr])))
      else (case AddFinalizer E (GetFinalizers vg') VolumeGroupFinalizer of (fs, updated) \<Rightarrow>
        if updated
        then returning (andThen (api_update E (set_Finalizers fs vg')) (\<lambda>uerr. return (requeue, uerr)))
        else sync_and_report E r vg' lvm))"
    by (auto simp: a intro!: emitsL_returning emits_intros split: prod.split)
qed

lemma reconcile_fetched_own:
  assumes "finds_by_name E"
  shows "emitsL (own_event (getNameOnNode vg)) (reconcile_fetched E r vg)"
  unfolding reconcile_fetched_def
  using reconcile_host_own [OF assms] reconcile_deletion_own
  by (auto intro!: emitsL_returning emits_intros)

lemma Reconcile_fetched:
  "api_get E key w = (Ret (Inr vg), w0) \<Longrightarrow> Reconcile E r key w = reconcile_fetched E r vg w0"
  by (simp add: Reconcile_def andThenL_run returning_run)

lemma api_get_trace: "api_get E key w = (r, w') \<Longrightarrow> trace w' = trace w @ [EvGet key]"
  by (auto simp: call_runs Let_def)

section \<open>The paths of a live resource\<close>

text \<open>The group is found, and the finalizer is there: synchronise and report.\<close>

lemma reconcile_host_found:
  assumes "query_VG E (getNameOnNode vg) w = (Ret (Some l, None), w1)"
    and "AddFinalizer E (GetFinalizers vg) VolumeGroupFinalizer = (fs, False)"
  shows "reconcile_host E r vg w = sync_and_report E r vg (Some l) w1"
  using assms by (simp add: reconcile_host_def discover_def andThenL_run returning_run andThen_run return_run)

text \<open>The group is absent and created now, and the finalizer was there before.\<close>

lemma reconcile_host_recreated:
  assumes "query_VG E (getNameOnNode vg) w = (Ret (lvm, q), w1)" "errors_Is q (ErrVolumeGroupNotFound E)"
    and "initializeVG E vg w1 = (Ret (vg', None), w2)"
    and "AddFinalizer E (GetFinalizers vg) VolumeGroupFinalizer = (fs, False)"
  shows "reconcile_host E r vg w = sync_and_report E r vg' lvm w2"
  using assms initializeVG_frame [OF assms(3)]
  by (simp add: reconcile_host_def discover_def andThenL_run returning_run andThen_run return_run)

lemma sync_and_report_cases:
  assumes "sync_and_report E r vg (Some l) w = Some (Ret (res, err), w')"
  obtains vg1 serr ws vg2 sterr w2 u where "sync E vg (Some l) w = Some (Ret (vg1, serr), ws)"
    "syncStatus E vg1 (Some l) ws = (Ret (vg2, sterr), w2)"
    "api_status_update E vg2 w2 = (Ret u, w')"
    "err = None \<longleftrightarrow> serr = None \<and> sterr = None \<and> u = None"
    "res = (if err = None then empty_result\<lparr>res_RequeueAfter := rec_SyncInterval r\<rparr> else empty_result)"
proof -
  obtain vg1 serr ws where 1: "sync E vg (Some l) w = Some (Ret (vg1, serr), ws)"
    using assms by (auto simp: sync_and_report_def andThenL_eq_Ret)
  obtain vg2 sterr w2 where 2: "syncStatus E vg1 (Some l) ws = (Ret (vg2, sterr), w2)"
    using assms 1 by (auto simp: sync_and_report_def andThenL_run returning_run Let_def andThen_eq_Ret)
  obtain u w3 where 3: "api_status_update E vg2 w2 = (Ret u, w3)" by (simp add: call_runs Let_def)
  let ?err = "if sterr \<noteq> None
    then errors_Join [wrap ''failed to sync volume group with lvm2'' serr,
      wrap ''failed to sync status from lvm2 into volume group'' sterr]
    else wrap ''failed to sync volume group with lvm2'' serr"
  have last: "(case errors_Join [?err, u] of
        Some e \<Rightarrow> return (empty_result, Some e)
      | None \<Rightarrow> return (empty_result\<lparr>res_RequeueAfter := rec_SyncInterval r\<rparr>, None)) w3 = (Ret (res, err), w')"
    using assms 1 2 3 by (simp add: sync_and_report_def andThenL_run returning_run Let_def andThen_run)
  have none: "errors_Join [?err, u] = None \<longleftrightarrow> serr = None \<and> sterr = None \<and> u = None"
    by (auto simp: errors_Join_None wrap_def)
  from last have "w3 = w'" "err = errors_Join [?err, u]"
    "res = (if err = None then empty_result\<lparr>res_RequeueAfter := rec_SyncInterval r\<rparr> else empty_result)"
    by (cases "errors_Join [?err, u]"; simp add: return_run)+
  with 1 2 3 none that show thesis by simp
qed

text \<open>A lookup sends lvm2 nothing that changes it but a creation.\<close>

fun creation_only :: "'q event \<Rightarrow> bool" where
  "creation_only (EvLvm (VGCreate opts) x) = True"
| "creation_only (EvLvm c x) = False"
| "creation_only _ = True"

lemma discover_creation_only: "emits creation_only (discover E vg)"
  unfolding discover_def initializeVG_def by (intro emits_intros) simp_all

lemma reconcile_host_updated:
  assumes "AddFinalizer E (GetFinalizers vg) VolumeGroupFinalizer = (fs, True)"
  shows "emitsL creation_only (reconcile_host E r vg)"
  unfolding reconcile_host_def
proof (rule emitsL_andThenL [OF emitsL_returning [OF discover_creation_only]])
  fix a w w'
  assume "returning (discover E vg) w = Some (Ret a, w')"
  then obtain vg' lvm err where a: "a = (vg', lvm, err)" and d: "discover E vg w = (Ret (vg', lvm, err), w')"
    by (cases a) (simp add: returning_run)
  show "emitsL creation_only (case a of (vg', lvm, err) \<Rightarrow>
      if err \<noteq> None
      then returning (andThen (api_status_update E vg') (\<lambda>uerr. return (empty_result, errors_Join [err, uerr])))
      else (case AddFinalizer E (GetFinalizers vg') VolumeGroupFinalizer of (fs, updated) \<Rightarrow>
        if updated
        then returning (andThen (api_update E (set_Finalizers fs vg')) (\<lambda>uerr. return (requeue, uerr)))
        else sync_and_report E r vg' lvm))"
    using assms discover_frame [OF d] by (auto simp: a intro!: emitsL_returning emits_intros)
qed

end
