(* ===== verification/ControlLoop.thy ===== *)
theory ControlLoop
  imports ReconcileRuns Convergence
begin

text \<open>
  The control loop: one resource and its volume group under a sequence of reconciliations, with
  other actors in between. What the API server and lvm2 document is stated over an abstract view
  of the outside; the steps of the loop are a relation on worlds.
\<close>

section \<open>The outside as one resource and one volume group\<close>

record 'q cluster =
  cl_object :: "'q VolumeGroup option"
  cl_group :: bool

text \<open>
  Documented of the API server: a read returns the stored object; an update replaces the metadata
  and the spec, does not undo a deletion, and removes a deleted object without finalizers; an
  update of the status touches neither metadata nor spec; a failed request changes nothing. A read
  that fails with \<open>not found\<close> found nothing.
\<close>

definition stored_after_update :: "'q VolumeGroup \<Rightarrow> 'q VolumeGroup \<Rightarrow> 'q VolumeGroup option \<Rightarrow> bool" where
  "stored_after_update vg old obj \<longleftrightarrow>
     (if is_deleted old \<and> GetFinalizers vg = [] then obj = None
      else \<exists>new. obj = Some new \<and> GetFinalizers new = GetFinalizers vg \<and> GetUID new = GetUID vg \<and>
        is_deleted new = is_deleted old \<and> vg_Spec new = vg_Spec vg)"

definition api_contract :: "('q, 'h) env \<Rightarrow> string \<Rightarrow> ('h \<Rightarrow> 'q cluster) \<Rightarrow> bool" where
  "api_contract E key view \<longleftrightarrow>
     (\<forall>h r h'. Api_Get E key h = (r, h') \<longrightarrow> view h' = view h \<and>
        (case r of
           Inr vg \<Rightarrow> cl_object (view h) = Some vg
         | Inl e \<Rightarrow> IgnoreNotFound E e = None \<longrightarrow> cl_object (view h) = None)) \<and>
     (\<forall>vg h r h'. Api_Update E vg h = (r, h') \<longrightarrow> cl_group (view h') = cl_group (view h) \<and>
        (if r = None
         then \<exists>old. cl_object (view h) = Some old \<and> stored_after_update vg old (cl_object (view h'))
         else cl_object (view h') = cl_object (view h))) \<and>
     (\<forall>vg h r h'. Api_StatusUpdate E vg h = (r, h') \<longrightarrow> cl_group (view h') = cl_group (view h) \<and>
        (case cl_object (view h) of
           None \<Rightarrow> cl_object (view h') = None
         | Some old \<Rightarrow> \<exists>new. cl_object (view h') = Some new \<and> vg_meta new = vg_meta old \<and>
             vg_Spec new = vg_Spec old))"

text \<open>
  Documented of lvm2: only a creation or a rename makes a volume group of a name, a removal that
  succeeds or does not find the group leaves none, and nothing here writes to the API server.
\<close>

definition group_contract :: "('q, 'h) env \<Rightarrow> string \<Rightarrow> ('h \<Rightarrow> 'q cluster) \<Rightarrow> bool" where
  "group_contract E n view \<longleftrightarrow>
     (\<forall>c h r h'. Lvm_exec E c h = (r, h') \<longrightarrow> cl_object (view h') = cl_object (view h) \<and>
        (cl_group (view h') \<longrightarrow> cl_group (view h) \<or> (\<exists>opts. c = VGCreate opts) \<or> (\<exists>a b. c = VGRename a b)) \<and>
        (\<forall>f. c = VGRemove n f \<longrightarrow> (case r of None \<Rightarrow> True | Some e \<Rightarrow> IsLVMErrNotFound E e) \<longrightarrow>
           \<not> cl_group (view h'))) \<and>
     (\<forall>c h. view (snd (StreamedCommand E c h)) = view h) \<and>
     (\<forall>m h. view (snd (Lvm_VG E m h)) = view h) \<and> (\<forall>m h. view (snd (Lvm_PVs E m h)) = view h) \<and>
     (\<forall>h. view (snd (Time_Now E h)) = view h)"

text \<open>controllerutil's helpers on the list of finalizers.\<close>

definition finalizer_contract :: "('q, 'h) env \<Rightarrow> bool" where
  "finalizer_contract E \<longleftrightarrow>
     (\<forall>fs f. AddFinalizer E fs f = (if f \<in> set fs then (fs, False) else (fs @ [f], True))) \<and>
     (\<forall>fs f. RemoveFinalizer E fs f = (filter (\<lambda>g. g \<noteq> f) fs, f \<in> set fs))"

section \<open>Programs that keep a fact about the host\<close>

definition stays :: "('h \<Rightarrow> bool) \<Rightarrow> (('q, 'h) world, 'a) prog \<Rightarrow> bool" where
  "stays J m \<longleftrightarrow> (\<forall>w. J (host w) \<longrightarrow> J (host (snd (m w))))"

text \<open>Every call keeps \<open>J\<close> but \<open>Api_Update\<close>, which a program under this rule does not make.\<close>

definition undisturbed :: "('q, 'h) env \<Rightarrow> ('h \<Rightarrow> bool) \<Rightarrow> bool" where
  "undisturbed E J \<longleftrightarrow>
     (\<forall>c h. J h \<longrightarrow> J (snd (StreamedCommand E c h))) \<and> (\<forall>m h. J h \<longrightarrow> J (snd (Lvm_VG E m h))) \<and>
     (\<forall>m h. J h \<longrightarrow> J (snd (Lvm_PVs E m h))) \<and> (\<forall>c h. J h \<longrightarrow> J (snd (Lvm_exec E c h))) \<and>
     (\<forall>vg h. J h \<longrightarrow> J (snd (Api_StatusUpdate E vg h)))"

named_theorems stays_intros \<open>rules for programs that keep a fact about the host\<close>

lemma stays_run: "stays J m \<Longrightarrow> J (host w) \<Longrightarrow> m w = (r, w') \<Longrightarrow> J (host w')"
  by (metis snd_conv stays_def)

lemma stays_basic [stays_intros]:
  "stays J (return a)" "stays J (panic p)" "stays J (lift_outcome o1)" "stays J read_host"
  by (simp_all add: stays_def prog_simps read_host_def)

lemma stays_deref [stays_intros]: "stays J (deref p)"
  by (simp add: deref_def stays_basic split: option.split)

lemma stays_andThen [stays_intros]: "stays J m \<Longrightarrow> (\<And>a. stays J (k a)) \<Longrightarrow> stays J (andThen m k)"
  unfolding stays_def andThen_run by (auto split: prod.split outcome.split)

lemma stays_if [stays_intros]: "stays J m \<Longrightarrow> stays J n \<Longrightarrow> stays J (if b then m else n)"
  by simp

lemma stays_case_option [stays_intros]:
  "stays J m \<Longrightarrow> (\<And>a. stays J (k a)) \<Longrightarrow> stays J (case x of None \<Rightarrow> m | Some a \<Rightarrow> k a)"
  by (cases x) simp_all

lemma stays_case_sum [stays_intros]:
  "(\<And>e. stays J (m e)) \<Longrightarrow> (\<And>a. stays J (k a)) \<Longrightarrow> stays J (case x of Inl e \<Rightarrow> m e | Inr a \<Rightarrow> k a)"
  by (cases x) simp_all

lemma stays_case_prod [stays_intros]: "(\<And>a b. stays J (k a b)) \<Longrightarrow> stays J (case x of (a, b) \<Rightarrow> k a b)"
  by (cases x) simp

lemma stays_calls [stays_intros]:
  assumes "undisturbed E J"
  shows "stays J (run_command E cmd)" "stays J (query_VG E n)" "stays J (query_PVs E n)"
    "stays J (exec_lvm E c)" "stays J (api_status_update E vg)"
  using assms by (simp_all add: stays_def call_runs exec_lvm_run Let_def undisturbed_def)

lemma stays_SequentialTwoWaySync [stays_intros]:
  "(\<And>xs. stays J (new xs)) \<Longrightarrow> (\<And>xs. stays J (old xs)) \<Longrightarrow> stays J (SequentialTwoWaySync desired current new old)"
  unfolding SequentialTwoWaySync_def Let_def by (intro stays_intros)

section \<open>Reconciliation of a protected resource\<close>

lemma stays_names: "undisturbed E J \<Longrightarrow> stays J (getPhysicalVolumeNames E vg)"
  unfolding getPhysicalVolumeNames_def DevicesMatchingSelector_def LSBLK_def runInto_def
  by (intro stays_intros)

lemma stays_movePVs: "undisturbed E J \<Longrightarrow> stays J (movePVs E names desired)"
  by (induction names) (auto intro!: stays_intros)

lemma stays_syncers:
  assumes "undisturbed E J" "s \<in> set (syncers E)"
  shows "stays J (s vg lvm)"
proof -
  have "stays J (syncTags E vg lvm)" "stays J (syncPVs E vg lvm)" "stays J (syncMaximumVolumes E vg lvm)"
    "stays J (syncAllocationPolicy E vg lvm)" "stays J (syncAutoActivation E vg lvm)" "stays J (syncName E vg lvm)"
    unfolding syncTags_def syncPVs_def removePVs_def syncMaximumVolumes_def syncMaximum_def
      syncAllocationPolicy_def syncAutoActivation_def syncName_def Let_def
    by (intro stays_intros stays_names stays_movePVs assms(1))+
  with assms(2) show ?thesis by (auto simp: syncers_def)
qed

lemma stays_run_syncers:
  "(\<And>s. s \<in> set ss \<Longrightarrow> stays J (s vg lvm)) \<Longrightarrow> stays J (run_syncers ss vg lvm errs)"
  by (induction ss arbitrary: errs) (auto intro!: stays_intros)

lemma stays_sync_round:
  assumes "undisturbed E J"
  shows "stays J (sync_round E vg lvm)"
  unfolding sync_round_def conclude_round_def handle_device_loss_def fail_sync_def Let_def
  by (intro stays_intros stays_run_syncers stays_syncers assms) (rule assms)

lemma sync_stays:
  assumes "undisturbed E J" "sync E vg lvm w = Some (r, w')" "J (host w)"
  shows "J (host w')"
  using assms(2,3)
  by (induction rule: sync_induct) (blast dest: stays_run [OF stays_sync_round [OF assms(1)]])+

lemma stays_syncStatus: "undisturbed E J \<Longrightarrow> stays J (syncStatus E vg lvm)"
  unfolding syncStatus_def by (intro stays_intros)

lemma stays_discover: "undisturbed E J \<Longrightarrow> stays J (discover E vg)"
  unfolding discover_def initializeVG_def convertToVGCreateOptions_def Let_def
  by (intro stays_intros stays_names)

lemma sync_and_report_stays:
  assumes u: "undisturbed E J" and "sync_and_report E r vg lvm w = Some (q, w')" "J (host w)"
  shows "J (host w')"
proof -
  obtain x w1 where s: "sync E vg lvm w = Some (x, w1)"
    using assms(2) by (auto simp: sync_and_report_def andThenL_run split: option.splits)
  have j1: "J (host w1)" by (rule sync_stays [OF u s assms(3)])
  show ?thesis
  proof (cases x)
    case (Panic p)
    with assms(2) s j1 show ?thesis by (simp add: sync_and_report_def andThenL_run)
  next
    case (Ret a)
    have st: "stays J (case a of (vg1, serr) \<Rightarrow>
       andThen (syncStatus E vg1 lvm) (\<lambda>(vg2, statusErr).
          andThen (api_status_update E vg2) (\<lambda>uerr.
             case errors_Join [if statusErr \<noteq> None
                      then errors_Join [wrap ''failed to sync volume group with lvm2'' serr,
                        wrap ''failed to sync status from lvm2 into volume group'' statusErr]
                      else wrap ''failed to sync volume group with lvm2'' serr, uerr] of
               Some e \<Rightarrow> return (empty_result, Some e)
             | None \<Rightarrow> return (empty_result\<lparr>res_RequeueAfter := rec_SyncInterval r\<rparr>, None))))"
      by (intro stays_intros stays_syncStatus u)
    show ?thesis
      by (rule stays_run [OF st j1, of q])
        (use assms(2) s Ret in \<open>auto simp: sync_and_report_def andThenL_run returning_run Let_def split: prod.splits\<close>)
  qed
qed

lemma reconcile_host_stays:
  assumes u: "undisturbed E J" and fin: "AddFinalizer E (GetFinalizers vg) VolumeGroupFinalizer = (fs, False)"
    and run: "reconcile_host E r vg w = Some (q, w')" and j: "J (host w)"
  shows "J (host w')"
proof -
  obtain d w1 where d: "discover E vg w = (d, w1)" by fastforce
  have j1: "J (host w1)" by (rule stays_run [OF stays_discover [OF u] j d])
  show ?thesis
  proof (cases d)
    case (Panic p)
    with run d j1 show ?thesis by (simp add: reconcile_host_def andThenL_run returning_run)
  next
    case (Ret a)
    obtain vg' lvm err where a: "a = (vg', lvm, err)" by (cases a)
    have fin': "AddFinalizer E (GetFinalizers vg') VolumeGroupFinalizer = (fs, False)"
      using fin discover_frame(2) [OF d [unfolded Ret a]] by simp
    show ?thesis
    proof (cases err)
      case None
      with run d Ret a fin' have "sync_and_report E r vg' lvm w1 = Some (q, w')"
        by (simp add: reconcile_host_def andThenL_run returning_run)
      then show ?thesis by (rule sync_and_report_stays [OF u _ j1])
    next
      case (Some e)
      have st: "stays J (andThen (api_status_update E vg') (\<lambda>uerr. return (empty_result, errors_Join [err, uerr])))"
        by (intro stays_intros u)
      have "andThen (api_status_update E vg') (\<lambda>uerr. return (empty_result, errors_Join [err, uerr])) w1 = (q, w')"
        using run d Ret a Some by (simp add: reconcile_host_def andThenL_run returning_run)
      then show ?thesis by (rule stays_run [OF st j1])
    qed
  qed
qed

section \<open>The protected states\<close>

text \<open>
  The volume group \<open>n\<close> of the resource is not left behind: while the group exists, the resource does,
  with the finalizer; a resource that has lost the finalizer is deleted, and its group is gone.
\<close>

definition protected :: "string \<Rightarrow> 'q cluster \<Rightarrow> bool" where
  "protected n c \<longleftrightarrow>
     (case cl_object c of
        None \<Rightarrow> \<not> cl_group c
      | Some vg \<Rightarrow> getNameOnNode vg = n \<and>
          (VolumeGroupFinalizer \<in> set (GetFinalizers vg) \<or> is_deleted vg \<and> \<not> cl_group c))"

text \<open>The object \<open>vg\<close>, up to its status.\<close>

definition stores :: "('h \<Rightarrow> 'q cluster) \<Rightarrow> 'q VolumeGroup \<Rightarrow> 'h \<Rightarrow> bool" where
  "stores view vg h \<longleftrightarrow>
     (\<exists>v. cl_object (view h) = Some v \<and> vg_meta v = vg_meta vg \<and> vg_Spec v = vg_Spec vg)"

lemma undisturbed_stores:
  assumes api: "api_contract E key view" and group: "group_contract E n view"
  shows "undisturbed E (stores view vg)"
proof -
  have exec: "cl_object (view (snd (Lvm_exec E c h))) = cl_object (view h)" for c h
    using group unfolding group_contract_def by (metis prod.collapse)
  have status: "stores view vg (snd (Api_StatusUpdate E vg' h))" if st: "stores view vg h" for vg' h
  proof -
    obtain q h' where u: "Api_StatusUpdate E vg' h = (q, h')" by fastforce
    obtain old where old: "cl_object (view h) = Some old" "vg_meta old = vg_meta vg" "vg_Spec old = vg_Spec vg"
      using st by (auto simp: stores_def)
    have "case cl_object (view h) of
           None \<Rightarrow> cl_object (view h') = None
         | Some old \<Rightarrow> \<exists>new. cl_object (view h') = Some new \<and> vg_meta new = vg_meta old \<and> vg_Spec new = vg_Spec old"
      using api u unfolding api_contract_def by blast
    with u old show ?thesis by (auto simp: stores_def)
  qed
  have "view (snd (StreamedCommand E c h)) = view h" "view (snd (Lvm_VG E m h)) = view h"
    "view (snd (Lvm_PVs E m h)) = view h" for c m h
    using group by (simp_all add: group_contract_def)
  with exec status show ?thesis by (simp add: undisturbed_def stores_def)
qed

lemma api_get_view:
  assumes "api_contract E key view" "api_get E key w = (Ret g, w0)"
  shows "view (host w0) = view (host w)"
    "case g of Inr vg \<Rightarrow> cl_object (view (host w)) = Some vg
     | Inl e \<Rightarrow> IgnoreNotFound E e = None \<longrightarrow> cl_object (view (host w)) = None"
proof -
  obtain r h' where g: "Api_Get E key (host w) = (r, h')" by fastforce
  then have r: "g = r" "host w0 = h'" using assms(2) by (auto simp: call_runs Let_def)
  have "view h' = view (host w) \<and> (case r of Inr vg \<Rightarrow> cl_object (view (host w)) = Some vg
      | Inl e \<Rightarrow> IgnoreNotFound E e = None \<longrightarrow> cl_object (view (host w)) = None)"
    using assms(1) g unfolding api_contract_def by blast
  with r show "view (host w0) = view (host w)"
    "case g of Inr vg \<Rightarrow> cl_object (view (host w)) = Some vg
     | Inl e \<Rightarrow> IgnoreNotFound E e = None \<longrightarrow> cl_object (view (host w)) = None"
    by simp_all
qed

lemma api_update_view:
  assumes "api_contract E key view" "api_update E vg w = (Ret u, w')"
  shows "cl_group (view (host w')) = cl_group (view (host w))"
    "u \<noteq> None \<Longrightarrow> cl_object (view (host w')) = cl_object (view (host w))"
    "u = None \<Longrightarrow> \<exists>old. cl_object (view (host w)) = Some old \<and>
       stored_after_update vg old (cl_object (view (host w')))"
proof -
  obtain r h' where g: "Api_Update E vg (host w) = (r, h')" by fastforce
  then have r: "u = r" "host w' = h'" using assms(2) by (auto simp: call_runs Let_def)
  have "cl_group (view h') = cl_group (view (host w)) \<and>
        (if r = None
         then \<exists>old. cl_object (view (host w)) = Some old \<and> stored_after_update vg old (cl_object (view h'))
         else cl_object (view h') = cl_object (view (host w)))"
    using assms(1) g unfolding api_contract_def by blast
  with r show "cl_group (view (host w')) = cl_group (view (host w))"
    "u \<noteq> None \<Longrightarrow> cl_object (view (host w')) = cl_object (view (host w))"
    "u = None \<Longrightarrow> \<exists>old. cl_object (view (host w)) = Some old \<and>
       stored_after_update vg old (cl_object (view (host w')))"
    by simp_all
qed

text \<open>How the removal of a deleted resource ends.\<close>

lemma reconcile_deletion_cases:
  assumes "reconcile_deletion E vg w = (q, w')"
  obtains (nil) p where "q = Panic p" "host w' = host w"
  | (failed) force h e where "h = snd (Time_Now E (host w))"
      "fst (Lvm_exec E (VGRemove (getNameOnNode vg) force) h) = Some e" "\<not> IsLVMErrNotFound E e"
      "host w' = snd (Lvm_exec E (VGRemove (getNameOnNode vg) force) h)"
      "q = Ret (empty_result, wrap ''failed to remove volume group'' (Some e))"
  | (removed) force h w1 fs updated where "h = snd (Time_Now E (host w))"
      "case fst (Lvm_exec E (VGRemove (getNameOnNode vg) force) h) of None \<Rightarrow> True | Some e \<Rightarrow> IsLVMErrNotFound E e"
      "host w1 = snd (Lvm_exec E (VGRemove (getNameOnNode vg) force) h)"
      "RemoveFinalizer E (GetFinalizers vg) VolumeGroupFinalizer = (fs, updated)"
      "if updated then \<exists>u. api_update E (set_Finalizers fs vg) w1 = (Ret u, w') \<and> q = Ret (empty_result, u)
       else w' = w1 \<and> q = Ret (requeue, None)"
proof (cases "meta_DeletionTimestamp (vg_meta vg)")
  case None
  with assms show thesis by (intro nil [of NilDereference]) (simp_all add: reconcile_deletion_def deref_def panic_run)
next
  case (Some ts)
  show thesis
  proof (cases "meta_DeletionGracePeriodSeconds (vg_meta vg)")
    case None
    with assms Some show thesis by (intro nil [of NilDereference]) (simp_all add: reconcile_deletion_def deref_def panic_run)
  next
    case grace: (Some secs)
    obtain now w0 where t: "time_now E w = (Ret now, w0)" "host w0 = snd (Time_Now E (host w))"
      by (simp add: call_runs Let_def)
    let ?c = "VGRemove (getNameOnNode vg) (now > force_at ts secs)"
    obtain x w1 where x: "exec_lvm E ?c w0 = (Ret x, w1)" "x = fst (Lvm_exec E ?c (host w0))"
      "host w1 = snd (Lvm_exec E ?c (host w0))"
      by (simp add: exec_lvm_run)
    obtain fs updated where fin: "RemoveFinalizer E (GetFinalizers vg) VolumeGroupFinalizer = (fs, updated)"
      by fastforce
    have run: "(if (case x of None \<Rightarrow> False | Some e \<Rightarrow> \<not> IsLVMErrNotFound E e)
        then return (empty_result, wrap ''failed to remove volume group'' x)
        else (case RemoveFinalizer E (GetFinalizers vg) VolumeGroupFinalizer of (fs, updated) \<Rightarrow>
          if updated then andThen (api_update E (set_Finalizers fs vg)) (\<lambda>uerr. return (empty_result, uerr))
          else return (requeue, None))) w1 = (q, w')"
      using assms Some grace t(1) x(1) by (simp add: reconcile_deletion_def deref_def andThen_run [of _ _ w] andThen_run [of _ _ w0])
    show thesis
    proof (cases "\<exists>e. x = Some e \<and> \<not> IsLVMErrNotFound E e")
      case True
      then obtain e where e: "x = Some e" "\<not> IsLVMErrNotFound E e" by blast
      with run have "w' = w1" "q = Ret (empty_result, wrap ''failed to remove volume group'' (Some e))"
        by (simp_all add: return_run)
      with t x e show thesis by (intro failed [of "host w0" "now > force_at ts secs" e]) simp_all
    next
      case False
      then have ok: "case x of None \<Rightarrow> True | Some e \<Rightarrow> IsLVMErrNotFound E e" by (auto split: option.split)
      then have "(if updated then andThen (api_update E (set_Finalizers fs vg)) (\<lambda>uerr. return (empty_result, uerr))
          else return (requeue, None)) w1 = (q, w')"
        using run fin by (auto split: option.splits)
      moreover obtain u w2 where "api_update E (set_Finalizers fs vg) w1 = (Ret u, w2)"
        by (simp add: call_runs Let_def)
      ultimately have "if updated then \<exists>u. api_update E (set_Finalizers fs vg) w1 = (Ret u, w') \<and> q = Ret (empty_result, u)
         else w' = w1 \<and> q = Ret (requeue, None)"
        by (simp add: andThen_run return_run split: if_splits)
      with t x fin ok show thesis
        by (intro removed [of "host w0" "now > force_at ts secs" w1 fs updated]) simp_all
    qed
  qed
qed

lemma exec_view:
  assumes "group_contract E n view"
  shows "cl_object (view (snd (Lvm_exec E c h))) = cl_object (view h)"
    "cl_group (view (snd (Lvm_exec E c h))) \<Longrightarrow> cl_group (view h) \<or> (\<exists>opts. c = VGCreate opts) \<or> (\<exists>a b. c = VGRename a b)"
    "c = VGRemove n f \<Longrightarrow> (case fst (Lvm_exec E c h) of None \<Rightarrow> True | Some e \<Rightarrow> IsLVMErrNotFound E e) \<Longrightarrow>
      \<not> cl_group (view (snd (Lvm_exec E c h)))"
  using assms unfolding group_contract_def by (metis prod.collapse)+

lemma Time_Now_view: "group_contract E n view \<Longrightarrow> view (snd (Time_Now E h)) = view h"
  by (simp add: group_contract_def)

lemma reconcile_deletion_protected:
  assumes api: "api_contract E key view" and group: "group_contract E n view"
    and obj: "cl_object (view (host w)) = Some vg" "is_deleted vg" and prot: "protected n (view (host w))"
    and run: "reconcile_deletion E vg w = (q, w')"
  shows "protected n (view (host w'))"
proof -
  have n: "getNameOnNode vg = n" using prot obj(1) by (simp add: protected_def)
  from run show ?thesis
  proof (cases rule: reconcile_deletion_cases)
    case (nil p)
    with prot show ?thesis by simp
  next
    case (failed force h e)
    have "cl_object (view (host w')) = Some vg"
      using failed(1,4) obj(1) exec_view(1) [OF group] Time_Now_view [OF group] by simp
    moreover have "cl_group (view (host w')) \<Longrightarrow> cl_group (view (host w))"
      using failed(1,4) exec_view(2) [OF group, of "VGRemove (getNameOnNode vg) force" h] Time_Now_view [OF group]
      by auto
    ultimately show ?thesis using prot obj by (auto simp: protected_def)
  next
    case (removed force h w1 fs updated)
    have obj1: "cl_object (view (host w1)) = Some vg"
      using removed(1,3) obj(1) exec_view(1) [OF group] Time_Now_view [OF group] by simp
    have gone: "\<not> cl_group (view (host w1))"
      using exec_view(3) [OF group _ removed(2), of force] removed(3) n by simp
    show ?thesis
    proof (cases updated)
      case True
      with removed(5) obtain u where u: "api_update E (set_Finalizers fs vg) w1 = (Ret u, w')" by auto
      note upd = api_update_view [OF api u]
      show ?thesis
      proof (cases u)
        case None
        with upd(3) obj1 have "stored_after_update (set_Finalizers fs vg) vg (cl_object (view (host w')))" by simp
        moreover have "getNameOnNode new = n" if "GetUID new = GetUID vg" "vg_Spec new = vg_Spec vg" for new
          using that n by (simp add: getNameOnNode_def split: option.splits)
        ultimately show ?thesis
          using gone upd(1) obj(2)
          by (auto simp: protected_def stored_after_update_def set_Finalizers_def split: if_splits)
      next
        case (Some e)
        with upd obj1 gone n obj(2) show ?thesis by (simp add: protected_def)
      qed
    next
      case False
      with removed(5) obj1 gone n obj(2) show ?thesis by (simp add: protected_def)
    qed
  qed
qed

lemma Reconcile_protected:
  assumes api: "api_contract E key view" and group: "group_contract E n view" and fin: "finalizer_contract E"
    and prot: "protected n (view (host w))" and run: "Reconcile E r key w = Some (q, w')"
  shows "protected n (view (host w'))"
proof -
  obtain g w0 where get: "api_get E key w = (Ret g, w0)" by (simp add: call_runs Let_def)
  note v = api_get_view [OF api get]
  show ?thesis
  proof (cases g)
    case (Inl e)
    with run get v(1) prot show ?thesis by (simp add: Reconcile_def andThenL_run returning_run return_run)
  next
    case (Inr vg)
    have f: "reconcile_fetched E r vg w0 = Some (q, w')"
      using run Reconcile_fetched [OF get [unfolded Inr]] by simp
    have obj: "cl_object (view (host w0)) = Some vg" using v Inr by simp
    show ?thesis
    proof (cases "rec_NodeName r = spec_NodeName (vg_Spec vg)")
      case False
      with f v(1) prot show ?thesis by (simp add: reconcile_fetched_def returning_run return_run)
    next
      case own: True
      show ?thesis
      proof (cases "is_deleted vg")
        case True
        with f own have d: "reconcile_deletion E vg w0 = (q, w')" by (simp add: reconcile_fetched_def returning_run)
        show ?thesis
          by (rule reconcile_deletion_protected [OF api group obj True _ d]) (use prot v(1) in simp)
      next
        case False
        with prot v(1) obj have fin': "VolumeGroupFinalizer \<in> set (GetFinalizers vg)" and n: "getNameOnNode vg = n"
          by (simp_all add: protected_def)
        have "AddFinalizer E (GetFinalizers vg) VolumeGroupFinalizer = (GetFinalizers vg, False)"
          using fin fin' by (simp add: finalizer_contract_def)
        moreover have "reconcile_host E r vg w0 = Some (q, w')"
          using f own False by (simp add: reconcile_fetched_def)
        moreover have "stores view vg (host w0)" using obj by (simp add: stores_def)
        ultimately have "stores view vg (host w')"
          using reconcile_host_stays [OF undisturbed_stores [OF api group]] by blast
        then show ?thesis
          using fin' n by (auto simp: stores_def protected_def getNameOnNode_def split: option.splits)
      qed
    qed
  qed
qed

section \<open>The steps of the loop\<close>

text \<open>
  Beside the reconciliations: another actor edits the resource (not the name on the node, the
  finalizers or the deletion), deletes it, or the group is lost with its devices. A resource that
  is gone is not created anew.
\<close>

inductive outside :: "'q cluster \<Rightarrow> 'q cluster \<Rightarrow> bool" where
  edit: "cl_object c = Some vg \<Longrightarrow> getNameOnNode vg' = getNameOnNode vg \<Longrightarrow>
    GetFinalizers vg' = GetFinalizers vg \<Longrightarrow> is_deleted vg' = is_deleted vg \<Longrightarrow>
    outside c (c\<lparr>cl_object := Some vg'\<rparr>)"
| delete: "cl_object c = Some vg \<Longrightarrow> GetFinalizers vg \<noteq> [] \<Longrightarrow> is_deleted vg' \<Longrightarrow>
    getNameOnNode vg' = getNameOnNode vg \<Longrightarrow> GetFinalizers vg' = GetFinalizers vg \<Longrightarrow>
    outside c (c\<lparr>cl_object := Some vg'\<rparr>)"
| delete_at_once: "cl_object c = Some vg \<Longrightarrow> GetFinalizers vg = [] \<Longrightarrow> outside c (c\<lparr>cl_object := None\<rparr>)"
| lose: "outside c (c\<lparr>cl_group := False\<rparr>)"

inductive loop_step ::
  "('q, 'h) env \<Rightarrow> VolumeGroupReconciler \<Rightarrow> string \<Rightarrow> ('h \<Rightarrow> 'q cluster) \<Rightarrow> ('q, 'h) world \<Rightarrow>
   ('q, 'h) world \<Rightarrow> bool"
  for E r key view where
  reconciled: "Reconcile E r key w = Some (q, w') \<Longrightarrow> loop_step E r key view w w'"
| changed: "outside (view (host w)) (view h) \<Longrightarrow> loop_step E r key view w (w\<lparr>host := h\<rparr>)"

inductive_cases loop_stepE: "loop_step E r key view w w'"

lemma outside_protected: "outside c c' \<Longrightarrow> protected n c \<Longrightarrow> protected n c'"
  by (induction rule: outside.induct) (auto simp: protected_def split: option.splits)

lemma loop_protected:
  assumes "(loop_step E r key view)\<^sup>*\<^sup>* w w'" and "api_contract E key view" "group_contract E n view"
    and "finalizer_contract E" and "protected n (view (host w))"
  shows "protected n (view (host w'))"
  using assms(1,5)
proof (induction rule: rtranclp_induct)
  case (step w1 w2)
  from step.hyps(2) show ?case
    by (rule loop_stepE)
      (use step.IH [OF step.prems] Reconcile_protected [OF assms(2-4)] outside_protected in auto)
qed

section \<open>Convergence\<close>

lemma sync_and_report_converged:
  assumes lvm: "lvm_contract E (getNameOnNode vg) lview" and names: "finds_by_name E"
    and status: "\<And>vg h. lview (snd (Api_StatusUpdate E vg h)) = lview h"
    and query: "query_VG E (getNameOnNode vg) w0 = (Ret (Some l, None), w1)" "observed l (lview (host w1))"
    and run: "sync_and_report E r vg (Some l) w1 = Some (Ret (res, None), w')"
  shows "\<exists>desired. selection_during E vg w1 w' desired \<and> converged vg desired (lview (host w'))"
proof -
  obtain vg1 serr ws vg2 sterr w2 u where 1: "sync E vg (Some l) w1 = Some (Ret (vg1, serr), ws)"
    and 2: "syncStatus E vg1 (Some l) ws = (Ret (vg2, sterr), w2)"
    and 3: "api_status_update E vg2 w2 = (Ret u, w')" and none: "serr = None" "sterr = None"
    using run by (rule sync_and_report_cases) simp
  have name: "lvg_Name l = getNameOnNode vg" by (rule finds_by_nameD [OF names query(1)])
  obtain desired where "selection_during E vg w1 ws desired" "converged vg desired (lview (host ws))"
    using sync_converged [OF lvm [folded name] name [symmetric] 1 observed_between [OF query(2)]] none
    by blast
  moreover have "host w2 = snd (Lvm_PVs E (getNameOnNode vg) (host ws))" "prefix (trace ws) (trace w2)"
    using syncStatus_ok [OF 2 [unfolded none]] by (auto simp: call_runs Let_def name)
  moreover have "lview (snd (Lvm_PVs E (getNameOnNode vg) h)) = lview h" for h
    using lvm by (auto simp: lvm_contract_def) (metis prod.collapse)
  moreover have "host w' = snd (Api_StatusUpdate E vg2 (host w2))" "prefix (trace w2) (trace w')"
    using 3 by (auto simp: call_runs Let_def)
  ultimately show ?thesis
    using status unfolding selection_during_def by (metis prefix_order.trans)
qed

text \<open>
  Documented of lvm2's report and of a creation: a group that is reported is there and as reported,
  one that is not found is not there, and a creation that succeeds makes it.
\<close>

definition lookup_contract ::
  "('q, 'h) env \<Rightarrow> string \<Rightarrow> ('h \<Rightarrow> 'q cluster) \<Rightarrow> ('h \<Rightarrow> lvm_state) \<Rightarrow> bool" where
  "lookup_contract E n view lview \<longleftrightarrow>
     (\<forall>h l err h'. Lvm_VG E n h = ((l, err), h') \<longrightarrow>
        (case err of
           None \<Rightarrow> (\<exists>g. l = Some g \<and> observed g (lview h')) \<and> cl_group (view h)
         | Some e \<Rightarrow> errors_Is err (ErrVolumeGroupNotFound E) \<longrightarrow> \<not> cl_group (view h))) \<and>
     (\<forall>opts h h'. Lvm_exec E (VGCreate opts) h = (None, h') \<longrightarrow> vco_VolumeGroupName opts = n \<longrightarrow>
        cl_group (view h'))"

lemma lookup_cases:
  assumes "lookup_contract E n view lview" "group_contract E n view"
    and "query_VG E n w = (Ret (l, err), w')"
  shows "view (host w') = view (host w)"
    "err = None \<Longrightarrow> (\<exists>g. l = Some g \<and> observed g (lview (host w'))) \<and> cl_group (view (host w))"
    "err \<noteq> None \<Longrightarrow> errors_Is err (ErrVolumeGroupNotFound E) \<Longrightarrow> \<not> cl_group (view (host w))"
proof -
  have q: "Lvm_VG E n (host w) = ((l, err), host w')"
    using assms(3) by (cases "Lvm_VG E n (host w)") (auto simp: call_runs Let_def)
  show "view (host w') = view (host w)" using assms(2) q unfolding group_contract_def by (metis snd_conv)
  have c: "case err of
           None \<Rightarrow> (\<exists>g. l = Some g \<and> observed g (lview (host w'))) \<and> cl_group (view (host w))
         | Some e \<Rightarrow> errors_Is err (ErrVolumeGroupNotFound E) \<longrightarrow> \<not> cl_group (view (host w))"
    using assms(1) q unfolding lookup_contract_def by blast
  show "err = None \<Longrightarrow> (\<exists>g. l = Some g \<and> observed g (lview (host w'))) \<and> cl_group (view (host w))"
    using c by simp
  show "err \<noteq> None \<Longrightarrow> errors_Is err (ErrVolumeGroupNotFound E) \<Longrightarrow> \<not> cl_group (view (host w))"
    using c by (auto split: option.splits)
qed

text \<open>A lookup without an error leaves the group there.\<close>

lemma discover_present:
  assumes lk: "lookup_contract E (getNameOnNode vg) view lview" and group: "group_contract E (getNameOnNode vg) view"
    and run: "discover E vg w = (Ret (vg', lvm, None), w')" and nf: "\<not> errors_Is None (ErrVolumeGroupNotFound E)"
  shows "cl_group (view (host w'))"
  using run
proof (cases rule: discover_cases)
  case (queried q)
  with lookup_cases(1,2) [OF lk group queried(1)] show ?thesis by simp
next
  case (absent q w1)
  from absent(3) show ?thesis
  proof (cases rule: initializeVG_cases)
    case (created opts w2)
    have "vco_VolumeGroupName opts = getNameOnNode vg"
      using created(1) by (rule convertToVGCreateOptions_name)
    moreover have "Lvm_exec E (VGCreate opts) (host w2) = (None, host w')"
      using created(2) by (cases "Lvm_exec E (VGCreate opts) (host w2)") (auto simp: exec_lvm_run)
    ultimately show ?thesis using lk unfolding lookup_contract_def by blast
  qed simp_all
qed

lemma errors_Join_Some: "errors_Join [Some e, u] \<noteq> None"
  by (simp add: errors_Join_None)

text \<open>The first reconciliation of a resource without the finalizer, when it reports no error.\<close>

lemma first_reconciliation:
  assumes api: "api_contract E key view" and group: "group_contract E (getNameOnNode vg) view"
    and fin: "finalizer_contract E" and lk: "lookup_contract E (getNameOnNode vg) view lview"
    and obj: "cl_object (view (host w)) = Some vg" "\<not> is_deleted vg"
      "rec_NodeName r = spec_NodeName (vg_Spec vg)" "VolumeGroupFinalizer \<notin> set (GetFinalizers vg)"
    and run: "Reconcile E r key w = Some (Ret (res, None), w')"
  shows "res = requeue \<and> cl_group (view (host w')) \<and>
    (\<exists>new. cl_object (view (host w')) = Some new \<and> VolumeGroupFinalizer \<in> set (GetFinalizers new) \<and>
       \<not> is_deleted new \<and> vg_Spec new = vg_Spec vg \<and> getNameOnNode new = getNameOnNode vg)"
proof -
  obtain g w0 where get: "api_get E key w = (Ret g, w0)" by (simp add: call_runs Let_def)
  note v = api_get_view [OF api get]
  have g: "g = Inr vg"
  proof (cases g)
    case (Inl e)
    with run get have "IgnoreNotFound E e = None" by (simp add: Reconcile_def andThenL_run returning_run return_run)
    with v(2) Inl obj(1) show ?thesis by simp
  qed (use v(2) obj(1) in simp)
  have host: "reconcile_host E r vg w0 = Some (Ret (res, None), w')"
    using run obj(2,3) by (simp add: Reconcile_fetched [OF get [unfolded g]] reconcile_fetched_def)
  obtain vg' lvm err w1 where d: "discover E vg w0 = (Ret (vg', lvm, err), w1)"
    using host by (auto simp: reconcile_host_def andThenL_eq_Ret returning_run)
  obtain u w2 where s: "api_status_update E vg' w1 = (Ret u, w2)" by (simp add: call_runs Let_def)
  have err: "err = None"
  proof (cases err)
    case (Some e)
    with host d s errors_Join_Some show ?thesis
      by (simp add: reconcile_host_def andThenL_run returning_run andThen_run return_run)
  qed
  have add: "AddFinalizer E (GetFinalizers vg') VolumeGroupFinalizer = (GetFinalizers vg @ [VolumeGroupFinalizer], True)"
    using fin obj(4) discover_frame(2) [OF d] by (simp add: finalizer_contract_def)
  obtain u w2 where upd: "api_update E (set_Finalizers (GetFinalizers vg @ [VolumeGroupFinalizer]) vg') w1 = (Ret u, w2)"
    by (simp add: call_runs Let_def)
  have fin1: "res = requeue" "u = None" "w2 = w'"
    using host d err add upd by (simp_all add: reconcile_host_def andThenL_run returning_run andThen_run return_run)
  have present: "cl_group (view (host w1))"
    by (rule discover_present [OF lk group d [unfolded err]]) (simp add: errors_Is_def)
  have "stores view vg (host w0)" using obj(1) v(1) by (simp add: stores_def)
  then have "stores view vg (host w1)"
    by (rule stays_run [OF stays_discover [OF undisturbed_stores [OF api group]] _ d])
  then obtain old where old: "cl_object (view (host w1)) = Some old" "vg_meta old = vg_meta vg"
    by (auto simp: stores_def)
  note av = api_update_view [OF api upd]
  have "stored_after_update (set_Finalizers (GetFinalizers vg @ [VolumeGroupFinalizer]) vg') old (cl_object (view (host w2)))"
    using av(3) fin1(2) old(1) by simp
  then obtain new where new: "cl_object (view (host w2)) = Some new"
      "GetFinalizers new = GetFinalizers vg @ [VolumeGroupFinalizer]"
      "GetUID new = GetUID vg" "is_deleted new = is_deleted old" "vg_Spec new = vg_Spec vg"
    using discover_frame [OF d] by (auto simp: stored_after_update_def set_Finalizers_def)
  moreover have "is_deleted old = is_deleted vg" by (simp add: is_deleted_def old(2))
  moreover have "getNameOnNode new = getNameOnNode vg"
    using new(3,5) by (simp add: getNameOnNode_def split: option.split)
  ultimately show ?thesis using fin1 present av(1) obj(2) by auto
qed

text \<open>A reconciliation of a resource with the finalizer and a group, when it reports no error.\<close>

lemma later_reconciliation:
  assumes api: "api_contract E key view" and group: "group_contract E (getNameOnNode vg) view"
    and fin: "finalizer_contract E" and lk: "lookup_contract E (getNameOnNode vg) view lview"
    and lvm: "lvm_contract E (getNameOnNode vg) lview" and names: "finds_by_name E"
    and status: "\<And>vg h. lview (snd (Api_StatusUpdate E vg h)) = lview h"
    and obj: "cl_object (view (host w)) = Some vg" "cl_group (view (host w))" "\<not> is_deleted vg"
      "rec_NodeName r = spec_NodeName (vg_Spec vg)" "VolumeGroupFinalizer \<in> set (GetFinalizers vg)"
    and run: "Reconcile E r key w = Some (Ret (res, None), w')"
  shows "stores view vg (host w') \<and> (\<exists>desired. selection_during E vg w w' desired \<and> converged vg desired (lview (host w')))"
proof -
  obtain g w0 where get: "api_get E key w = (Ret g, w0)" by (simp add: call_runs Let_def)
  note v = api_get_view [OF api get]
  have g: "g = Inr vg"
  proof (cases g)
    case (Inl e)
    with run get have "IgnoreNotFound E e = None" by (simp add: Reconcile_def andThenL_run returning_run return_run)
    with v(2) Inl obj(1) show ?thesis by simp
  qed (use v(2) obj(1) in simp)
  have host: "reconcile_host E r vg w0 = Some (Ret (res, None), w')"
    using run obj(3,4) by (simp add: Reconcile_fetched [OF get [unfolded g]] reconcile_fetched_def)
  obtain l q w1 where query: "query_VG E (getNameOnNode vg) w0 = (Ret (l, q), w1)"
    by (cases "Lvm_VG E (getNameOnNode vg) (host w0)") (auto simp: call_runs Let_def)
  note lc = lookup_cases [OF lk group query]
  have q: "q = None"
  proof (cases q)
    case (Some e)
    then have "\<not> errors_Is q (ErrVolumeGroupNotFound E)" using lc(3) v(1) obj(2) by auto
    then have d: "discover E vg w0 = (Ret (vg, l, q), w1)"
      using query by (simp add: discover_def andThen_run return_run)
    obtain u w2 where "api_status_update E vg w1 = (Ret u, w2)" by (simp add: call_runs Let_def)
    with host d Some errors_Join_Some show ?thesis
      by (simp add: reconcile_host_def andThenL_run returning_run andThen_run return_run)
  qed
  with lc(2) obtain y where l: "l = Some y" "observed y (lview (host w1))" by blast
  have add: "AddFinalizer E (GetFinalizers vg) VolumeGroupFinalizer = (GetFinalizers vg, False)"
    using fin obj(5) by (simp add: finalizer_contract_def)
  have sr: "sync_and_report E r vg (Some y) w1 = Some (Ret (res, None), w')"
    using host reconcile_host_found [OF query [unfolded l q] add] by simp
  obtain desired where "selection_during E vg w1 w' desired" "converged vg desired (lview (host w'))"
    using sync_and_report_converged [OF lvm names status query [unfolded l q] l(2) sr] by blast
  moreover have "prefix (trace w) (trace w1)"
    using get query by (auto simp: call_runs Let_def)
  moreover have "stores view vg (host w1)" using obj(1) v(1) lc(1) by (simp add: stores_def)
  then have "stores view vg (host w')"
    by (rule sync_and_report_stays [OF undisturbed_stores [OF api group] sr])
  ultimately show ?thesis using selection_during_prefix by blast
qed

section \<open>The steady state\<close>

lemma converged_in_sync:
  assumes "converged vg desired (lview (host w))" "observed l (lview (host w))"
    and "lvm_contract E n lview" "lvg_Name l = n" "getNameOnNode vg = n"
    and names: "getPhysicalVolumeNames E vg w = (Ret (Inr desired), w1)"
    and list: "\<And>h. \<exists>pvs. fst (Lvm_PVs E n h) = Inr pvs"
  shows "in_sync E vg l w"
proof -
  have view1: "lview (host w1) = lview (host w)"
    using refinesD [OF selector_refines [OF assms(3)] names] .
  obtain pvs where pvs: "fst (Lvm_PVs E n (host w1)) = Inr pvs" using list by blast
  then have "set (map lpv_Name pvs) = ls_pvs (lview (host w1))"
    using assms(3) unfolding lvm_contract_def by (metis prod.collapse)
  then have "pvs_agree E vg l w"
    using assms(1,4) view1 pvs names by (simp add: pvs_agree_def call_runs Let_def converged_def)
  then show ?thesis
    using assms(1,2,4,5)
    by (auto simp: in_sync_def converged_def observed_def tags_agree_def limits_agree_def limits_done_def
        policy_agrees_def policy_done_def activation_agrees_def auto_done_def convertToAutoActivation_def
        name_agrees_def split: option.splits)
qed

lemma sync_and_report_in_sync:
  assumes "in_sync E vg l w" "\<not> IsLVMErrVGMissingPVs E None"
  shows "\<exists>reply w' es. sync_and_report E r vg (Some l) w = Some (reply, w') \<and> trace w' = trace w @ es \<and>
    (\<forall>e \<in> set es. read_only e \<or> (\<exists>v x. e = EvStatusUpdate v x))"
proof -
  let ?P = "\<lambda>e :: 'a event. read_only e \<or> (\<exists>v x. e = EvStatusUpdate v x)"
  obtain vg1 w1 es where 1: "sync E vg (Some l) w = Some (Ret (vg1, None), w1)" "trace w1 = trace w @ es"
      "\<forall>e \<in> set es. read_only e"
    using sync_in_sync [OF assms] by blast
  have "emits ?P (andThen (syncStatus E vg1 (Some l)) (\<lambda>(vg2, statusErr).
      let err' = (if statusErr \<noteq> None
                  then errors_Join [wrap ''failed to sync volume group with lvm2'' None,
                    wrap ''failed to sync status from lvm2 into volume group'' statusErr]
                  else wrap ''failed to sync volume group with lvm2'' None)
      in andThen (api_status_update E vg2) (\<lambda>uerr.
         case errors_Join [err', uerr] of
           Some e \<Rightarrow> return (empty_result, Some e)
         | None \<Rightarrow> return (empty_result\<lparr>res_RequeueAfter := rec_SyncInterval r\<rparr>, None))))" (is "emits _ ?m")
    unfolding Let_def by (intro emits_intros) auto
  then obtain fs where fs: "trace (snd (?m w1)) = trace w1 @ fs" "\<forall>e \<in> set fs. ?P e" by (rule emitsE)
  have "sync_and_report E r vg (Some l) w = Some (?m w1)"
    using 1(1) by (simp add: sync_and_report_def andThenL_run returning_run Let_def)
  with 1 fs show ?thesis
    by (intro exI [of _ "fst (?m w1)"] exI [of _ "snd (?m w1)"] exI [of _ "es @ fs"]) auto
qed

end
