(* ===== verification/StartUp.thy ===== *)
theory StartUp
  imports Reconcile
begin

text \<open>
  \<open>cmd/main.go\<close>, with \<open>SetupWithManager\<close> and the registration of the API types: from the flags to
  the running manager. The calls into controller-runtime and client-go are fields of
  \<open>setup_env\<close>; each is recorded with the error it returned. The result of \<open>flag.Parse\<close> is a field
  too, a function of the defaults that the flags are registered with. The loggers are left out, as
  are the webhook server and the TLS options, which are made and passed on empty.
\<close>

section \<open>The API group (groupversion_info.go)\<close>

record GroupVersion =
  gv_Group :: string
  gv_Version :: string

definition GroupVersion :: GroupVersion where
  "GroupVersion = \<lparr>gv_Group = ''topolvm.io'', gv_Version = ''v1alpha1''\<rparr>"

text \<open>
  The types that the package's \<open>init\<close> registers with \<open>SchemeBuilder\<close>; the scheme also has
  those of client-go.
\<close>

definition registered_kinds :: "string list" where
  "registered_kinds = [''VolumeGroup'', ''VolumeGroupList'']"

section \<open>Flags and options\<close>

record flags =
  metricsAddr :: string
  probeAddr :: string
  enableLeaderElection :: bool
  secureMetrics :: bool
  volumeGroupSyncInterval :: int64

definition default_flags :: flags where
  "default_flags = \<lparr>metricsAddr = ''0'', probeAddr = '':8081'', enableLeaderElection = False,
     secureMetrics = True, volumeGroupSyncInterval = 10 * 1000000000\<rparr>"

datatype FilterProvider = WithAuthenticationAndAuthorization

record metrics_options =
  mt_BindAddress :: string
  mt_SecureServing :: bool
  mt_FilterProvider :: "FilterProvider option"

definition metrics_options_of :: "flags \<Rightarrow> metrics_options" where
  "metrics_options_of f =
     (let o0 = \<lparr>mt_BindAddress = metricsAddr f, mt_SecureServing = secureMetrics f, mt_FilterProvider = None\<rparr>
      in if secureMetrics f then o0\<lparr>mt_FilterProvider := Some WithAuthenticationAndAuthorization\<rparr> else o0)"

record manager_options =
  mo_Scheme :: "(GroupVersion \<times> string) list"
  mo_Metrics :: metrics_options
  mo_HealthProbeBindAddress :: string
  mo_LeaderElection :: bool
  mo_LeaderElectionID :: string
  mo_LeaderElectionReleaseOnCancel :: bool

definition topolvm_types :: "(GroupVersion \<times> string) list" where
  "topolvm_types = map (Pair GroupVersion) registered_kinds"

definition manager_options_of :: "flags \<Rightarrow> manager_options" where
  "manager_options_of f = \<lparr>mo_Scheme = topolvm_types, mo_Metrics = metrics_options_of f,
     mo_HealthProbeBindAddress = probeAddr f, mo_LeaderElection = enableLeaderElection f,
     mo_LeaderElectionID = ''c43d834a.io'', mo_LeaderElectionReleaseOnCancel = True\<rparr>"

section \<open>Calls\<close>

datatype call =
    AddClientGoScheme
  | AddToScheme "(GroupVersion \<times> string) list"
  | GetConfig
  | NewManager manager_options
  | Complete string VolumeGroupReconciler
  | AddHealthzCheck string
  | AddReadyzCheck string
  | Start

text \<open>What is known of the process from outside, and the effect of a call on the outside.\<close>

record 'h setup_env =
  Parse :: "flags \<Rightarrow> flags"
  Getenv :: "string \<Rightarrow> string"
  Perform :: "call \<Rightarrow> 'h \<Rightarrow> goerror option \<times> 'h"

record 'h setup_world =
  su_host :: 'h
  su_trace :: "(call \<times> goerror option) list"

text \<open>How the process ends before \<open>main\<close> returns: \<open>os.Exit\<close>, or the panic of \<open>utilruntime.Must\<close>.\<close>

datatype stop = OsExit int | MustPanic goerror

type_synonym 'h setup_step = "'h setup_world \<Rightarrow> stop option \<times> 'h setup_world"

definition perform :: "'h setup_env \<Rightarrow> call \<Rightarrow> 'h setup_world \<Rightarrow> goerror option \<times> 'h setup_world" where
  "perform E c w = (let (r, h) = Perform E c (su_host w)
                    in (r, w\<lparr>su_host := h, su_trace := su_trace w @ [(c, r)]\<rparr>))"

type_synonym 'h action = "'h setup_world \<Rightarrow> goerror option \<times> 'h setup_world"

definition must :: "'h action \<Rightarrow> 'h setup_step" where
  "must m w = (case m w of
     (Some e, w') \<Rightarrow> (Some (MustPanic e), w') | (None, w') \<Rightarrow> (None, w'))"

text \<open>\<open>if err := ...; err != nil { setupLog.Error(...); os.Exit(1) }\<close>\<close>

definition or_exit :: "'h action \<Rightarrow> 'h setup_step" where
  "or_exit m w = (case m w of
     (Some e, w') \<Rightarrow> (Some (OsExit 1), w') | (None, w') \<Rightarrow> (None, w'))"

fun run_steps :: "'h setup_step list \<Rightarrow> 'h setup_step" where
  "run_steps [] w = (None, w)"
| "run_steps (s # ss) w = (case s w of (None, w') \<Rightarrow> run_steps ss w' | (Some r, w') \<Rightarrow> (Some r, w'))"

section \<open>The program\<close>

definition init :: "'h setup_env \<Rightarrow> 'h setup_step list" where
  "init E = [must (perform E AddClientGoScheme), must (perform E (AddToScheme topolvm_types))]"

definition SetupWithManager :: "'h setup_env \<Rightarrow> VolumeGroupReconciler \<Rightarrow> 'h action" where
  "SetupWithManager E r = perform E (Complete ''VolumeGroup'' r)"

definition reconciler_of :: "'h setup_env \<Rightarrow> flags \<Rightarrow> VolumeGroupReconciler" where
  "reconciler_of E f = \<lparr>rec_NodeName = Getenv E ''NODE_NAME'', rec_SyncInterval = volumeGroupSyncInterval f\<rparr>"

definition main :: "'h setup_env \<Rightarrow> 'h setup_step list" where
  "main E =
     (let f = Parse E default_flags
      in [or_exit (perform E GetConfig),
          or_exit (perform E (NewManager (manager_options_of f))),
          or_exit (SetupWithManager E (reconciler_of E f)),
          or_exit (perform E (AddHealthzCheck ''healthz'')),
          or_exit (perform E (AddReadyzCheck ''readyz'')),
          or_exit (perform E Start)])"

definition process :: "'h setup_env \<Rightarrow> 'h setup_step" where
  "process E = run_steps (init E @ main E)"

section \<open>Properties\<close>

text \<open>The calls in the order of the code, each with the end of the process when it fails.\<close>

definition planned :: "'h setup_env \<Rightarrow> (call \<times> (goerror \<Rightarrow> stop)) list" where
  "planned E = (let f = Parse E default_flags in
     [(AddClientGoScheme, MustPanic), (AddToScheme topolvm_types, MustPanic), (GetConfig, \<lambda>e. OsExit 1),
      (NewManager (manager_options_of f), \<lambda>e. OsExit 1),
      (Complete ''VolumeGroup'' (reconciler_of E f), \<lambda>e. OsExit 1), (AddHealthzCheck ''healthz'', \<lambda>e. OsExit 1),
      (AddReadyzCheck ''readyz'', \<lambda>e. OsExit 1), (Start, \<lambda>e. OsExit 1)])"

definition makes :: "call \<times> (goerror \<Rightarrow> stop) \<Rightarrow> 'h setup_step \<Rightarrow> bool" where
  "makes p s \<longleftrightarrow> (\<forall>w. \<exists>e w'. s w = (map_option (snd p) e, w') \<and> su_trace w' = su_trace w @ [(fst p, e)])"

lemma makes_steps:
  "makes (c, MustPanic) (must (perform E c))" "makes (c, \<lambda>e. OsExit 1) (or_exit (perform E c))"
  by (auto simp: makes_def must_def or_exit_def perform_def split: prod.split option.split)

lemma planned_steps: "list_all2 makes (planned E) (init E @ main E)"
  by (simp add: planned_def init_def main_def Let_def makes_steps SetupWithManager_def)

text \<open>How far the steps came: all of them without an error, or up to the first error.\<close>

definition came_to ::
  "(call \<times> (goerror \<Rightarrow> stop)) list \<Rightarrow> (call \<times> goerror option) list \<Rightarrow> stop option \<Rightarrow> bool" where
  "came_to ps es r \<longleftrightarrow>
     (if r = None then es = map (\<lambda>p. (fst p, None)) ps
      else \<exists>n e. n < length ps \<and> r = Some (snd (ps ! n) e) \<and>
        es = map (\<lambda>p. (fst p, None)) (take n ps) @ [(fst (ps ! n), Some e)])"

lemma run_steps_came_to:
  assumes "list_all2 makes ps ss" and "run_steps ss w = (r, w')"
  shows "\<exists>es. su_trace w' = su_trace w @ es \<and> came_to ps es r"
  using assms
proof (induction arbitrary: w rule: list_all2_induct)
  case Nil
  then show ?case by (simp add: came_to_def)
next
  case (Cons p ps s ss)
  obtain e w1 where s: "s w = (map_option (snd p) e, w1)" and e: "su_trace w1 = su_trace w @ [(fst p, e)]"
    using Cons.hyps(1) unfolding makes_def by blast
  show ?case
  proof (cases e)
    case None
    with Cons.prems s have "run_steps ss w1 = (r, w')" by simp
    from Cons.IH [OF this] obtain es where es: "su_trace w' = su_trace w1 @ es" "came_to ps es r" by blast
    have "came_to (p # ps) ((fst p, None) # es) r"
    proof (cases r)
      case (Some x)
      with es(2) obtain n y where "n < length ps" "r = Some (snd (ps ! n) y)"
        "es = map (\<lambda>p. (fst p, None)) (take n ps) @ [(fst (ps ! n), Some y)]"
        by (auto simp: came_to_def)
      with Some show ?thesis unfolding came_to_def by (auto intro!: exI [of _ "Suc n"] exI [of _ y])
    qed (use es(2) in \<open>simp add: came_to_def\<close>)
    with None e es(1) show ?thesis by (intro exI [of _ "(fst p, None) # es"]) simp
  next
    case (Some x)
    with Cons.prems s e show ?thesis
      by (intro exI [of _ "[(fst p, e)]"]) (auto simp: came_to_def intro!: exI [of _ 0])
  qed
qed

lemma process_came_to:
  "process E w = (r, w') \<Longrightarrow> \<exists>es. su_trace w' = su_trace w @ es \<and> came_to (planned E) es r"
  unfolding process_def by (rule run_steps_came_to [OF planned_steps])

lemma came_to_calls: "came_to ps es r \<Longrightarrow> (c, e) \<in> set es \<Longrightarrow> c \<in> fst ` set ps"
  by (force simp: came_to_def split: if_splits dest: in_set_takeD)

text \<open>
  C20. The process makes its calls in one order and stops at the first that fails, with a panic of
  a scheme registration or the exit status 1: the manager is started only after the types are
  registered, the controller is set up and both checks are there, and \<open>main\<close> returns only when
  everything succeeded.
\<close>

theorem startup_order:
  assumes "process E w = (r, w')" and "su_trace w' = su_trace w @ es"
  shows "came_to (planned E) es r \<and>
    (\<forall>e. (Start, e) \<in> set es \<longrightarrow>
       es = map (\<lambda>p. (fst p, None)) (butlast (planned E)) @ [(Start, e)] \<and>
       r = map_option (\<lambda>x. OsExit 1) e)"
proof -
  have c: "came_to (planned E) es r" using process_came_to [OF assms(1)] assms(2) by auto
  have "es = map (\<lambda>p. (fst p, None)) (butlast (planned E)) @ [(Start, e)] \<and> r = map_option (\<lambda>x. OsExit 1) e"
    if s: "(Start, e) \<in> set es" for e
  proof (cases r)
    case None
    with c s show ?thesis by (auto simp: came_to_def planned_def Let_def)
  next
    case (Some x)
    with c obtain n y where n: "n < length (planned E)" "r = Some (snd (planned E ! n) y)"
      "es = map (\<lambda>p. (fst p, None)) (take n (planned E)) @ [(fst (planned E ! n), Some y)]"
      by (auto simp: came_to_def)
    have "n < 8" using n(1) by (simp add: planned_def Let_def)
    then have "n \<in> {0, 1, 2, 3, 4, 5, 6, 7}" by auto
    then show ?thesis using n(2,3) s by (auto simp: planned_def Let_def)
  qed
  with c show ?thesis by blast
qed

definition demo_setup :: "bool setup_env" where
  "demo_setup = \<lparr>Parse = \<lambda>f. f, Getenv = \<lambda>v. if v = ''NODE_NAME'' then ''node1'' else [],
     Perform = \<lambda>c up. if c = Start \<and> \<not> up then (Some (Leaf ''start'' ''leader election lost''), up) else (None, up)\<rparr>"

definition demo_setup_world :: "bool \<Rightarrow> bool setup_world" where
  "demo_setup_world up = \<lparr>su_host = up, su_trace = []\<rparr>"

theorem startup_order_witness:
  "\<exists>w' es. process demo_setup (demo_setup_world False) = (Some (OsExit 1), w') \<and>
     su_trace w' = es @ [(Start, Some (Leaf ''start'' ''leader election lost''))] \<and> length es = 7"
proof -
  obtain r w' where run: "process demo_setup (demo_setup_world False) = (r, w')" by fastforce
  have "map snd (su_trace (snd (process demo_setup (demo_setup_world False)))) \<noteq> [] \<and>
      last (su_trace (snd (process demo_setup (demo_setup_world False)))) =
        (Start, Some (Leaf ''start'' ''leader election lost''))"
    by code_simp
  with run have "(Start, Some (Leaf ''start'' ''leader election lost'')) \<in> set (su_trace w')"
    by (metis last_in_set list.map_disc_iff snd_conv)
  moreover have "su_trace w' = su_trace (demo_setup_world False) @ su_trace w'"
    by (simp add: demo_setup_world_def)
  ultimately have "su_trace w' = map (\<lambda>p. (fst p, None)) (butlast (planned demo_setup)) @
      [(Start, Some (Leaf ''start'' ''leader election lost''))] \<and> r = Some (OsExit 1)"
    using startup_order [OF run] by fastforce
  then show ?thesis using run by (simp add: planned_def Let_def)
qed

text \<open>
  C28. Whatever the flags, the manager that is made serves metrics over TLS exactly with the filter
  that authenticates and authorises, so with untouched flags it does; the one controller that is
  set up watches a registered type, for the node named in the environment, and at the interval of
  the flag, by default ten seconds.
\<close>

theorem startup_options:
  assumes "process E w = (r, w')" and "su_trace w' = su_trace w @ es"
  shows "(\<forall>o1 e. (NewManager o1, e) \<in> set es \<longrightarrow>
      o1 = manager_options_of (Parse E default_flags) \<and>
      (mt_SecureServing (mo_Metrics o1) \<longleftrightarrow> mt_FilterProvider (mo_Metrics o1) \<noteq> None) \<and>
      (Parse E default_flags = default_flags \<longrightarrow>
        mt_FilterProvider (mo_Metrics o1) = Some WithAuthenticationAndAuthorization)) \<and>
    (\<forall>k rec e. (Complete k rec, e) \<in> set es \<longrightarrow>
      (\<exists>e'. (AddToScheme topolvm_types, e') \<in> set es) \<and> (GroupVersion, k) \<in> set topolvm_types \<and>
      rec_NodeName rec = Getenv E ''NODE_NAME'' \<and>
      rec_SyncInterval rec = volumeGroupSyncInterval (Parse E default_flags) \<and>
      (Parse E default_flags = default_flags \<longrightarrow> rec_SyncInterval rec = 10000000000))"
proof -
  have c: "came_to (planned E) es r" using process_came_to [OF assms(1)] assms(2) by auto
  note calls = came_to_calls [OF c]
  have mgr: "o1 = manager_options_of (Parse E default_flags)" if "(NewManager o1, e) \<in> set es" for o1 e
    using calls [OF that] by (simp add: planned_def Let_def)
  have ctl: "k = ''VolumeGroup''" "rec = reconciler_of E (Parse E default_flags)"
    if "(Complete k rec, e) \<in> set es" for k rec e
    using calls [OF that] by (simp_all add: planned_def Let_def)
  have reg: "\<exists>e'. (AddToScheme topolvm_types, e') \<in> set es" if k: "(Complete k rec, e) \<in> set es" for k rec e
  proof (cases r)
    case None
    with c show ?thesis by (auto simp: came_to_def planned_def Let_def)
  next
    case (Some x)
    with c obtain n y where n: "n < length (planned E)"
      "es = map (\<lambda>p. (fst p, None)) (take n (planned E)) @ [(fst (planned E ! n), Some y)]"
      by (auto simp: came_to_def)
    have "n < 8" using n(1) by (simp add: planned_def Let_def)
    then have "n \<in> {0, 1, 2, 3, 4, 5, 6, 7}" by auto
    then show ?thesis using n(2) k by (auto simp: planned_def Let_def)
  qed
  have types: "(GroupVersion, ''VolumeGroup'') \<in> set topolvm_types"
    by (simp add: topolvm_types_def registered_kinds_def)
  have secure: "(mt_SecureServing (metrics_options_of f) \<longleftrightarrow> mt_FilterProvider (metrics_options_of f) \<noteq> None) \<and>
      (f = default_flags \<longrightarrow> mt_FilterProvider (metrics_options_of f) = Some WithAuthenticationAndAuthorization)" for f
    by (simp add: metrics_options_of_def Let_def default_flags_def)
  have wired: "rec_NodeName (reconciler_of E f) = Getenv E ''NODE_NAME''"
    "rec_SyncInterval (reconciler_of E f) = volumeGroupSyncInterval f"
    "volumeGroupSyncInterval default_flags = 10000000000" for f
    by (simp_all add: reconciler_of_def default_flags_def)
  have metrics: "mo_Metrics (manager_options_of f) = metrics_options_of f" for f
    by (simp add: manager_options_of_def)
  show ?thesis
  proof (intro conjI allI impI)
    fix o1 e assume "(NewManager o1, e) \<in> set es"
    from mgr [OF this] show "o1 = manager_options_of (Parse E default_flags)"
      "mt_SecureServing (mo_Metrics o1) \<longleftrightarrow> mt_FilterProvider (mo_Metrics o1) \<noteq> None"
      "Parse E default_flags = default_flags \<Longrightarrow>
        mt_FilterProvider (mo_Metrics o1) = Some WithAuthenticationAndAuthorization"
      using secure by (simp_all add: metrics)
  next
    fix k rec e assume k: "(Complete k rec, e) \<in> set es"
    from ctl [OF k] wired types
    show "(GroupVersion, k) \<in> set topolvm_types" "rec_NodeName rec = Getenv E ''NODE_NAME''"
      "rec_SyncInterval rec = volumeGroupSyncInterval (Parse E default_flags)"
      "Parse E default_flags = default_flags \<Longrightarrow> rec_SyncInterval rec = 10000000000"
      by simp_all
    show "\<exists>e'. (AddToScheme topolvm_types, e') \<in> set es" by (rule reg [OF k])
  qed
qed

theorem startup_options_witness:
  "\<exists>o1. (NewManager o1, None) \<in> set (su_trace (snd (process demo_setup (demo_setup_world True)))) \<and>
     mt_FilterProvider (mo_Metrics o1) = Some WithAuthenticationAndAuthorization"
proof -
  obtain r w' where run: "process demo_setup (demo_setup_world True) = (r, w')" by fastforce
  let ?o = "manager_options_of default_flags"
  have "(NewManager ?o, None) \<in> set (su_trace (snd (process demo_setup (demo_setup_world True))))"
    by code_simp
  with run have mem: "(NewManager ?o, None) \<in> set (su_trace w')" by simp
  have "su_trace w' = su_trace (demo_setup_world True) @ su_trace w'" by (simp add: demo_setup_world_def)
  from startup_options [OF run this] mem have "mt_FilterProvider (mo_Metrics ?o) = Some WithAuthenticationAndAuthorization"
    by (auto simp: demo_setup_def)
  with mem run show ?thesis by (intro exI [of _ ?o]) simp
qed

end
