(* ===== verification/Memory.thy ===== *)
theory Memory
  imports Prelude
begin

text \<open>
  Memory for the code whose point is aliasing: a heap of cells that only grows, pointers and
  slices into it, and the deep equality of two structures, each in its own heap. A program that
  copies is judged by what a reader finds behind the copy after the rest of the heap has changed
  at will.
\<close>

section \<open>Heaps\<close>

text \<open>An address is an index; \<open>new\<close> and \<open>make\<close> allocate at the end.\<close>

definition alloc :: "'c \<Rightarrow> 'c list \<Rightarrow> nat \<times> 'c list" where
  "alloc c h = (length h, h @ [c])"

definition store :: "nat \<Rightarrow> 'c \<Rightarrow> 'c list \<Rightarrow> 'c list" where
  "store a c h = h[a := c]"

text \<open>\<open>g\<close> has the cells of \<open>k\<close> from address \<open>n\<close> on; the others may be anything.\<close>

definition agrees :: "nat \<Rightarrow> 'c list \<Rightarrow> 'c list \<Rightarrow> bool" where
  "agrees n k g \<longleftrightarrow> length k \<le> length g \<and> (\<forall>a. n \<le> a \<and> a < length k \<longrightarrow> g ! a = k ! a)"

lemma agrees_refl [simp]: "agrees n k k"
  by (simp add: agrees_def)

lemma agrees_later: "agrees n k g \<Longrightarrow> n \<le> m \<Longrightarrow> agrees m k g"
  by (simp add: agrees_def)

lemma agrees_prefix: "agrees n k g \<Longrightarrow> prefix h k \<Longrightarrow> agrees n h g"
  by (auto simp: agrees_def prefix_def nth_append)

lemma agrees_0: "agrees 0 h g \<longleftrightarrow> prefix h g"
proof
  assume "agrees 0 h g"
  then have "take (length h) g = h" by (intro nth_equalityI) (auto simp: agrees_def)
  then show "prefix h g" by (metis append_take_drop_id prefixI)
qed (auto simp: agrees_def prefix_def nth_append)

lemma prefix_store: "prefix h k \<Longrightarrow> length h \<le> a \<Longrightarrow> prefix h (store a c k)"
  by (auto simp: store_def prefix_def list_update_append)

lemma length_store [simp]: "length (store a c h) = length h"
  by (simp add: store_def)

lemma nth_store: "b < length h \<Longrightarrow> store a c h ! b = (if a = b then c else h ! b)"
  by (auto simp: store_def nth_list_update)

section \<open>Slices\<close>

text \<open>A slice that is not nil: the cell of its array, its offset in there, its length.\<close>

record slice =
  sl_array :: nat
  sl_off :: nat
  sl_len :: nat

definition elems :: "('c \<Rightarrow> 'e list) \<Rightarrow> 'c list \<Rightarrow> slice \<Rightarrow> 'e list" where
  "elems dest h s = take (sl_len s) (drop (sl_off s) (dest (h ! sl_array s)))"

definition in_bounds :: "('e list \<Rightarrow> 'c) \<Rightarrow> 'c list \<Rightarrow> slice \<Rightarrow> bool" where
  "in_bounds mk h s \<longleftrightarrow> sl_array s < length h \<and>
     (\<exists>xs. h ! sl_array s = mk xs \<and> sl_off s + sl_len s \<le> length xs)"

section \<open>Deep equality\<close>

definition same_object ::
  "('e \<Rightarrow> 'c) \<Rightarrow> ('c list \<Rightarrow> 'e \<Rightarrow> 'c list \<Rightarrow> 'e \<Rightarrow> bool) \<Rightarrow>
   'c list \<Rightarrow> nat option \<Rightarrow> 'c list \<Rightarrow> nat option \<Rightarrow> bool" where
  "same_object mk R h p g q \<longleftrightarrow>
     (case (p, q) of
        (None, None) \<Rightarrow> True
      | (Some a, Some b) \<Rightarrow> a < length h \<and> b < length g \<and>
          (\<exists>x y. h ! a = mk x \<and> g ! b = mk y \<and> R h x g y)
      | _ \<Rightarrow> False)"

definition same_slice ::
  "('e list \<Rightarrow> 'c) \<Rightarrow> ('c \<Rightarrow> 'e list) \<Rightarrow> ('c list \<Rightarrow> 'e \<Rightarrow> 'c list \<Rightarrow> 'e \<Rightarrow> bool) \<Rightarrow>
   'c list \<Rightarrow> slice option \<Rightarrow> 'c list \<Rightarrow> slice option \<Rightarrow> bool" where
  "same_slice mk dest R h s g t \<longleftrightarrow>
     (case (s, t) of
        (None, None) \<Rightarrow> True
      | (Some s, Some t) \<Rightarrow> in_bounds mk h s \<and> in_bounds mk g t \<and>
          list_all2 (\<lambda>x y. R h x g y) (elems dest h s) (elems dest g t)
      | _ \<Rightarrow> False)"

lemma same_object_simps [simp]:
  "same_object mk R h None g q \<longleftrightarrow> q = None"
  "same_object mk R h (Some a) g q \<longleftrightarrow> (\<exists>b x y. q = Some b \<and> a < length h \<and> b < length g \<and>
     h ! a = mk x \<and> g ! b = mk y \<and> R h x g y)"
  by (auto simp: same_object_def split: option.split)

lemma same_slice_simps [simp]:
  "same_slice mk dest R h None g t \<longleftrightarrow> t = None"
  "same_slice mk dest R h (Some s) g t \<longleftrightarrow> (\<exists>u. t = Some u \<and> in_bounds mk h s \<and> in_bounds mk g u \<and>
     list_all2 (\<lambda>x y. R h x g y) (elems dest h s) (elems dest g u))"
  by (auto simp: same_slice_def split: option.split)

lemma elems_later:
  assumes "in_bounds mk h s" "prefix h g"
  shows "elems dest g s = elems dest h s" "in_bounds mk g s"
  using assms by (auto simp: elems_def in_bounds_def prefix_def nth_append)

text \<open>
  A structure that is deeply equal to itself is one without dangling pointers. Equality is
  symmetric, transitive, and not disturbed by allocations.
\<close>

locale deep_equality =
  fixes R :: "'c list \<Rightarrow> 'm \<Rightarrow> 'c list \<Rightarrow> 'm \<Rightarrow> bool"
  assumes same_sym: "R h x g y \<Longrightarrow> R g y h x"
    and same_trans: "R h x g y \<Longrightarrow> R g y k z \<Longrightarrow> R h x k z"
    and same_stable: "R h x h x \<Longrightarrow> prefix h g \<Longrightarrow> R h x g x"
begin

lemma refl_later: "R h x h x \<Longrightarrow> prefix h g \<Longrightarrow> R g x g x"
  using same_stable same_sym same_trans by blast

lemma on: "deep_equality (\<lambda>h x g y. R h (f x) g (f y))"
  by unfold_locales (blast intro: same_sym same_trans same_stable)+

lemma object:
  assumes "\<And>x. dest (mk x) = x"
  shows "deep_equality (same_object mk R)"
proof
  have inj: "mk x = mk y \<longleftrightarrow> x = y" for x y using assms by metis
  fix h x g y k z
  show "same_object mk R h x g y \<Longrightarrow> same_object mk R g y h x"
    by (cases x) (auto simp: inj intro: same_sym)
  show "same_object mk R h x g y \<Longrightarrow> same_object mk R g y k z \<Longrightarrow> same_object mk R h x k z"
    by (cases x) (auto simp: inj, metis same_trans)
  show "same_object mk R h x h x \<Longrightarrow> prefix h g \<Longrightarrow> same_object mk R h x g x"
    by (cases x) (auto simp: inj prefix_def nth_append intro: same_stable [OF _ prefixI])
qed

lemma slice: "deep_equality (same_slice mk dest R)"
proof
  have swap: "list_all2 (\<lambda>x y. R h x g y) xs ys \<Longrightarrow> list_all2 (\<lambda>x y. R g x h y) ys xs" for h g xs ys
    by (induction rule: list_all2_induct) (auto intro: same_sym)
  have chain: "list_all2 (\<lambda>x y. R h x g y) xs ys \<Longrightarrow> list_all2 (\<lambda>x y. R g x k y) ys zs \<Longrightarrow>
      list_all2 (\<lambda>x y. R h x k y) xs zs" for h g k xs ys zs
    by (rule list_all2_trans) (rule same_trans)
  fix h x g y k z
  show "same_slice mk dest R h x g y \<Longrightarrow> same_slice mk dest R g y h x"
    by (cases x) (auto intro: swap)
  show "same_slice mk dest R h x g y \<Longrightarrow> same_slice mk dest R g y k z \<Longrightarrow> same_slice mk dest R h x k z"
    by (cases x) (auto, metis chain)
  assume valid: "same_slice mk dest R h x h x" and pre: "prefix h g"
  show "same_slice mk dest R h x g x"
  proof (cases x)
    case (Some s)
    with valid pre show ?thesis
      by (auto simp: elems_later [of mk h s g] list_all2_same intro: same_stable)
  qed simp
qed

end

named_theorems deep_equalities \<open>rules that prove a relation of structs a deep equality\<close>

lemma deep_equality_conj [deep_equalities]:
  assumes "deep_equality R" "deep_equality S"
  shows "deep_equality (\<lambda>h x g y. R h x g y \<and> S h x g y)"
proof
  fix h x g y k z
  note R = assms(1) [unfolded deep_equality_def] and S = assms(2) [unfolded deep_equality_def]
  show "R h x g y \<and> S h x g y \<Longrightarrow> R g y h x \<and> S g y h x" using R S by meson
  show "R h x g y \<and> S h x g y \<Longrightarrow> R g y k z \<and> S g y k z \<Longrightarrow> R h x k z \<and> S h x k z"
    using R S by meson
  show "R h x h x \<and> S h x h x \<Longrightarrow> prefix h g \<Longrightarrow> R h x g x \<and> S h x g x" using R S by meson
qed

lemma deep_equality_eq [deep_equalities]: "deep_equality (\<lambda>h x g y. f x = f y)"
  by unfold_locales simp_all

section \<open>Copies\<close>

text \<open>
  What a copy promises of its result: the heap it started from is still there, and \<open>Q\<close> holds of
  the result in every heap that has the cells allocated on the way, whatever became of the others.
\<close>

definition copied :: "'c list \<Rightarrow> ('c list \<Rightarrow> 'o \<Rightarrow> bool) \<Rightarrow> 'o \<times> 'c list \<Rightarrow> bool" where
  "copied h Q s \<longleftrightarrow> prefix h (snd s) \<and> (\<forall>g. agrees (length h) (snd s) g \<longrightarrow> Q g (fst s))"

lemma copied_mono: "copied h P s \<Longrightarrow> (\<And>g. P g (fst s) \<Longrightarrow> Q g (fst s)) \<Longrightarrow> copied h Q s"
  by (simp add: copied_def)

lemma copied_start: "(\<And>g. Q g o1) \<Longrightarrow> copied h Q (o1, h)"
  by (simp add: copied_def)

text \<open>
  One statement of a \<open>DeepCopyInto\<close>: the field \<open>x\<close> of the receiver is copied, and the result is
  assigned to the field of \<open>out\<close>. The state is \<open>out\<close> with the heap.
\<close>

definition field ::
  "'x \<Rightarrow> ('x \<Rightarrow> 'o \<Rightarrow> 'o) \<Rightarrow> ('x \<Rightarrow> 'c list \<Rightarrow> 'x \<times> 'c list) \<Rightarrow> 'o \<times> 'c list \<Rightarrow> 'o \<times> 'c list" where
  "field x upd copy s = (let (y, h) = copy x (snd s) in (upd y (fst s), h))"

text \<open>The statements in the order of the code.\<close>

fun in_order :: "('s \<Rightarrow> 's) list \<Rightarrow> 's \<Rightarrow> 's" where
  "in_order [] s = s"
| "in_order (f # fs) s = in_order fs (f s)"

text \<open>\<open>out := new(T); in.DeepCopyInto(out); return out\<close>\<close>

definition DeepCopy_object ::
  "('e \<Rightarrow> 'c) \<Rightarrow> ('c \<Rightarrow> 'e) \<Rightarrow> 'e \<Rightarrow> ('e \<Rightarrow> 'c list \<Rightarrow> 'e \<times> 'c list) \<Rightarrow> nat option \<Rightarrow> 'c list \<Rightarrow>
   nat option \<times> 'c list" where
  "DeepCopy_object mk dest zero copy p h =
     (case p of
        None \<Rightarrow> (None, h)
      | Some a \<Rightarrow> (let (b, h1) = alloc (mk zero) h; (y, h2) = copy (dest (h1 ! a)) h1
                   in (Some b, store b (mk y) h2)))"

text \<open>\<open>make([]T, n)\<close>, then every element is copied into its place.\<close>

function copy_elems ::
  "('e list \<Rightarrow> 'c) \<Rightarrow> ('c \<Rightarrow> 'e list) \<Rightarrow> ('e \<Rightarrow> 'c list \<Rightarrow> 'e \<times> 'c list) \<Rightarrow> slice \<Rightarrow> nat \<Rightarrow> nat \<Rightarrow>
   'c list \<Rightarrow> 'c list" where
  "copy_elems mk dest copy s b i h =
     (if i < sl_len s
      then (let (y, h') = copy (elems dest h s ! i) h
            in copy_elems mk dest copy s b (Suc i) (store b (mk ((dest (h' ! b))[i := y])) h'))
      else h)"
  by pat_completeness auto
termination by (relation "measure (\<lambda>(mk, dest, copy, s, b, i, h). sl_len s - i)") auto

declare copy_elems.simps [simp del]

definition make_copy ::
  "('e list \<Rightarrow> 'c) \<Rightarrow> ('c \<Rightarrow> 'e list) \<Rightarrow> 'e \<Rightarrow> ('e \<Rightarrow> 'c list \<Rightarrow> 'e \<times> 'c list) \<Rightarrow> slice \<Rightarrow> 'c list \<Rightarrow>
   slice \<times> 'c list" where
  "make_copy mk dest zero copy s h =
     (let (b, h1) = alloc (mk (replicate (sl_len s) zero)) h
      in (\<lparr>sl_array = b, sl_off = 0, sl_len = sl_len s\<rparr>, copy_elems mk dest copy s b 0 h1))"

text \<open>The same behind \<open>if in.F != nil\<close>.\<close>

definition DeepCopy_slice ::
  "('e list \<Rightarrow> 'c) \<Rightarrow> ('c \<Rightarrow> 'e list) \<Rightarrow> 'e \<Rightarrow> ('e \<Rightarrow> 'c list \<Rightarrow> 'e \<times> 'c list) \<Rightarrow> slice option \<Rightarrow>
   'c list \<Rightarrow> slice option \<times> 'c list" where
  "DeepCopy_slice mk dest zero copy s h =
     (case s of None \<Rightarrow> (None, h) | Some s \<Rightarrow> apfst Some (make_copy mk dest zero copy s h))"

locale copier = deep_equality R
  for R :: "'c list \<Rightarrow> 'm \<Rightarrow> 'c list \<Rightarrow> 'm \<Rightarrow> bool" +
  fixes copy :: "'m \<Rightarrow> 'c list \<Rightarrow> 'm \<times> 'c list"
  assumes copies: "R h x h x \<Longrightarrow> copied h (R h x) (copy x h)"
begin

lemma copies_later:
  assumes "R h x h x" "prefix h k" "copy x k = (y, k')"
  shows "prefix k k'" "agrees (length k) k' g \<Longrightarrow> R h x g y"
proof -
  have "copied k (R k x) (y, k')"
    using copies [OF refl_later [OF assms(1,2)]] assms(3) by simp
  then show pre: "prefix k k'" and "agrees (length k) k' g \<Longrightarrow> R h x g y"
    using same_trans [OF same_stable [OF assms(1,2)]] by (auto simp: copied_def)
qed

lemma field_copied:
  assumes "R h x h x" "copied h (\<lambda>g o1. \<forall>y. R h x g y \<longrightarrow> Q g (upd y o1)) s"
  shows "copied h Q (field x upd copy s)"
proof -
  obtain y k where run: "copy x (snd s) = (y, k)" by fastforce
  have pre: "prefix h (snd s)" using assms(2) by (simp add: copied_def)
  note c = copies_later [OF assms(1) pre run]
  have "Q g (upd y (fst s))" if "agrees (length h) k g" for g
    using assms(2) c(2) [OF agrees_later [OF that prefix_length_le [OF pre]]] agrees_prefix [OF that c(1)]
    by (simp add: copied_def)
  then show ?thesis
    using pre c(1) by (auto simp: copied_def field_def run intro: prefix_order.trans)
qed

lemma object_copied:
  assumes "same_object mk R h p h p" and inv: "\<And>x. dest (mk x) = x"
  shows "copied h (same_object mk R h p) (DeepCopy_object mk dest zero copy p h)"
proof (cases p)
  case (Some a)
  have inj: "mk x = mk y \<longleftrightarrow> x = y" for x y using inv by metis
  from Some assms(1) obtain x where x: "a < length h" "h ! a = mk x" "R h x h x"
    by (auto simp: inj)
  let ?h = "h @ [mk zero]"
  obtain y k where run: "copy x ?h = (y, k)" by fastforce
  have pre: "prefix h ?h" by simp
  note c = copies_later [OF x(3) pre run]
  let ?k = "store (length h) (mk y) k"
  have len: "length h < length k" using prefix_length_le [OF c(1)] by simp
  have "prefix h ?k" using c(1) prefix_order.trans [OF pre] by (intro prefix_store) auto
  moreover have "same_object mk R h p g (Some (length h))" if g: "agrees (length h) ?k g" for g
  proof -
    have "agrees (length ?h) k g" using g by (auto simp: agrees_def nth_store)
    then have "R h x g y" by (rule c(2))
    with Some x g len show ?thesis by (auto simp: agrees_def nth_store)
  qed
  ultimately show ?thesis
    using Some x run inv by (simp add: DeepCopy_object_def alloc_def nth_append copied_def)
qed (simp add: DeepCopy_object_def copied_def)

text \<open>
  The copy of an object is a new object, equal to the old one and independent of it in both
  directions.
\<close>

lemma object_independent:
  assumes valid: "same_object mk R h (Some a) h (Some a)" and inv: "\<And>x. dest (mk x) = x"
  obtains h' where "DeepCopy_object mk dest zero copy (Some a) h = (Some (length h), h')"
    "length h < length h'"
    "\<And>g. agrees (length h) h' g \<Longrightarrow> same_object mk R h (Some a) g (Some (length h))"
    "\<And>g. agrees 0 h g \<Longrightarrow> same_object mk R h (Some a) g (Some a)"
proof -
  have "fst (DeepCopy_object mk dest zero copy (Some a) h) = Some (length h)"
    by (simp add: DeepCopy_object_def alloc_def split: prod.split)
  then obtain h' where run: "DeepCopy_object mk dest zero copy (Some a) h = (Some (length h), h')"
    by (metis prod.collapse)
  have new: "same_object mk R h (Some a) g (Some (length h))" if "agrees (length h) h' g" for g
    using object_copied [where mk = mk and dest = dest and zero = zero, OF valid inv] that run
    by (simp add: copied_def)
  moreover have "length h < length h'" using new [OF agrees_refl] by auto
  moreover have "same_object mk R h (Some a) g (Some a)" if "agrees 0 h g" for g
    using deep_equality.same_stable [OF object [where mk = mk and dest = dest, OF inv] valid] that
    by (simp add: agrees_0)
  ultimately show thesis using run that by blast
qed

text \<open>The loop: the elements before \<open>i\<close> are copied, and the array is where it was.\<close>

lemma copy_elems_copied:
  assumes "in_bounds mk h s" "\<forall>x \<in> set (elems dest h s). R h x h x" and inv: "\<And>xs. dest (mk xs) = xs"
    and "prefix h k" "length h < length k" "k ! length h = mk ys" "length ys = sl_len s" "i \<le> sl_len s"
    and "\<And>g. agrees (Suc (length h)) k g \<Longrightarrow> \<forall>j < i. R h (elems dest h s ! j) g (ys ! j)"
  shows "\<exists>k' ys'. copy_elems mk dest copy s (length h) i k = k' \<and> prefix h k' \<and> length h < length k' \<and>
    k' ! length h = mk ys' \<and> length ys' = sl_len s \<and>
    (\<forall>g. agrees (Suc (length h)) k' g \<longrightarrow> (\<forall>j < sl_len s. R h (elems dest h s ! j) g (ys' ! j)))"
  using assms(4-)
proof (induction "sl_len s - i" arbitrary: i k ys)
  case 0
  then show ?case by (intro exI [of _ k] exI [of _ ys]) (simp add: copy_elems.simps)
next
  case (Suc n)
  then have i: "i < sl_len s" by simp
  have len: "length (elems dest h s) = sl_len s"
    using assms(1) inv by (auto simp: in_bounds_def elems_def)
  let ?x = "elems dest h s ! i"
  obtain y k1 where run: "copy ?x k = (y, k1)" by fastforce
  have "R h ?x h ?x" using assms(2) i len by simp
  note c = copies_later [OF this Suc.prems(1) run]
  let ?k = "store (length h) (mk (ys[i := y])) k1"
  have k1: "k1 ! length h = mk ys" "length h < length k1"
    using c(1) Suc.prems(2,3) by (auto simp: prefix_def nth_append)
  have step: "copy_elems mk dest copy s (length h) i k = copy_elems mk dest copy s (length h) (Suc i) ?k"
    using i run k1 elems_later(1) [OF assms(1) Suc.prems(1), of dest] inv
    by (simp add: copy_elems.simps [of _ _ _ _ _ i])
  have pre: "prefix h ?k"
    using prefix_order.trans [OF Suc.prems(1) c(1)] by (intro prefix_store) auto
  have new: "\<forall>j < Suc i. R h (elems dest h s ! j) g (ys[i := y] ! j)"
    if g: "agrees (Suc (length h)) ?k g" for g
  proof -
    have g1: "agrees (Suc (length h)) k1 g" using g by (auto simp: agrees_def nth_store)
    have "R h ?x g y" using Suc.prems(2) by (intro c(2) agrees_later [OF g1]) simp
    moreover have "\<forall>j < i. R h (elems dest h s ! j) g (ys ! j)"
      by (intro Suc.prems(6) agrees_prefix [OF g1 c(1)])
    ultimately show ?thesis using i Suc.prems(4) by (auto simp: less_Suc_eq)
  qed
  show ?case
    unfolding step
    by (rule Suc.hyps(1) [of "Suc i" ?k "ys[i := y]"])
      (use Suc.hyps(2) i k1 Suc.prems(4) pre new in \<open>auto simp: nth_store\<close>)
qed

lemma slice_copied:
  assumes "same_slice mk dest R h s h s" and inv: "\<And>xs. dest (mk xs) = xs"
  shows "copied h (same_slice mk dest R h s) (DeepCopy_slice mk dest zero copy s h)"
proof (cases s)
  case (Some u)
  let ?k = "h @ [mk (replicate (sl_len u) zero)]"
  have u: "in_bounds mk h u" "\<forall>x \<in> set (elems dest h u). R h x h x"
    using assms(1) Some by (auto simp: list_all2_same)
  have len: "length (elems dest h u) = sl_len u"
    using u(1) inv by (auto simp: in_bounds_def elems_def)
  obtain k ys where k: "copy_elems mk dest copy u (length h) 0 ?k = k"
    and ys: "prefix h k" "length h < length k" "k ! length h = mk ys" "length ys = sl_len u"
      "\<And>g. agrees (Suc (length h)) k g \<Longrightarrow> \<forall>j < sl_len u. R h (elems dest h u ! j) g (ys ! j)"
    using copy_elems_copied [OF u inv, of ?k "replicate (sl_len u) zero" 0] by auto
  have "same_slice mk dest R h s g (Some \<lparr>sl_array = length h, sl_off = 0, sl_len = sl_len u\<rparr>)"
    if g: "agrees (length h) k g" for g
  proof -
    have "g ! length h = mk ys" "length h < length g" using g ys(2,3) by (auto simp: agrees_def)
    then have "elems dest g \<lparr>sl_array = length h, sl_off = 0, sl_len = sl_len u\<rparr> = ys"
      "in_bounds mk g \<lparr>sl_array = length h, sl_off = 0, sl_len = sl_len u\<rparr>"
      using ys(4) inv by (auto simp: elems_def in_bounds_def)
    with Some u(1) len ys(4) ys(5) [OF agrees_later [OF g]] show ?thesis
      by (auto simp: list_all2_conv_all_nth)
  qed
  with Some ys(1) show ?thesis
    by (simp add: DeepCopy_slice_def make_copy_def alloc_def copied_def k)
qed (simp add: DeepCopy_slice_def copied_def)

lemma slice_copier:
  assumes "\<And>xs. dest (mk xs) = xs"
  shows "copier (same_slice mk dest R) (DeepCopy_slice mk dest zero copy)"
  using slice slice_copied [OF _ assms] by (simp add: copier_def copier_axioms_def)

lemma object_copier:
  assumes "\<And>x. dest (mk x) = x"
  shows "copier (same_object mk R) (DeepCopy_object mk dest zero copy)"
  using object [OF assms] object_copied [OF _ assms] by (simp add: copier_def copier_axioms_def)

end

section \<open>Copies of plain values\<close>

text \<open>
  What is not followed: strings, numbers, and the structs of other packages, which bring their
  own copy as a function of values.
\<close>

definition same_value :: "'c list \<Rightarrow> 'v \<Rightarrow> 'c list \<Rightarrow> 'v \<Rightarrow> bool" where
  "same_value h x g y \<longleftrightarrow> x = y"

definition value_copy :: "('v \<Rightarrow> 'v) \<Rightarrow> 'v \<Rightarrow> 'c list \<Rightarrow> 'v \<times> 'c list" where
  "value_copy f x h = (f x, h)"

text \<open>\<open>*out = new(T); **out = **in\<close>\<close>

definition new_copy ::
  "('v \<Rightarrow> 'c) \<Rightarrow> ('c \<Rightarrow> 'v) \<Rightarrow> 'v \<Rightarrow> nat option \<Rightarrow> 'c list \<Rightarrow> nat option \<times> 'c list" where
  "new_copy mk dest zero p h =
     (case p of
        None \<Rightarrow> (None, h)
      | Some a \<Rightarrow> (let (b, h1) = alloc (mk zero) h in (Some b, store b (mk (dest (h1 ! a))) h1)))"

text \<open>\<open>x := ( *in).DeepCopy(); *out = &x\<close>\<close>

definition boxed_copy ::
  "('v \<Rightarrow> 'c) \<Rightarrow> ('c \<Rightarrow> 'v) \<Rightarrow> ('v \<Rightarrow> 'v) \<Rightarrow> nat option \<Rightarrow> 'c list \<Rightarrow> nat option \<times> 'c list" where
  "boxed_copy mk dest f p h =
     (case p of None \<Rightarrow> (None, h) | Some a \<Rightarrow> apfst Some (alloc (mk (f (dest (h ! a)))) h))"

text \<open>\<open>*out = make([]T, len( *in)); copy( *out, *in)\<close>\<close>

definition builtin_copy ::
  "('v list \<Rightarrow> 'c) \<Rightarrow> ('c \<Rightarrow> 'v list) \<Rightarrow> 'v \<Rightarrow> slice option \<Rightarrow> 'c list \<Rightarrow> slice option \<times> 'c list" where
  "builtin_copy mk dest zero s h =
     (case s of
        None \<Rightarrow> (None, h)
      | Some s \<Rightarrow> (let (b, h1) = alloc (mk (replicate (sl_len s) zero)) h
                   in (Some \<lparr>sl_array = b, sl_off = 0, sl_len = sl_len s\<rparr>,
                       store b (mk (elems dest h1 s)) h1)))"

interpretation plain: copier same_value "value_copy (\<lambda>x. x)"
  by unfold_locales (simp_all add: same_value_def value_copy_def copied_def)

lemma value_copier: "(\<And>x. f x = x) \<Longrightarrow> copier same_value (value_copy f)"
  using plain.copier_axioms by (simp add: value_copy_def [abs_def])

lemma new_copier:
  assumes "\<And>x. dest (mk x) = x"
  shows "copier (same_object mk same_value) (new_copy mk dest zero)"
proof -
  have inj: "mk x = mk y \<longleftrightarrow> x = y" for x y using assms by metis
  have "copied h (same_object mk same_value h p) (new_copy mk dest zero p h)"
    if "same_object mk same_value h p h p" for h p
    using that by (cases p)
      (auto simp: new_copy_def copied_def alloc_def inj same_value_def assms nth_append agrees_def
        store_def list_update_append)
  with plain.object [where mk = mk and dest = dest, OF assms] show ?thesis by (simp add: copier_def copier_axioms_def)
qed

lemma boxed_copier:
  assumes "\<And>x. dest (mk x) = x" "\<And>x. f x = x"
  shows "copier (same_object mk same_value) (boxed_copy mk dest f)"
proof -
  have inj: "mk x = mk y \<longleftrightarrow> x = y" for x y using assms(1) by metis
  have "copied h (same_object mk same_value h p) (boxed_copy mk dest f p h)"
    if "same_object mk same_value h p h p" for h p
    using that by (cases p)
      (auto simp: boxed_copy_def copied_def alloc_def inj same_value_def assms nth_append agrees_def)
  with plain.object [where mk = mk and dest = dest, OF assms(1)] show ?thesis by (simp add: copier_def copier_axioms_def)
qed

lemma builtin_copier:
  assumes "\<And>x. dest (mk x) = x"
  shows "copier (same_slice mk dest same_value) (builtin_copy mk dest zero)"
proof -
  have "copied h (same_slice mk dest same_value h s) (builtin_copy mk dest zero s h)"
    if "same_slice mk dest same_value h s h s" for h s
  proof (cases s)
    case (Some u)
    then have u: "in_bounds mk h u" using that by simp
    have len: "length (elems dest h u) = sl_len u" using u assms by (auto simp: in_bounds_def elems_def)
    have "same_slice mk dest same_value h s g (Some \<lparr>sl_array = length h, sl_off = 0, sl_len = sl_len u\<rparr>)"
      if "agrees (length h) (h @ [mk (elems dest h u)]) g" for g
    proof -
      have "g ! length h = mk (elems dest h u)" "length h < length g" using that by (auto simp: agrees_def)
      with Some u len show ?thesis
        by (auto simp: in_bounds_def elems_def assms same_value_def list_all2_same)
    qed
    moreover have "elems dest (h @ xs) u = elems dest h u" for xs by (rule elems_later(1) [OF u]) simp
    ultimately show ?thesis
      using Some by (simp add: builtin_copy_def alloc_def copied_def store_def)
  qed (simp add: builtin_copy_def copied_def)
  with plain.slice show ?thesis by (simp add: copier_def copier_axioms_def)
qed

end
