(* ===== verification/DeepCopy.thy ===== *)
theory DeepCopy
  imports Memory Api
begin

text \<open>
  \<open>api/v1alpha1/zz_generated.deepcopy.go\<close>. Here the structs are the ones in memory: a pointer field
  is an address or nil, a slice field a \<open>slice\<close> or nil, and what they point to is a cell of the
  heap. A \<open>DeepCopyInto\<close> takes the struct it reads and returns the one it writes through \<open>out\<close>,
  starting from \<open>*out = *in\<close>, statement by statement. The copies that apimachinery provides, of a
  quantity, a condition and the metadata, are parameters.
\<close>

section \<open>Structs in memory\<close>

record RequirementMem =
  mreq_Key :: LSBLKSelectorKey
  mreq_Operator :: PVSelectorOperator
  mreq_Values :: "slice option"

record TermMem =
  mterm_MatchLSBLK :: "slice option"

type_synonym SelectorMem = "slice option"

record SpecMem =
  mspec_NodeName :: string
  mspec_NameOnNode :: "nat option"
  mspec_PhysicalVolumeSelector :: "slice option"
  mspec_Tags :: "slice option"
  mspec_MaximumLogicalVolumes :: "nat option"
  mspec_MaximumPhysicalVolumes :: "nat option"
  mspec_PhysicalExtentSize :: "nat option"
  mspec_MetadataSize :: "nat option"
  mspec_AllocationPolicy :: "nat option"
  mspec_DataAlignment :: "nat option"
  mspec_DataAlignmentOffset :: "nat option"
  mspec_Devices :: "slice option"
  mspec_DevicesFile :: "nat option"
  mspec_Zero :: "nat option"
  mspec_AutoActivation :: "nat option"
  mspec_DeviceLossSynchronizationPolicy :: DeviceLossSynchronizationPolicy
  mspec_DeviceRemovalVolumePolicy :: DeviceRemovalVolumePolicy

record PVStatusMem =
  mpv_Name :: string
  mpv_UUID :: string
  mpv_DeviceSize :: "nat option"
  mpv_Attributes :: string
  mpv_Major :: int64
  mpv_Minor :: int64
  mpv_Size :: "nat option"
  mpv_Free :: "nat option"
  mpv_Used :: "nat option"
  mpv_MetadataAreaFree :: "nat option"
  mpv_MetadataAreaSize :: "nat option"
  mpv_PhysicalExtentStart :: "nat option"
  mpv_MetadataAreaCount :: int64
  mpv_MetadataAreaUsedCount :: int64
  mpv_Tags :: "slice option"
  mpv_DeviceID :: string
  mpv_DeviceIDType :: string

record StatusMem =
  mst_Name :: string
  mst_UUID :: string
  mst_SysID :: string
  mst_PhysicalVolumes :: "slice option"
  mst_Attributes :: string
  mst_Tags :: "slice option"
  mst_ExtentSize :: "nat option"
  mst_ExtentCount :: int64
  mst_SequenceNumber :: int64
  mst_Size :: "nat option"
  mst_Free :: "nat option"
  mst_PhysicalVolumeCount :: int64
  mst_MissingPhysicalVolumeCount :: int64
  mst_MaximumPhysicalVolumes :: int64
  mst_LogicalVolumeCount :: int64
  mst_MaximumLogicalVolumes :: int64
  mst_SnapshotCount :: int64
  mst_MetadataAreaCount :: int64
  mst_MetadataAreaUsedCount :: int64
  mst_Conditions :: "slice option"

record TypeMeta =
  tm_Kind :: string
  tm_APIVersion :: string

record VolumeGroupMem =
  mvg_TypeMeta :: TypeMeta
  mvg_ObjectMeta :: ObjectMeta
  mvg_Spec :: SpecMem
  mvg_Status :: StatusMem

record ListMeta =
  lm_SelfLink :: string
  lm_ResourceVersion :: string
  lm_Continue :: string
  lm_RemainingItemCount :: "int64 option"

record VolumeGroupListMem =
  mlist_TypeMeta :: TypeMeta
  mlist_ListMeta :: ListMeta
  mlist_Items :: "slice option"

text \<open>The values that \<open>new\<close> and \<open>make\<close> start from.\<close>

definition zero_RequirementMem :: RequirementMem where
  "zero_RequirementMem = \<lparr>mreq_Key = [], mreq_Operator = [], mreq_Values = None\<rparr>"

definition zero_TermMem :: TermMem where
  "zero_TermMem = \<lparr>mterm_MatchLSBLK = None\<rparr>"

definition zero_SpecMem :: SpecMem where
  "zero_SpecMem = \<lparr>mspec_NodeName = [], mspec_NameOnNode = None, mspec_PhysicalVolumeSelector = None, 
     mspec_Tags = None, mspec_MaximumLogicalVolumes = None, 
     mspec_MaximumPhysicalVolumes = None, mspec_PhysicalExtentSize = None, 
     mspec_MetadataSize = None, mspec_AllocationPolicy = None, mspec_DataAlignment = None, 
     mspec_DataAlignmentOffset = None, mspec_Devices = None, mspec_DevicesFile = None, 
     mspec_Zero = None, mspec_AutoActivation = None, 
     mspec_DeviceLossSynchronizationPolicy = [], mspec_DeviceRemovalVolumePolicy = []\<rparr>"

definition zero_PVStatusMem :: PVStatusMem where
  "zero_PVStatusMem = \<lparr>mpv_Name = [], mpv_UUID = [], mpv_DeviceSize = None, mpv_Attributes = [], 
     mpv_Major = 0, mpv_Minor = 0, mpv_Size = None, mpv_Free = None, mpv_Used = None, 
     mpv_MetadataAreaFree = None, mpv_MetadataAreaSize = None, 
     mpv_PhysicalExtentStart = None, mpv_MetadataAreaCount = 0, 
     mpv_MetadataAreaUsedCount = 0, mpv_Tags = None, mpv_DeviceID = [], 
     mpv_DeviceIDType = []\<rparr>"

definition zero_StatusMem :: StatusMem where
  "zero_StatusMem = \<lparr>mst_Name = [], mst_UUID = [], mst_SysID = [], mst_PhysicalVolumes = None, 
     mst_Attributes = [], mst_Tags = None, mst_ExtentSize = None, mst_ExtentCount = 0, 
     mst_SequenceNumber = 0, mst_Size = None, mst_Free = None, 
     mst_PhysicalVolumeCount = 0, mst_MissingPhysicalVolumeCount = 0, 
     mst_MaximumPhysicalVolumes = 0, mst_LogicalVolumeCount = 0, 
     mst_MaximumLogicalVolumes = 0, mst_SnapshotCount = 0, mst_MetadataAreaCount = 0, 
     mst_MetadataAreaUsedCount = 0, mst_Conditions = None\<rparr>"

definition zero_TypeMeta :: TypeMeta where
  "zero_TypeMeta = \<lparr>tm_Kind = [], tm_APIVersion = []\<rparr>"

definition zero_VolumeGroupMem :: VolumeGroupMem where
  "zero_VolumeGroupMem = \<lparr>mvg_TypeMeta = zero_TypeMeta,
     mvg_ObjectMeta = \<lparr>meta_Name = [], meta_UID = [], meta_Generation = 0, meta_Finalizers = [],
       meta_DeletionTimestamp = None, meta_DeletionGracePeriodSeconds = None\<rparr>,
     mvg_Spec = zero_SpecMem, mvg_Status = zero_StatusMem\<rparr>"

definition zero_VolumeGroupListMem :: VolumeGroupListMem where
  "zero_VolumeGroupListMem = \<lparr>mlist_TypeMeta = zero_TypeMeta,
     mlist_ListMeta = \<lparr>lm_SelfLink = [], lm_ResourceVersion = [], lm_Continue = [],
       lm_RemainingItemCount = None\<rparr>, mlist_Items = None\<rparr>"

definition zero_Condition :: Condition where
  "zero_Condition = \<lparr>cond_Type = [], cond_Status = [], cond_ObservedGeneration = 0,
     cond_LastTransitionTime = - 62135596800000000000, cond_Reason = [], cond_Message = []\<rparr>"

section \<open>Cells\<close>

text \<open>An addressable value: the target of a pointer, or the array behind a slice.\<close>

datatype 'q cell =
    CString string | CInt64 int64 | CBool bool | CQuantity 'q
  | CStrings "string list" | CConditions "Condition list"
  | CRequirements "RequirementMem list" | CTerms "TermMem list"
  | CPVStatuses "PVStatusMem list" | CItems "VolumeGroupMem list"
  | CRequirement RequirementMem | CTerm TermMem | CSelector SelectorMem | CSpec SpecMem
  | CPVStatus PVStatusMem | CStatus StatusMem | CVolumeGroup VolumeGroupMem
  | CList VolumeGroupListMem

type_synonym 'q heap = "'q cell list"

text \<open>Reading a cell at its type; memory is typed, so the other equations are never used.\<close>

fun the_string :: "'q cell \<Rightarrow> string" where
  "the_string (CString x) = x" | "the_string _ = []"

fun the_int64 :: "'q cell \<Rightarrow> int64" where
  "the_int64 (CInt64 x) = x" | "the_int64 _ = 0"

fun the_bool :: "'q cell \<Rightarrow> bool" where
  "the_bool (CBool x) = x" | "the_bool _ = False"

fun the_strings :: "'q cell \<Rightarrow> string list" where
  "the_strings (CStrings x) = x" | "the_strings _ = []"

fun the_conditions :: "'q cell \<Rightarrow> Condition list" where
  "the_conditions (CConditions x) = x" | "the_conditions _ = []"

fun the_requirements :: "'q cell \<Rightarrow> RequirementMem list" where
  "the_requirements (CRequirements x) = x" | "the_requirements _ = []"

fun the_terms :: "'q cell \<Rightarrow> TermMem list" where
  "the_terms (CTerms x) = x" | "the_terms _ = []"

fun the_pvs :: "'q cell \<Rightarrow> PVStatusMem list" where
  "the_pvs (CPVStatuses x) = x" | "the_pvs _ = []"

fun the_items :: "'q cell \<Rightarrow> VolumeGroupMem list" where
  "the_items (CItems x) = x" | "the_items _ = []"

fun the_requirement :: "'q cell \<Rightarrow> RequirementMem" where
  "the_requirement (CRequirement x) = x" | "the_requirement _ = zero_RequirementMem"

fun the_term :: "'q cell \<Rightarrow> TermMem" where
  "the_term (CTerm x) = x" | "the_term _ = zero_TermMem"

fun the_spec :: "'q cell \<Rightarrow> SpecMem" where
  "the_spec (CSpec x) = x" | "the_spec _ = zero_SpecMem"

fun the_pv :: "'q cell \<Rightarrow> PVStatusMem" where
  "the_pv (CPVStatus x) = x" | "the_pv _ = zero_PVStatusMem"

fun the_status :: "'q cell \<Rightarrow> StatusMem" where
  "the_status (CStatus x) = x" | "the_status _ = zero_StatusMem"

fun the_volumegroup :: "'q cell \<Rightarrow> VolumeGroupMem" where
  "the_volumegroup (CVolumeGroup x) = x" | "the_volumegroup _ = zero_VolumeGroupMem"

fun the_list :: "'q cell \<Rightarrow> VolumeGroupListMem" where
  "the_list (CList x) = x" | "the_list _ = zero_VolumeGroupListMem"

fun the_quantity :: "'q cell \<Rightarrow> 'q" where
  "the_quantity (CQuantity x) = x"
| "the_quantity _ = undefined"

section \<open>The copies of apimachinery\<close>

record 'q copy_env =
  Quantity_DeepCopy :: "'q \<Rightarrow> 'q"
  Condition_DeepCopy :: "Condition \<Rightarrow> Condition"
  ObjectMeta_DeepCopy :: "ObjectMeta \<Rightarrow> ObjectMeta"
  ListMeta_DeepCopy :: "ListMeta \<Rightarrow> ListMeta"

text \<open>Documented: the copy is equal to the original. That it shares nothing is left to them.\<close>

definition deep_copies :: "'q copy_env \<Rightarrow> bool" where
  "deep_copies K \<longleftrightarrow> (\<forall>q. Quantity_DeepCopy K q = q) \<and> (\<forall>c. Condition_DeepCopy K c = c) \<and>
     (\<forall>m. ObjectMeta_DeepCopy K m = m) \<and> (\<forall>m. ListMeta_DeepCopy K m = m)"

section \<open>Pointers and slices of plain values\<close>

definition copy_string :: "nat option \<Rightarrow> 'q heap \<Rightarrow> nat option \<times> 'q heap" where
  "copy_string = new_copy CString the_string []"

definition copy_int64 :: "nat option \<Rightarrow> 'q heap \<Rightarrow> nat option \<times> 'q heap" where
  "copy_int64 = new_copy CInt64 the_int64 0"

definition copy_bool :: "nat option \<Rightarrow> 'q heap \<Rightarrow> nat option \<times> 'q heap" where
  "copy_bool = new_copy CBool the_bool False"

definition copy_quantity :: "'q copy_env \<Rightarrow> nat option \<Rightarrow> 'q heap \<Rightarrow> nat option \<times> 'q heap" where
  "copy_quantity K = boxed_copy CQuantity the_quantity (Quantity_DeepCopy K)"

definition copy_strings :: "slice option \<Rightarrow> 'q heap \<Rightarrow> slice option \<times> 'q heap" where
  "copy_strings = builtin_copy CStrings the_strings []"

definition copy_conditions :: "'q copy_env \<Rightarrow> slice option \<Rightarrow> 'q heap \<Rightarrow> slice option \<times> 'q heap" where
  "copy_conditions K =
     DeepCopy_slice CConditions the_conditions zero_Condition (value_copy (Condition_DeepCopy K))"

section \<open>Selectors (lines 28-89)\<close>

definition LSBLKSelectorRequirement_DeepCopyInto ::
  "RequirementMem \<Rightarrow> 'q heap \<Rightarrow> RequirementMem \<times> 'q heap" where
  "LSBLKSelectorRequirement_DeepCopyInto inn h =
     in_order [field (mreq_Values inn) (\<lambda>p. mreq_Values_update (\<lambda>_. p)) copy_strings] (inn, h)"

definition LSBLKSelectorRequirement_DeepCopy :: "nat option \<Rightarrow> 'q heap \<Rightarrow> nat option \<times> 'q heap" where
  "LSBLKSelectorRequirement_DeepCopy =
     DeepCopy_object CRequirement the_requirement zero_RequirementMem LSBLKSelectorRequirement_DeepCopyInto"

definition PVSelectorTerm_DeepCopyInto :: "TermMem \<Rightarrow> 'q heap \<Rightarrow> TermMem \<times> 'q heap" where
  "PVSelectorTerm_DeepCopyInto inn h =
     in_order [field (mterm_MatchLSBLK inn) (\<lambda>p. mterm_MatchLSBLK_update (\<lambda>_. p))
       (DeepCopy_slice CRequirements the_requirements zero_RequirementMem
          LSBLKSelectorRequirement_DeepCopyInto)] (inn, h)"

definition PVSelectorTerm_DeepCopy :: "nat option \<Rightarrow> 'q heap \<Rightarrow> nat option \<times> 'q heap" where
  "PVSelectorTerm_DeepCopy = DeepCopy_object CTerm the_term zero_TermMem PVSelectorTerm_DeepCopyInto"

text \<open>
  The receiver is the slice itself, which may be nil; then \<open>make\<close> still makes an array, of length 0.
\<close>

definition PhysicalVolumeSelector_DeepCopyInto :: "SelectorMem \<Rightarrow> 'q heap \<Rightarrow> SelectorMem \<times> 'q heap" where
  "PhysicalVolumeSelector_DeepCopyInto inn h =
     (case inn of
        None \<Rightarrow> (let (b, h1) = alloc (CTerms []) h in (Some \<lparr>sl_array = b, sl_off = 0, sl_len = 0\<rparr>, h1))
      | Some s \<Rightarrow> apfst Some (make_copy CTerms the_terms zero_TermMem PVSelectorTerm_DeepCopyInto s h))"

definition PhysicalVolumeSelector_DeepCopy :: "SelectorMem \<Rightarrow> 'q heap \<Rightarrow> SelectorMem \<times> 'q heap" where
  "PhysicalVolumeSelector_DeepCopy inn h =
     (case inn of
        None \<Rightarrow> (None, h)
      | Some s \<Rightarrow> (let (b, h1) = alloc (CSelector None) h;
                       (out, h2) = PhysicalVolumeSelector_DeepCopyInto inn h1
                   in (out, store b (CSelector out) h2)))"

section \<open>Spec and status (lines 91-144, 205-339)\<close>

definition VolumeGroupSpec_DeepCopyInto ::
  "'q copy_env \<Rightarrow> SpecMem \<Rightarrow> 'q heap \<Rightarrow> SpecMem \<times> 'q heap" where
  "VolumeGroupSpec_DeepCopyInto K inn h = in_order [
     field (mspec_NameOnNode inn) (\<lambda>p. mspec_NameOnNode_update (\<lambda>_. p)) copy_string,
     field (mspec_PhysicalVolumeSelector inn) (\<lambda>p. mspec_PhysicalVolumeSelector_update (\<lambda>_. p)) (DeepCopy_slice CTerms the_terms zero_TermMem PVSelectorTerm_DeepCopyInto),
     field (mspec_Tags inn) (\<lambda>p. mspec_Tags_update (\<lambda>_. p)) copy_strings,
     field (mspec_MaximumLogicalVolumes inn) (\<lambda>p. mspec_MaximumLogicalVolumes_update (\<lambda>_. p)) copy_int64,
     field (mspec_MaximumPhysicalVolumes inn) (\<lambda>p. mspec_MaximumPhysicalVolumes_update (\<lambda>_. p)) copy_int64,
     field (mspec_PhysicalExtentSize inn) (\<lambda>p. mspec_PhysicalExtentSize_update (\<lambda>_. p)) (copy_quantity K),
     field (mspec_MetadataSize inn) (\<lambda>p. mspec_MetadataSize_update (\<lambda>_. p)) (copy_quantity K),
     field (mspec_AllocationPolicy inn) (\<lambda>p. mspec_AllocationPolicy_update (\<lambda>_. p)) copy_string,
     field (mspec_DataAlignment inn) (\<lambda>p. mspec_DataAlignment_update (\<lambda>_. p)) (copy_quantity K),
     field (mspec_DataAlignmentOffset inn) (\<lambda>p. mspec_DataAlignmentOffset_update (\<lambda>_. p)) (copy_quantity K),
     field (mspec_Devices inn) (\<lambda>p. mspec_Devices_update (\<lambda>_. p)) copy_strings,
     field (mspec_DevicesFile inn) (\<lambda>p. mspec_DevicesFile_update (\<lambda>_. p)) copy_string,
     field (mspec_Zero inn) (\<lambda>p. mspec_Zero_update (\<lambda>_. p)) copy_bool,
     field (mspec_AutoActivation inn) (\<lambda>p. mspec_AutoActivation_update (\<lambda>_. p)) copy_bool] (inn, h)"

definition VolumeGroupSpec_DeepCopy :: "'q copy_env \<Rightarrow> nat option \<Rightarrow> 'q heap \<Rightarrow> nat option \<times> 'q heap" where
  "VolumeGroupSpec_DeepCopy K =
     DeepCopy_object CSpec the_spec zero_SpecMem (VolumeGroupSpec_DeepCopyInto K)"

definition PhysicalVolumeStatus_DeepCopyInto ::
  "'q copy_env \<Rightarrow> PVStatusMem \<Rightarrow> 'q heap \<Rightarrow> PVStatusMem \<times> 'q heap" where
  "PhysicalVolumeStatus_DeepCopyInto K inn h = in_order [
     field (mpv_DeviceSize inn) (\<lambda>p. mpv_DeviceSize_update (\<lambda>_. p)) (copy_quantity K),
     field (mpv_Size inn) (\<lambda>p. mpv_Size_update (\<lambda>_. p)) (copy_quantity K),
     field (mpv_Free inn) (\<lambda>p. mpv_Free_update (\<lambda>_. p)) (copy_quantity K),
     field (mpv_Used inn) (\<lambda>p. mpv_Used_update (\<lambda>_. p)) (copy_quantity K),
     field (mpv_MetadataAreaFree inn) (\<lambda>p. mpv_MetadataAreaFree_update (\<lambda>_. p)) (copy_quantity K),
     field (mpv_MetadataAreaSize inn) (\<lambda>p. mpv_MetadataAreaSize_update (\<lambda>_. p)) (copy_quantity K),
     field (mpv_PhysicalExtentStart inn) (\<lambda>p. mpv_PhysicalExtentStart_update (\<lambda>_. p)) (copy_quantity K),
     field (mpv_Tags inn) (\<lambda>p. mpv_Tags_update (\<lambda>_. p)) copy_strings] (inn, h)"

definition PhysicalVolumeStatus_DeepCopy :: "'q copy_env \<Rightarrow> nat option \<Rightarrow> 'q heap \<Rightarrow> nat option \<times> 'q heap" where
  "PhysicalVolumeStatus_DeepCopy K =
     DeepCopy_object CPVStatus the_pv zero_PVStatusMem (PhysicalVolumeStatus_DeepCopyInto K)"

definition VolumeGroupStatus_DeepCopyInto ::
  "'q copy_env \<Rightarrow> StatusMem \<Rightarrow> 'q heap \<Rightarrow> StatusMem \<times> 'q heap" where
  "VolumeGroupStatus_DeepCopyInto K inn h = in_order [
     field (mst_PhysicalVolumes inn) (\<lambda>p. mst_PhysicalVolumes_update (\<lambda>_. p)) (DeepCopy_slice CPVStatuses the_pvs zero_PVStatusMem (PhysicalVolumeStatus_DeepCopyInto K)),
     field (mst_Tags inn) (\<lambda>p. mst_Tags_update (\<lambda>_. p)) copy_strings,
     field (mst_ExtentSize inn) (\<lambda>p. mst_ExtentSize_update (\<lambda>_. p)) (copy_quantity K),
     field (mst_Size inn) (\<lambda>p. mst_Size_update (\<lambda>_. p)) (copy_quantity K),
     field (mst_Free inn) (\<lambda>p. mst_Free_update (\<lambda>_. p)) (copy_quantity K),
     field (mst_Conditions inn) (\<lambda>p. mst_Conditions_update (\<lambda>_. p)) (copy_conditions K)] (inn, h)"

definition VolumeGroupStatus_DeepCopy :: "'q copy_env \<Rightarrow> nat option \<Rightarrow> 'q heap \<Rightarrow> nat option \<times> 'q heap" where
  "VolumeGroupStatus_DeepCopy K =
     DeepCopy_object CStatus the_status zero_StatusMem (VolumeGroupStatus_DeepCopyInto K)"

section \<open>VolumeGroup and its list (lines 146-203)\<close>

definition VolumeGroup_DeepCopyInto ::
  "'q copy_env \<Rightarrow> VolumeGroupMem \<Rightarrow> 'q heap \<Rightarrow> VolumeGroupMem \<times> 'q heap" where
  "VolumeGroup_DeepCopyInto K inn h = in_order [
     field (mvg_TypeMeta inn) (\<lambda>x. mvg_TypeMeta_update (\<lambda>_. x)) (value_copy (\<lambda>x. x)),
     field (mvg_ObjectMeta inn) (\<lambda>x. mvg_ObjectMeta_update (\<lambda>_. x)) (value_copy (ObjectMeta_DeepCopy K)),
     field (mvg_Spec inn) (\<lambda>x. mvg_Spec_update (\<lambda>_. x)) (VolumeGroupSpec_DeepCopyInto K),
     field (mvg_Status inn) (\<lambda>x. mvg_Status_update (\<lambda>_. x)) (VolumeGroupStatus_DeepCopyInto K)] (inn, h)"

definition VolumeGroup_DeepCopy :: "'q copy_env \<Rightarrow> nat option \<Rightarrow> 'q heap \<Rightarrow> nat option \<times> 'q heap" where
  "VolumeGroup_DeepCopy K =
     DeepCopy_object CVolumeGroup the_volumegroup zero_VolumeGroupMem (VolumeGroup_DeepCopyInto K)"

definition VolumeGroupList_DeepCopyInto ::
  "'q copy_env \<Rightarrow> VolumeGroupListMem \<Rightarrow> 'q heap \<Rightarrow> VolumeGroupListMem \<times> 'q heap" where
  "VolumeGroupList_DeepCopyInto K inn h = in_order [
     field (mlist_TypeMeta inn) (\<lambda>x. mlist_TypeMeta_update (\<lambda>_. x)) (value_copy (\<lambda>x. x)),
     field (mlist_ListMeta inn) (\<lambda>x. mlist_ListMeta_update (\<lambda>_. x)) (value_copy (ListMeta_DeepCopy K)),
     field (mlist_Items inn) (\<lambda>x. mlist_Items_update (\<lambda>_. x))
       (DeepCopy_slice CItems the_items zero_VolumeGroupMem (VolumeGroup_DeepCopyInto K))] (inn, h)"

definition VolumeGroupList_DeepCopy :: "'q copy_env \<Rightarrow> nat option \<Rightarrow> 'q heap \<Rightarrow> nat option \<times> 'q heap" where
  "VolumeGroupList_DeepCopy K =
     DeepCopy_object CList the_list zero_VolumeGroupListMem (VolumeGroupList_DeepCopyInto K)"

text \<open>
  A \<open>runtime.Object\<close> is an interface: the pointer with its dynamic type, or nil without one.
\<close>

datatype Object = NilObject | VolumeGroupObject nat | VolumeGroupListObject nat

definition VolumeGroup_DeepCopyObject :: "'q copy_env \<Rightarrow> nat option \<Rightarrow> 'q heap \<Rightarrow> Object \<times> 'q heap" where
  "VolumeGroup_DeepCopyObject K p h =
     (let (c, h') = VolumeGroup_DeepCopy K p h
      in (case c of Some a \<Rightarrow> VolumeGroupObject a | None \<Rightarrow> NilObject, h'))"

definition VolumeGroupList_DeepCopyObject :: "'q copy_env \<Rightarrow> nat option \<Rightarrow> 'q heap \<Rightarrow> Object \<times> 'q heap" where
  "VolumeGroupList_DeepCopyObject K p h =
     (let (c, h') = VolumeGroupList_DeepCopy K p h
      in (case c of Some a \<Rightarrow> VolumeGroupListObject a | None \<Rightarrow> NilObject, h'))"

section \<open>Deep equality of the structs\<close>

text \<open>
  The fields of a struct are followed to the end; nil and empty are different.
\<close>

definition same_Requirement :: "'q heap \<Rightarrow> RequirementMem \<Rightarrow> 'q heap \<Rightarrow> RequirementMem \<Rightarrow> bool" where
  "same_Requirement h x g y \<longleftrightarrow>
     mreq_Key x = mreq_Key y \<and>
     mreq_Operator x = mreq_Operator y \<and>
     same_slice CStrings the_strings same_value h (mreq_Values x) g (mreq_Values y)"

definition same_Term :: "'q heap \<Rightarrow> TermMem \<Rightarrow> 'q heap \<Rightarrow> TermMem \<Rightarrow> bool" where
  "same_Term h x g y \<longleftrightarrow>
     same_slice CRequirements the_requirements same_Requirement h (mterm_MatchLSBLK x) g (mterm_MatchLSBLK y)"

definition same_Spec :: "'q heap \<Rightarrow> SpecMem \<Rightarrow> 'q heap \<Rightarrow> SpecMem \<Rightarrow> bool" where
  "same_Spec h x g y \<longleftrightarrow>
     mspec_NodeName x = mspec_NodeName y \<and>
     same_object CString same_value h (mspec_NameOnNode x) g (mspec_NameOnNode y) \<and>
     same_slice CTerms the_terms same_Term h (mspec_PhysicalVolumeSelector x) g (mspec_PhysicalVolumeSelector y) \<and>
     same_slice CStrings the_strings same_value h (mspec_Tags x) g (mspec_Tags y) \<and>
     same_object CInt64 same_value h (mspec_MaximumLogicalVolumes x) g (mspec_MaximumLogicalVolumes y) \<and>
     same_object CInt64 same_value h (mspec_MaximumPhysicalVolumes x) g (mspec_MaximumPhysicalVolumes y) \<and>
     same_object CQuantity same_value h (mspec_PhysicalExtentSize x) g (mspec_PhysicalExtentSize y) \<and>
     same_object CQuantity same_value h (mspec_MetadataSize x) g (mspec_MetadataSize y) \<and>
     same_object CString same_value h (mspec_AllocationPolicy x) g (mspec_AllocationPolicy y) \<and>
     same_object CQuantity same_value h (mspec_DataAlignment x) g (mspec_DataAlignment y) \<and>
     same_object CQuantity same_value h (mspec_DataAlignmentOffset x) g (mspec_DataAlignmentOffset y) \<and>
     same_slice CStrings the_strings same_value h (mspec_Devices x) g (mspec_Devices y) \<and>
     same_object CString same_value h (mspec_DevicesFile x) g (mspec_DevicesFile y) \<and>
     same_object CBool same_value h (mspec_Zero x) g (mspec_Zero y) \<and>
     same_object CBool same_value h (mspec_AutoActivation x) g (mspec_AutoActivation y) \<and>
     mspec_DeviceLossSynchronizationPolicy x = mspec_DeviceLossSynchronizationPolicy y \<and>
     mspec_DeviceRemovalVolumePolicy x = mspec_DeviceRemovalVolumePolicy y"

definition same_PVStatus :: "'q heap \<Rightarrow> PVStatusMem \<Rightarrow> 'q heap \<Rightarrow> PVStatusMem \<Rightarrow> bool" where
  "same_PVStatus h x g y \<longleftrightarrow>
     mpv_Name x = mpv_Name y \<and>
     mpv_UUID x = mpv_UUID y \<and>
     same_object CQuantity same_value h (mpv_DeviceSize x) g (mpv_DeviceSize y) \<and>
     mpv_Attributes x = mpv_Attributes y \<and>
     mpv_Major x = mpv_Major y \<and>
     mpv_Minor x = mpv_Minor y \<and>
     same_object CQuantity same_value h (mpv_Size x) g (mpv_Size y) \<and>
     same_object CQuantity same_value h (mpv_Free x) g (mpv_Free y) \<and>
     same_object CQuantity same_value h (mpv_Used x) g (mpv_Used y) \<and>
     same_object CQuantity same_value h (mpv_MetadataAreaFree x) g (mpv_MetadataAreaFree y) \<and>
     same_object CQuantity same_value h (mpv_MetadataAreaSize x) g (mpv_MetadataAreaSize y) \<and>
     same_object CQuantity same_value h (mpv_PhysicalExtentStart x) g (mpv_PhysicalExtentStart y) \<and>
     mpv_MetadataAreaCount x = mpv_MetadataAreaCount y \<and>
     mpv_MetadataAreaUsedCount x = mpv_MetadataAreaUsedCount y \<and>
     same_slice CStrings the_strings same_value h (mpv_Tags x) g (mpv_Tags y) \<and>
     mpv_DeviceID x = mpv_DeviceID y \<and>
     mpv_DeviceIDType x = mpv_DeviceIDType y"

definition same_Status :: "'q heap \<Rightarrow> StatusMem \<Rightarrow> 'q heap \<Rightarrow> StatusMem \<Rightarrow> bool" where
  "same_Status h x g y \<longleftrightarrow>
     mst_Name x = mst_Name y \<and>
     mst_UUID x = mst_UUID y \<and>
     mst_SysID x = mst_SysID y \<and>
     same_slice CPVStatuses the_pvs same_PVStatus h (mst_PhysicalVolumes x) g (mst_PhysicalVolumes y) \<and>
     mst_Attributes x = mst_Attributes y \<and>
     same_slice CStrings the_strings same_value h (mst_Tags x) g (mst_Tags y) \<and>
     same_object CQuantity same_value h (mst_ExtentSize x) g (mst_ExtentSize y) \<and>
     mst_ExtentCount x = mst_ExtentCount y \<and>
     mst_SequenceNumber x = mst_SequenceNumber y \<and>
     same_object CQuantity same_value h (mst_Size x) g (mst_Size y) \<and>
     same_object CQuantity same_value h (mst_Free x) g (mst_Free y) \<and>
     mst_PhysicalVolumeCount x = mst_PhysicalVolumeCount y \<and>
     mst_MissingPhysicalVolumeCount x = mst_MissingPhysicalVolumeCount y \<and>
     mst_MaximumPhysicalVolumes x = mst_MaximumPhysicalVolumes y \<and>
     mst_LogicalVolumeCount x = mst_LogicalVolumeCount y \<and>
     mst_MaximumLogicalVolumes x = mst_MaximumLogicalVolumes y \<and>
     mst_SnapshotCount x = mst_SnapshotCount y \<and>
     mst_MetadataAreaCount x = mst_MetadataAreaCount y \<and>
     mst_MetadataAreaUsedCount x = mst_MetadataAreaUsedCount y \<and>
     same_slice CConditions the_conditions same_value h (mst_Conditions x) g (mst_Conditions y)"

definition same_VolumeGroup :: "'q heap \<Rightarrow> VolumeGroupMem \<Rightarrow> 'q heap \<Rightarrow> VolumeGroupMem \<Rightarrow> bool" where
  "same_VolumeGroup h x g y \<longleftrightarrow>
     mvg_TypeMeta x = mvg_TypeMeta y \<and>
     mvg_ObjectMeta x = mvg_ObjectMeta y \<and>
     same_Spec h (mvg_Spec x) g (mvg_Spec y) \<and>
     same_Status h (mvg_Status x) g (mvg_Status y)"

definition same_VolumeGroupList ::
  "'q heap \<Rightarrow> VolumeGroupListMem \<Rightarrow> 'q heap \<Rightarrow> VolumeGroupListMem \<Rightarrow> bool" where
  "same_VolumeGroupList h x g y \<longleftrightarrow>
     mlist_TypeMeta x = mlist_TypeMeta y \<and>
     mlist_ListMeta x = mlist_ListMeta y \<and>
     same_slice CItems the_items same_VolumeGroup h (mlist_Items x) g (mlist_Items y)"

section \<open>Every DeepCopyInto copies\<close>

text \<open>
  Read from the last statement to the first: what must hold before a field is copied.
\<close>

named_theorems copy_fields \<open>rules for the statements of a DeepCopyInto\<close>

lemma copied_in_order [copy_fields]:
  "copied h Q (in_order fs (f s)) \<Longrightarrow> copied h Q (in_order (f # fs) s)"
  "copied h Q s \<Longrightarrow> copied h Q (in_order [] s)"
  by simp_all

interpretation string_pointer: copier "same_object CString same_value" copy_string
  unfolding copy_string_def by (rule new_copier) simp

interpretation int64_pointer: copier "same_object CInt64 same_value" copy_int64
  unfolding copy_int64_def by (rule new_copier) simp

interpretation bool_pointer: copier "same_object CBool same_value" copy_bool
  unfolding copy_bool_def by (rule new_copier) simp

interpretation strings: copier "same_slice CStrings the_strings same_value" copy_strings
  unfolding copy_strings_def by (rule builtin_copier) simp

lemma quantity_copier: "deep_copies K \<Longrightarrow> copier (same_object CQuantity same_value) (copy_quantity K)"
  unfolding copy_quantity_def by (rule boxed_copier) (simp_all add: deep_copies_def)

lemma conditions_copier:
  "deep_copies K \<Longrightarrow> copier (same_slice CConditions the_conditions same_value) (copy_conditions K)"
  unfolding copy_conditions_def
  by (rule copier.slice_copier [OF value_copier]) (simp_all add: deep_copies_def)

lemma metadata_copiers:
  assumes "deep_copies K"
  shows "copier same_value (value_copy (ObjectMeta_DeepCopy K))"
    "copier same_value (value_copy (ListMeta_DeepCopy K))"
  using assms by (simp_all add: value_copier deep_copies_def)

lemmas [copy_fields] = string_pointer.field_copied int64_pointer.field_copied
  bool_pointer.field_copied strings.field_copied plain.field_copied
  copier.field_copied [OF quantity_copier] copier.field_copied [OF conditions_copier]
  copier.field_copied [OF metadata_copiers(1)] copier.field_copied [OF metadata_copiers(2)]

lemma quantity_equality: "deep_equality (same_object CQuantity same_value)"
  by (rule plain.object [where dest = the_quantity]) simp

lemma conditions_equality: "deep_equality (same_slice CConditions the_conditions same_value)"
  by (rule plain.slice)

lemmas [deep_equalities] = string_pointer.on int64_pointer.on bool_pointer.on strings.on
  deep_equality.on [OF quantity_equality] deep_equality.on [OF conditions_equality]

lemma same_value_field [deep_equalities]: "deep_equality (\<lambda>h x g y. same_value h (f x) g (f y))"
  by (rule plain.on)

interpretation requirement: copier same_Requirement LSBLKSelectorRequirement_DeepCopyInto
proof (intro copier.intro copier_axioms.intro)
  show "deep_equality same_Requirement"
    unfolding same_Requirement_def [abs_def] by (intro deep_equalities)
  show "copied h (same_Requirement h x) (LSBLKSelectorRequirement_DeepCopyInto x h)"
    if "same_Requirement h x h x" for h x
    using that unfolding LSBLKSelectorRequirement_DeepCopyInto_def
    by (intro copy_fields copied_start) (simp_all add: same_Requirement_def)
qed

interpretation requirements: copier "same_slice CRequirements the_requirements same_Requirement"
    "DeepCopy_slice CRequirements the_requirements zero_RequirementMem LSBLKSelectorRequirement_DeepCopyInto"
  by (rule requirement.slice_copier) simp

lemmas [copy_fields] = requirements.field_copied
lemmas [deep_equalities] = requirements.on

interpretation selector_term: copier same_Term PVSelectorTerm_DeepCopyInto
proof (intro copier.intro copier_axioms.intro)
  show "deep_equality same_Term"
    unfolding same_Term_def [abs_def] by (intro deep_equalities)
  show "copied h (same_Term h x) (PVSelectorTerm_DeepCopyInto x h)" if "same_Term h x h x" for h x
    using that unfolding PVSelectorTerm_DeepCopyInto_def
    by (intro copy_fields copied_start) (simp_all add: same_Term_def)
qed

interpretation selector: copier "same_slice CTerms the_terms same_Term"
    "DeepCopy_slice CTerms the_terms zero_TermMem PVSelectorTerm_DeepCopyInto"
  by (rule selector_term.slice_copier) simp

lemmas [copy_fields] = selector.field_copied
lemmas [deep_equalities] = selector.on

lemma spec_copier:
  assumes "deep_copies K"
  shows "copier same_Spec (VolumeGroupSpec_DeepCopyInto K)"
proof (intro copier.intro copier_axioms.intro)
  show "deep_equality same_Spec"
    unfolding same_Spec_def [abs_def] by (intro deep_equalities)
  show "copied h (same_Spec h x) (VolumeGroupSpec_DeepCopyInto K x h)" if "same_Spec h x h x" for h x
    using that assms unfolding VolumeGroupSpec_DeepCopyInto_def
    by (intro copy_fields copied_start) (simp_all add: same_Spec_def)
qed

lemma pv_copier:
  assumes "deep_copies K"
  shows "copier same_PVStatus (PhysicalVolumeStatus_DeepCopyInto K)"
proof (intro copier.intro copier_axioms.intro)
  show "deep_equality same_PVStatus"
    unfolding same_PVStatus_def [abs_def] by (intro deep_equalities)
  show "copied h (same_PVStatus h x) (PhysicalVolumeStatus_DeepCopyInto K x h)" if "same_PVStatus h x h x" for h x
    using that assms unfolding PhysicalVolumeStatus_DeepCopyInto_def
    by (intro copy_fields copied_start) (simp_all add: same_PVStatus_def)
qed

lemma pvs_copier:
  "deep_copies K \<Longrightarrow> copier (same_slice CPVStatuses the_pvs same_PVStatus)
     (DeepCopy_slice CPVStatuses the_pvs zero_PVStatusMem (PhysicalVolumeStatus_DeepCopyInto K))"
  by (rule copier.slice_copier [OF pv_copier]) simp_all

lemmas [copy_fields] = copier.field_copied [OF pvs_copier]

lemma pvs_equality [deep_equalities]:
  "deep_equality (\<lambda>h x g y. same_slice CPVStatuses the_pvs same_PVStatus h (f x) g (f y))"
proof -
  have "deep_equality same_PVStatus" unfolding same_PVStatus_def [abs_def] by (intro deep_equalities)
  then show ?thesis by (rule deep_equality.on [OF deep_equality.slice])
qed

lemma status_copier:
  assumes "deep_copies K"
  shows "copier same_Status (VolumeGroupStatus_DeepCopyInto K)"
proof (intro copier.intro copier_axioms.intro)
  show "deep_equality same_Status"
    unfolding same_Status_def [abs_def] by (intro deep_equalities)
  show "copied h (same_Status h x) (VolumeGroupStatus_DeepCopyInto K x h)" if "same_Status h x h x" for h x
    using that assms unfolding VolumeGroupStatus_DeepCopyInto_def
    by (intro copy_fields copied_start) (simp_all add: same_Status_def)
qed

lemmas [copy_fields] = copier.field_copied [OF spec_copier] copier.field_copied [OF status_copier]

lemma struct_equalities [deep_equalities]:
  "deep_equality (\<lambda>h x g y. same_Spec h (f x) g (f y))"
  "deep_equality (\<lambda>h x g y. same_Status h (k x) g (k y))"
proof -
  have "deep_equality same_Spec" unfolding same_Spec_def [abs_def] by (intro deep_equalities)
  then show "deep_equality (\<lambda>h x g y. same_Spec h (f x) g (f y))" by (rule deep_equality.on)
  have "deep_equality same_Status" unfolding same_Status_def [abs_def] by (intro deep_equalities)
  then show "deep_equality (\<lambda>h x g y. same_Status h (k x) g (k y))" by (rule deep_equality.on)
qed

lemma volumegroup_copier:
  assumes "deep_copies K"
  shows "copier same_VolumeGroup (VolumeGroup_DeepCopyInto K)"
proof (intro copier.intro copier_axioms.intro)
  show "deep_equality same_VolumeGroup"
    unfolding same_VolumeGroup_def [abs_def] by (intro deep_equalities)
  show "copied h (same_VolumeGroup h x) (VolumeGroup_DeepCopyInto K x h)" if "same_VolumeGroup h x h x" for h x
    using that assms unfolding VolumeGroup_DeepCopyInto_def
    by (intro copy_fields copied_start) (simp_all add: same_VolumeGroup_def same_value_def)
qed

lemma items_copier:
  "deep_copies K \<Longrightarrow> copier (same_slice CItems the_items same_VolumeGroup)
     (DeepCopy_slice CItems the_items zero_VolumeGroupMem (VolumeGroup_DeepCopyInto K))"
  by (rule copier.slice_copier [OF volumegroup_copier]) simp_all

lemmas [copy_fields] = copier.field_copied [OF items_copier]

lemma items_equality [deep_equalities]:
  "deep_equality (\<lambda>h x g y. same_slice CItems the_items same_VolumeGroup h (f x) g (f y))"
proof -
  have "deep_equality same_VolumeGroup" unfolding same_VolumeGroup_def [abs_def] by (intro deep_equalities)
  then show ?thesis by (rule deep_equality.on [OF deep_equality.slice])
qed

lemma list_copier:
  assumes "deep_copies K"
  shows "copier same_VolumeGroupList (VolumeGroupList_DeepCopyInto K)"
proof (intro copier.intro copier_axioms.intro)
  show "deep_equality same_VolumeGroupList"
    unfolding same_VolumeGroupList_def [abs_def] by (intro deep_equalities)
  show "copied h (same_VolumeGroupList h x) (VolumeGroupList_DeepCopyInto K x h)"
    if "same_VolumeGroupList h x h x" for h x
    using that assms unfolding VolumeGroupList_DeepCopyInto_def
    by (intro copy_fields copied_start) (simp_all add: same_VolumeGroupList_def same_value_def)
qed

end
