(* ===== verification/Demo.thy ===== *)
theory Demo
  imports Conditions
begin

text \<open>
  A concrete outside, on which the properties of the other theories are instantiated: quantities
  are whole numbers, the host is a flag that says whether its volume group \<open>vg1\<close> lacks a device,
  and \<open>lsblk\<close> reports two disks, one with a partition. Nothing here models code of the
  repository, and no property is about it.
\<close>

section \<open>Devices\<close>

definition demo_sda1 :: BlockDevice where
  "demo_sda1 = [(''path'', GString ''/dev/sda1''), (''type'', GString ''part''),
     (''size'', GFloat (Finite 1000)), (''label'', GNil)]"

definition demo_sda :: BlockDevice where
  "demo_sda = [(''path'', GString ''/dev/sda''), (''type'', GString ''disk''),
     (''size'', GFloat (Finite 5000)), (''label'', GNil), (''children'', GSlice [GMap demo_sda1])]"

definition demo_sdb :: BlockDevice where
  "demo_sdb = [(''path'', GString ''/dev/sdb''), (''type'', GString ''disk''),
     (''size'', GFloat (Finite 9000)), (''label'', GNil)]"

lemmas demo_devices = demo_sda1_def demo_sda_def demo_sdb_def

definition demo_output :: Output where
  "demo_output = \<lparr>out_Decoded = [(''blockdevices'', [demo_sda, demo_sdb])],
     out_DecodeError = None, out_CloseError = None\<rparr>"

section \<open>lvm2\<close>

definition demo_bytes :: "int \<Rightarrow> Size" where
  "demo_bytes n = \<lparr>sz_Val = Finite (of_int n), sz_Unit = UnitBytes\<rparr>"

definition demo_lvg :: LvmVolumeGroup where
  "demo_lvg = \<lparr>lvg_Name = ''vg1'', lvg_UUID = ''u1'', lvg_SysID = [], lvg_Attr = ''wz--n-'',
     lvg_Tags = [''a''], lvg_ExtentSize = demo_bytes 4194304, lvg_ExtentCount = 10, lvg_SeqNo = 1,
     lvg_Size = demo_bytes 41943040, lvg_Free = demo_bytes 41943040, lvg_PvCount = 1,
     lvg_MissingPVCount = 0, lvg_MaxPv = 0, lvg_LvCount = 0, lvg_MaxLv = 0, lvg_SnapCount = 0,
     lvg_MDACount = 1, lvg_MDAUsedCount = 1, lvg_AllocationPolicy = ''normal'',
     lvg_AutoActivation = True\<rparr>"

definition demo_pv :: LvmPhysicalVolume where
  "demo_pv = \<lparr>lpv_Name = ''/dev/sdb'', lpv_UUID = ''p1'', lpv_DevSize = demo_bytes 9000,
     lpv_Size = demo_bytes 8000, lpv_Free = demo_bytes 8000, lpv_Used = demo_bytes 0,
     lpv_MdaFree = demo_bytes 10, lpv_MdaSize = demo_bytes 20, lpv_PeStart = demo_bytes 1,
     lpv_MdaCount = 1, lpv_MdaUsedCount = 1, lpv_Tags = [], lpv_DeviceID = ''d'',
     lpv_DeviceIDType = ''t'', lpv_Attr = ''a--'', lpv_Minor = 0, lpv_Major = 8\<rparr>"

definition demo_missing :: goerror where "demo_missing = Leaf ''missing'' ''VG is missing PVs''"

definition demo_not_found :: goerror where "demo_not_found = Leaf ''notfound'' ''not found''"

fun demo_exec :: "lvm_cmd \<Rightarrow> bool \<Rightarrow> goerror option \<times> bool" where
  "demo_exec (VGReduce opts) degraded =
     (if RedRemoveMissing True \<in> set opts then (None, False)
      else if degraded then (Some demo_missing, degraded) else (None, degraded))"
| "demo_exec _ degraded = (if degraded then (Some demo_missing, degraded) else (None, degraded))"

section \<open>Conditions\<close>

definition demo_SetStatusCondition :: "Condition list \<Rightarrow> Condition \<Rightarrow> Condition list" where
  "demo_SetStatusCondition cs c =
     (if \<exists>d \<in> set cs. cond_Type d = cond_Type c
      then map (\<lambda>d. if cond_Type d = cond_Type c then c else d) cs else cs @ [c])"

section \<open>A resource and the environment\<close>

definition demo_spec :: "int VolumeGroupSpec" where
  "demo_spec = \<lparr>spec_NodeName = ''node1'', spec_NameOnNode = Some ''vg1'',
     spec_PhysicalVolumeSelector =
       [\<lparr>MatchLSBLK = [\<lparr>req_Key = ''PATH'', req_Operator = ''In'', req_Values = [''/dev/sdb'']\<rparr>]\<rparr>],
     spec_Tags = Some [''a''], spec_MaximumLogicalVolumes = None,
     spec_MaximumPhysicalVolumes = None, spec_PhysicalExtentSize = Some 4194304,
     spec_MetadataSize = None, spec_AllocationPolicy = Some ''Normal'',
     spec_DataAlignment = None, spec_DataAlignmentOffset = None, spec_Devices = None,
     spec_DevicesFile = None, spec_Zero = None, spec_AutoActivation = None,
     spec_DeviceLossSynchronizationPolicy = ''Remove'',
     spec_DeviceRemovalVolumePolicy = ''MoveAndReduce''\<rparr>"

definition demo_status :: "int VolumeGroupStatus" where
  "demo_status = \<lparr>st_Name = [], st_UUID = [], st_SysID = [], st_PhysicalVolumes = [],
     st_Attributes = [], st_Tags = [], st_ExtentSize = None, st_ExtentCount = 0,
     st_SequenceNumber = 0, st_Size = None, st_Free = None, st_PhysicalVolumeCount = 0,
     st_MissingPhysicalVolumeCount = 0, st_MaximumPhysicalVolumes = 0, st_LogicalVolumeCount = 0,
     st_MaximumLogicalVolumes = 0, st_SnapshotCount = 0, st_MetadataAreaCount = 0,
     st_MetadataAreaUsedCount = 0, st_Conditions = []\<rparr>"

definition demo_meta :: ObjectMeta where
  "demo_meta = \<lparr>meta_Name = ''vg1'', meta_UID = ''uid-1'', meta_Generation = 3,
     meta_Finalizers = [''topolvm.io/volumegroup-removal-on-node''],
     meta_DeletionTimestamp = None, meta_DeletionGracePeriodSeconds = None\<rparr>"

definition demo_vg :: "int VolumeGroup" where
  "demo_vg = \<lparr>vg_meta = demo_meta, vg_Spec = demo_spec, vg_Status = demo_status\<rparr>"

text \<open>The same resource on its way out, 30 seconds after the deletion with 10 seconds of grace.\<close>

definition demo_deleted :: "int VolumeGroup" where
  "demo_deleted = demo_vg\<lparr>vg_meta := demo_meta\<lparr>meta_DeletionTimestamp := Some 0,
     meta_DeletionGracePeriodSeconds := Some 10\<rparr>\<rparr>"

definition demo_env :: "(int, bool) env" where
  "demo_env = \<lparr>
     ParseQuantity = (\<lambda>s. if s = ''4k'' then Inr 4000 else if s = ''-1'' then Inr (- 1)
                          else Inl (Leaf ''quantity'' ''quantities must match the regular expression'')),
     NewQuantity = sint,
     Cmp = (\<lambda>a b. if a < b then - 1 else if a = b then 0 else 1),
     AsApproximateFloat64 = (\<lambda>q. Finite (of_int q)),
     Size_Validate = (\<lambda>s. None), Size_ToUnit = (\<lambda>s u. Inr s),
     unrepresentable_int64 = (\<lambda>f. 0),
     IsLVMErrVGMissingPVs = (\<lambda>e. errors_Is e ''missing''),
     IsLVMErrNotFound = is_error ''notfound'',
     ErrVolumeGroupNotFound = ''vg not found'',
     IgnoreNotFound = (\<lambda>e. if is_error ''notfound'' e then None else Some e),
     SetStatusCondition = (\<lambda>h. demo_SetStatusCondition),
     AddFinalizer = (\<lambda>fs f. if f \<in> set fs then (fs, False) else (fs @ [f], True)),
     RemoveFinalizer = (\<lambda>fs f. (filter (\<lambda>g. g \<noteq> f) fs, f \<in> set fs)),
     IsContainerized = (\<lambda>h. True),
     StreamedCommand = (\<lambda>c h. (Inr demo_output, h)),
     Lvm_VG = (\<lambda>n h. if n = ''vg1'' then ((Some demo_lvg, None), h)
                     else ((None, Some (Leaf ''vg not found'' ''volume group not found'')), h)),
     Lvm_PVs = (\<lambda>n h. if h then (Inl demo_missing, h) else (Inr [demo_pv], h)),
     Lvm_exec = demo_exec,
     Api_Get = (\<lambda>k h. if k = ''deleted'' then (Inr demo_deleted, h)
                      else if k = ''vg1'' then (Inr demo_vg, h) else (Inl demo_not_found, h)),
     Api_Update = (\<lambda>vg h. (None, h)), Api_StatusUpdate = (\<lambda>vg h. (None, h)),
     Time_Now = (\<lambda>h. (30000000000, h))\<rparr>"

definition demo_world :: "bool \<Rightarrow> (int, bool) world" where
  "demo_world degraded = \<lparr>host = degraded, trace = []\<rparr>"

lemmas demo_defs = demo_env_def demo_world_def demo_vg_def demo_meta_def demo_spec_def
  demo_status_def demo_lvg_def demo_pv_def demo_bytes_def demo_output_def demo_missing_def
  demo_not_found_def demo_deleted_def

section \<open>The environment has the contracts that the properties assume\<close>

lemma demo_condition_store: "condition_store demo_env"
proof -
  have find_map: "find (\<lambda>d. cond_Type d = t) (map (\<lambda>d. if cond_Type d = cond_Type c then c else d) cs)
      = (if t = cond_Type c then (if \<exists>d \<in> set cs. cond_Type d = t then Some c else None)
         else find (\<lambda>d. cond_Type d = t) cs)" for t c cs
    by (induction cs) auto
  have find_app: "find P (cs @ ds) = (case find P cs of None \<Rightarrow> find P ds | Some d \<Rightarrow> Some d)" for P cs ds
    by (induction cs) auto
  have find_no: "\<forall>d \<in> set cs. cond_Type d \<noteq> t \<Longrightarrow> find (\<lambda>d. cond_Type d = t) cs = None" for cs t
    by (simp add: find_None_iff)
  show ?thesis
    by (auto simp: condition_store_def FindStatusCondition_def demo_env_def demo_SetStatusCondition_def
        find_map find_app find_no same_condition_def split: option.split)
qed

end
