(* ===== verification/DeviceProperties.thy ===== *)
theory DeviceProperties
  imports Selector Demo
begin

text \<open>
  Properties of the packages below the controller: slices and names (\<open>internal/utils\<close>), device
  trees (\<open>internal/lsblk\<close>) and selectors (\<open>internal/selector\<close>), each with an instance where it
  has hypotheses.
\<close>

section \<open>Selectors\<close>

text \<open>
  C7. A selection that succeeds returns, sorted and without repetition, exactly the paths of the
  devices, at any depth of the tree that \<open>lsblk\<close> printed, that meet all requirements of at least
  one term: the OR of the terms, the AND of their requirements.
\<close>

theorem selector_denotes:
  assumes "DevicesMatchingSelector E selector w = (Ret (Inr ps), w')" and "selector \<noteq> []"
  shows "\<exists>roots. LSBLK E (selector_columns selector) w = (Ret (Inr roots), w') \<and>
    set ps = {p. \<exists>root \<in> set roots. \<exists>dev trm. below root dev \<and> trm \<in> set selector \<and>
      term_selects E trm dev \<and> device_path dev = Some p} \<and> sorted ps \<and> distinct ps"
proof -
  obtain roots devices where "LSBLK E (selector_columns selector) w = (Ret (Inr roots), w')"
    and "RecursiveBlockDevices roots = Ret devices" and "selectFrom E selector devices = Ret (Inr ps)"
    by (rule DevicesMatchingSelector_ok [OF assms])
  with selectFrom_result [of E selector devices ps] RecursiveBlockDevices_set [of roots devices]
  show ?thesis by (auto simp: selected_paths_def)
qed

definition demo_selector :: PhysicalVolumeSelector where
  "demo_selector =
     [\<lparr>MatchLSBLK = [\<lparr>req_Key = ''TYPE'', req_Operator = ''In'', req_Values = [''part'']\<rparr>]\<rparr>,
      \<lparr>MatchLSBLK = [\<lparr>req_Key = ''PATH'', req_Operator = ''In'', req_Values = [''/dev/sdb'', ''/dev/sdc'']\<rparr>]\<rparr>]"

lemma demo_selection:
  "DevicesMatchingSelector demo_env demo_selector (demo_world False) =
     (Ret (Inr [''/dev/sda1'', ''/dev/sdb'']),
      snd (DevicesMatchingSelector demo_env demo_selector (demo_world False)))"
  by (rule run_pair) code_simp

lemma demo_LSBLK:
  obtains w' where "LSBLK demo_env columns (demo_world d) = (Ret (Inr [demo_sda, demo_sdb]), w')"
proof -
  have "StreamedCommand demo_env c h = (Inr demo_output, h)" for c h by (simp add: demo_env_def)
  from LSBLK_decoded [OF this, where w = "demo_world d"] that show thesis
    by (simp add: demo_output_def)
qed

theorem selector_denotes_witness:
  "{''/dev/sda1'', ''/dev/sdb''} = {p. \<exists>root \<in> {demo_sda, demo_sdb}. \<exists>dev trm. below root dev \<and>
     trm \<in> set demo_selector \<and> term_selects demo_env trm dev \<and> device_path dev = Some p}"
proof -
  obtain w1 where w1: "LSBLK demo_env (selector_columns demo_selector) (demo_world False) =
      (Ret (Inr [demo_sda, demo_sdb]), w1)"
    by (rule demo_LSBLK)
  have "demo_selector \<noteq> []" by (simp add: demo_selector_def)
  from selector_denotes [OF demo_selection this] w1 show ?thesis by auto
qed

text \<open>
  C23. Whether a selection succeeds depends on the devices alone: when no device of the tree has a
  malformed list of children, every device has a path, and every requirement can be decided on
  every device, the result is the sorted list of the paths of the devices that meet a term.
\<close>

theorem selection_total:
  assumes "LSBLK E (selector_columns selector) w = (Ret (Inr roots), w')" and "selector \<noteq> []"
    and "\<forall>root \<in> set roots. well_shaped root"
    and "\<forall>root \<in> set roots. \<forall>dev. below root dev \<longrightarrow> device_path dev \<noteq> None \<and>
      (\<forall>trm \<in> set selector. \<forall>req \<in> set (MatchLSBLK trm). well_typed_for E dev req)"
  shows "DevicesMatchingSelector E selector w =
    (Ret (Inr (sorted_list_of_set {p. \<exists>root \<in> set roots. \<exists>dev trm. below root dev \<and>
       trm \<in> set selector \<and> term_selects E trm dev \<and> device_path dev = Some p})), w')"
proof -
  obtain devices where devices: "RecursiveBlockDevices roots = Ret devices"
    using RecursiveBlockDevices_defined assms(3) by blast
  note in_tree = RecursiveBlockDevices_set [OF devices]
  have "selectFrom E selector devices = Ret (Inr (sorted_list_of_set (selected_paths E selector devices)))"
    using assms(4) by (intro selectFrom_decided) (auto simp: in_tree decidable_on_iff)
  moreover have "selected_paths E selector devices = {p. \<exists>root \<in> set roots. \<exists>dev trm. below root dev \<and>
      trm \<in> set selector \<and> term_selects E trm dev \<and> device_path dev = Some p}"
    by (auto simp: selected_paths_def in_tree)
  ultimately show ?thesis using DevicesMatchingSelector_run [OF assms(1,2) devices] by simp
qed

lemma demo_tree: "below demo_sda dev \<longleftrightarrow> dev \<in> {demo_sda, demo_sda1}" "below demo_sdb dev \<longleftrightarrow> dev = demo_sdb"
  "below demo_sda1 dev \<longleftrightarrow> dev = demo_sda1"
proof -
  have cs: "Children demo_sda = Ret [demo_sda1]" "Children demo_sdb = Ret []" "Children demo_sda1 = Ret []"
    by code_simp+
  show *: "below demo_sda1 dev \<longleftrightarrow> dev = demo_sda1"
    using below_unfold [of demo_sda1 dev] cs(3) by auto
  show "below demo_sdb dev \<longleftrightarrow> dev = demo_sdb"
    using below_unfold [of demo_sdb dev] cs(2) by auto
  show "below demo_sda dev \<longleftrightarrow> dev \<in> {demo_sda, demo_sda1}"
    using below_unfold [of demo_sda dev] cs(1) * by auto
qed

lemma demo_shaped: "r \<in> {demo_sda, demo_sdb, demo_sda1} \<Longrightarrow> well_shaped r"
proof -
  have "\<exists>cs. Children demo_sda = Ret cs" "\<exists>cs. Children demo_sdb = Ret cs" "\<exists>cs. Children demo_sda1 = Ret cs"
    by (rule exI [of _ "[demo_sda1]"], code_simp, (rule exI [of _ "[]"], code_simp)+)
  then show "r \<in> {demo_sda, demo_sdb, demo_sda1} \<Longrightarrow> well_shaped r"
    by (auto simp: well_shaped_def demo_tree)
qed

theorem selection_total_witness:
  "\<exists>w'. DevicesMatchingSelector demo_env demo_selector (demo_world False) =
     (Ret (Inr (sorted_list_of_set {p. \<exists>root \<in> set [demo_sda, demo_sdb]. \<exists>dev trm. below root dev \<and>
       trm \<in> set demo_selector \<and> term_selects demo_env trm dev \<and> device_path dev = Some p})), w')"
proof -
  obtain w1 where w1: "LSBLK demo_env (selector_columns demo_selector) (demo_world False) =
      (Ret (Inr [demo_sda, demo_sdb]), w1)"
    by (rule demo_LSBLK)
  have typed: "\<forall>dev \<in> set [demo_sda, demo_sda1, demo_sdb]. device_path dev \<noteq> None \<and>
      (\<forall>trm \<in> set demo_selector. \<forall>req \<in> set (MatchLSBLK trm). well_typed_for demo_env dev req)"
    by code_simp
  have "demo_selector \<noteq> []" by (simp add: demo_selector_def)
  from selection_total [OF w1 this] typed show ?thesis by (auto simp: demo_tree demo_shaped)
qed

text \<open>
  C35. \<open>lsblk\<close> prints null for a column that a device has no value for. An \<open>In\<close> requirement on
  such a column does not fail to match: the type assertion of \<open>GetString\<close> panics, and with it the
  whole selection.
\<close>

theorem null_column_panics:
  assumes "LSBLK E (selector_columns selector) w = (Ret (Inr (dev # roots)), w')"
    and "\<forall>root \<in> set (dev # roots). well_shaped root"
    and "selector = \<lparr>MatchLSBLK = req # reqs\<rparr> # terms"
    and "req_Operator req = PVSelectorOpIn" "req_Values req \<noteq> []"
    and "Get dev (Column (req_Key req)) = Some GNil"
  shows "DevicesMatchingSelector E selector w = (Panic TypeAssertion, w')"
proof -
  obtain devices where devices: "RecursiveBlockDevices (dev # roots) = Ret devices"
    using RecursiveBlockDevices_defined assms(2) by blast
  then obtain rest where rest: "devices = dev # rest" by (auto simp: obind_eq_Ret)
  have "matchesLSBLKRequirement E dev req = Panic TypeAssertion"
    using assms(4-6)
    by (simp add: matchesLSBLKRequirement_def operator_defs matches_In_panics string_or_absent_def)
  then have "selectFrom E selector devices = Panic TypeAssertion"
    by (simp add: selectFrom_def rest assms(3))
  with DevicesMatchingSelector_run [OF assms(1) _ devices] assms(3) show ?thesis by simp
qed

definition demo_label_selector :: PhysicalVolumeSelector where
  "demo_label_selector =
     [\<lparr>MatchLSBLK = [\<lparr>req_Key = ''LABEL'', req_Operator = ''In'', req_Values = [''data'']\<rparr>]\<rparr>]"

theorem null_column_panics_witness:
  "\<exists>w'. DevicesMatchingSelector demo_env demo_label_selector (demo_world False) = (Panic TypeAssertion, w')"
proof -
  obtain w1 where w1: "LSBLK demo_env (selector_columns demo_label_selector) (demo_world False) =
      (Ret (Inr [demo_sda, demo_sdb]), w1)"
    by (rule demo_LSBLK)
  have null: "Get demo_sda (Column ''LABEL'') = Some GNil" by code_simp
  show ?thesis
    by (rule exI, rule null_column_panics [OF w1 _ demo_label_selector_def])
      (auto simp: demo_shaped operator_defs null)
qed





text \<open>
  A term without requirements selects every device of the tree that has a path, whatever else
  it is; the comment on the type says that an empty term matches no objects.
\<close>

theorem empty_term_selects_all:
  assumes "LSBLK E [ColumnPath] w = (Ret (Inr roots), w')"
    and "\<forall>root \<in> set roots. well_shaped root"
    and "\<forall>root \<in> set roots. \<forall>dev. below root dev \<longrightarrow> device_path dev \<noteq> None"
  shows "\<exists>ps. DevicesMatchingSelector E [\<lparr>MatchLSBLK = []\<rparr>] w = (Ret (Inr ps), w') \<and>
    set ps = {p. \<exists>root \<in> set roots. \<exists>dev. below root dev \<and> device_path dev = Some p}"
proof -
  obtain devices where devices: "RecursiveBlockDevices roots = Ret devices"
    using RecursiveBlockDevices_defined assms(2) by blast
  note in_tree = RecursiveBlockDevices_set [OF devices]
  let ?all = "[\<lparr>MatchLSBLK = []\<rparr>]"
  have fine: "selectFrom E ?all devices = Ret (Inr (sorted_list_of_set (selected_paths E ?all devices)))"
    using assms(3) by (intro selectFrom_decided) (auto simp: in_tree)
  note finite_selected_paths [of E ?all devices]
  moreover have "selected_paths E ?all devices =
      {p. \<exists>root \<in> set roots. \<exists>dev. below root dev \<and> device_path dev = Some p}"
    by (auto simp: selected_paths_def in_tree term_selects_def)
  moreover have "selector_columns ?all = [ColumnPath]" by (simp add: selector_columns_def sort_compact_def)
  ultimately show ?thesis
    using DevicesMatchingSelector_run [OF _ _ devices, of E ?all w w'] assms(1) fine by simp
qed

theorem empty_term_selects_all_witness:
  "\<exists>ps w'. DevicesMatchingSelector demo_env [\<lparr>MatchLSBLK = []\<rparr>] (demo_world False) = (Ret (Inr ps), w') \<and>
     set ps = {''/dev/sda'', ''/dev/sda1'', ''/dev/sdb''}"
proof -
  obtain w1 where w1: "LSBLK demo_env [ColumnPath] (demo_world False) = (Ret (Inr [demo_sda, demo_sdb]), w1)"
    by (rule demo_LSBLK)
  have paths: "device_path demo_sda = Some ''/dev/sda''" "device_path demo_sda1 = Some ''/dev/sda1''"
    "device_path demo_sdb = Some ''/dev/sdb''"
    by code_simp+
  have "{p. \<exists>root \<in> set [demo_sda, demo_sdb]. \<exists>dev. below root dev \<and> device_path dev = Some p} =
      {''/dev/sda'', ''/dev/sda1'', ''/dev/sdb''}"
    by (auto simp: demo_tree paths)
  with empty_term_selects_all [OF w1] show ?thesis by (simp add: demo_shaped demo_tree paths) blast
qed

section \<open>Device trees and columns\<close>

text \<open>
  C34. \<open>RecursiveBlockDevices\<close> returns a result exactly when every device of the tree, at any
  depth, has a well-formed list of children or none; otherwise it panics. The recursion ends in
  every case.
\<close>

theorem flatten_defined:
  "(\<exists>ds. RecursiveBlockDevices devices = Ret ds) \<longleftrightarrow> (\<forall>r \<in> set devices. well_shaped r)"
  by (rule RecursiveBlockDevices_defined)

theorem flatten_defined_witness:
  "\<exists>ds. RecursiveBlockDevices [demo_sda, demo_sdb] = Ret ds"
  using flatten_defined [of "[demo_sda, demo_sdb]"] demo_shaped by simp

text \<open>
  C33. The flattened list is the tree in preorder: a device, then everything below it, then its
  later siblings; as a set it is the devices reachable over children, the listed ones included.
\<close>

theorem flatten_preorder:
  assumes "RecursiveBlockDevices (xs @ dev # ys) = Ret ds" and "Children dev = Ret cs"
  shows "(\<exists>as bs es. RecursiveBlockDevices xs = Ret as \<and> RecursiveBlockDevices cs = Ret bs \<and>
    RecursiveBlockDevices ys = Ret es \<and> ds = as @ dev # bs @ es) \<and>
    set ds = {d. \<exists>r \<in> set (xs @ dev # ys). below r d}"
  using assms RecursiveBlockDevices_set [OF assms(1)]
  by (auto simp: RecursiveBlockDevices_append obind_eq_Ret)

theorem flatten_preorder_witness:
  "RecursiveBlockDevices [demo_sda, demo_sdb] = Ret [demo_sda, demo_sda1, demo_sdb] \<and>
   set [demo_sda, demo_sda1, demo_sdb] = {d. \<exists>r \<in> set [demo_sda, demo_sdb]. below r d}"
proof -
  have run: "RecursiveBlockDevices ([] @ demo_sda # [demo_sdb]) = Ret [demo_sda, demo_sda1, demo_sdb]"
    by code_simp
  have "Children demo_sda = Ret [demo_sda1]" by code_simp
  from flatten_preorder [OF run this] run show ?thesis by simp
qed

text \<open>
  C40. The columns of \<open>lsblk\<close>: no two are the same, their lower-cased names, under which the JSON
  output stores them, are pairwise different too, they are the keys that the API server accepts
  in a selector, and a selection asks \<open>lsblk\<close> for the path and the keys of its requirements, each
  once and in order.
\<close>

theorem columns_correct:
  "distinct (map (ToLower \<circ> column_string) lsblk_columns) \<and>
   map Column selector_key_enum = lsblk_columns \<and>
   set (selector_columns selector) = insert ColumnPath
     {Column (req_Key req) | req trm. trm \<in> set selector \<and> req \<in> set (MatchLSBLK trm)} \<and>
   sorted (selector_columns selector) \<and> distinct (selector_columns selector)"
proof (intro conjI)
  have "distinct (map column_string lsblk_columns)" by (simp add: lsblk_columns_def)
  moreover have "list_all (list_all (\<lambda>c. \<not> is_lower c) \<circ> column_string) lsblk_columns" by code_simp
  ultimately show "distinct (map (ToLower \<circ> column_string) lsblk_columns)"
    by (auto simp: distinct_map inj_on_def list_all_iff dest!: ToLower_inj)
  show "map Column selector_key_enum = lsblk_columns"
    by (simp add: selector_key_enum_def lsblk_columns_def)
  show "set (selector_columns selector) = insert ColumnPath
      {Column (req_Key req) | req trm. trm \<in> set selector \<and> req \<in> set (MatchLSBLK trm)}"
    by (auto simp: selector_columns_def)
qed (simp_all add: selector_columns_def)

section \<open>Slices and names\<close>

text \<open>
  C22. \<open>SequentialTwoWaySync\<close> calls the first callback with the wanted elements that are absent,
  then, if that succeeded, the second with the present ones that are not wanted, each in the order
  of its slice and only when there are any.
\<close>

theorem two_way_sync:
  "SequentialTwoWaySync desired current new old =
     (let missing = filter (\<lambda>x. x \<notin> set current) desired;
          surplus = filter (\<lambda>x. x \<notin> set desired) current
      in if missing = [] then (if surplus = [] then return None else old surplus)
         else andThen (new missing) (\<lambda>err. case err of Some e \<Rightarrow> return (Some e)
                | None \<Rightarrow> if surplus = [] then return None else old surplus))"
  by (simp add: SequentialTwoWaySync_def InLeftButNotInRight_filter Let_def)

text \<open>
  C39. \<open>ToSnakeCase\<close> yields text without upper-case letters, leaves such text alone, and only
  inserts underscores and lower-cases; the allocation policies of the API become lvm2's.
\<close>

theorem snake_case:
  "list_all (\<lambda>c. \<not> is_upper c) (ToSnakeCase s) \<and> ToSnakeCase (ToSnakeCase s) = ToSnakeCase s \<and>
   filter (\<lambda>c. c \<noteq> CHR ''_'') (ToSnakeCase s) = ToLower (filter (\<lambda>c. c \<noteq> CHR ''_'') s) \<and>
   map ToSnakeCase allocation_policies =
     [''contiguous'', ''normal'', ''cling'', ''cling_by_tags'', ''anywhere'', ''inherit'']"
proof (intro conjI)
  have lower: "\<forall>c \<in> set (ToSnakeCase s). \<not> is_upper c"
    by (auto simp: ToSnakeCase_def dest: no_upper_ToLower)
  then show "list_all (\<lambda>c. \<not> is_upper c) (ToSnakeCase s)" by (simp add: list_all_iff)
  from lower show "ToSnakeCase (ToSnakeCase s) = ToSnakeCase s"
    by (simp add: ToSnakeCase_def [of "ToSnakeCase s"] matchFirstCap_no_upper matchAllCap_no_upper
        ToLower_no_upper)
  show "filter (\<lambda>c. c \<noteq> CHR ''_'') (ToSnakeCase s) = ToLower (filter (\<lambda>c. c \<noteq> CHR ''_'') s)"
    by (simp add: ToSnakeCase_def filter_underscore_ToLower filter_underscore_all filter_underscore_first)
  show "map ToSnakeCase allocation_policies =
      [''contiguous'', ''normal'', ''cling'', ''cling_by_tags'', ''anywhere'', ''inherit'']"
    by code_simp
qed

end
