(* ===== verification/SyncProperties.thy ===== *)
theory SyncProperties
  imports Convergence LossRecovery Demo
begin

text \<open>
  Properties of \<open>sync\<close>: which commands it issues, what it achieves, when it returns and what it
  reports. Each has an instance where it has hypotheses; \<open>lab_env\<close> is an outside that keeps the
  state of one volume group and obeys \<open>lvm_contract\<close>.
\<close>

section \<open>A volume group that obeys the contract\<close>

record lab_host =
  lab_pvs :: "string list"
  lab_state :: lvm_state


fun lab_exec :: "lvm_cmd \<Rightarrow> lab_host \<Rightarrow> goerror option \<times> lab_host" where
  "lab_exec (VGChange m opt) h =
     (None, if m = ''vg1'' then h\<lparr>lab_state := change_effect opt (lab_state h)\<rparr> else h)"
| "lab_exec (VGExtend m pvs) h = (None, if m = ''vg1'' then h\<lparr>lab_pvs := lab_pvs h @ pvs\<rparr> else h)"
| "lab_exec (VGReduce opts) h =
     (None, if RedName ''vg1'' \<in> set opts \<and> RedRemoveMissing True \<notin> set opts
            then h\<lparr>lab_pvs := filter (\<lambda>p. p \<notin> set (concat (map named_pvs opts))) (lab_pvs h)\<rparr> else h)"
| "lab_exec _ h = (None, h)"

definition lab_env :: "(int, lab_host) env" where
  "lab_env = \<lparr>
     ParseQuantity = ParseQuantity demo_env, NewQuantity = sint, Cmp = Cmp demo_env,
     AsApproximateFloat64 = AsApproximateFloat64 demo_env,
     Size_Validate = (\<lambda>s. None), Size_ToUnit = (\<lambda>s u. Inr s), unrepresentable_int64 = (\<lambda>f. 0),
     IsLVMErrVGMissingPVs = IsLVMErrVGMissingPVs demo_env,
     IsLVMErrNotFound = IsLVMErrNotFound demo_env, ErrVolumeGroupNotFound = ''vg not found'',
     IgnoreNotFound = IgnoreNotFound demo_env,
     SetStatusCondition = (\<lambda>h. demo_SetStatusCondition),
     AddFinalizer = AddFinalizer demo_env, RemoveFinalizer = RemoveFinalizer demo_env,
     IsContainerized = (\<lambda>h. False), StreamedCommand = (\<lambda>c h. (Inr demo_output, h)),
     Lvm_VG = (\<lambda>n h. ((None, None), h)),
     Lvm_PVs = (\<lambda>n h. (Inr (map (\<lambda>p. demo_pv\<lparr>lpv_Name := p\<rparr>) (lab_pvs h)), h)),
     Lvm_exec = lab_exec,
     Api_Get = (\<lambda>k h. (Inl demo_not_found, h)), Api_Update = (\<lambda>vg h. (None, h)),
     Api_StatusUpdate = (\<lambda>vg h. (None, h)), Time_Now = (\<lambda>h. (0, h))\<rparr>"

text \<open>A group with a tag too many, one missing, the wrong device and the wrong policy.\<close>

definition lab_start :: lab_host where
  "lab_start = \<lparr>lab_pvs = [''/dev/sdc''], lab_state = \<lparr>ls_tags = {''b''}, ls_pvs = {}, ls_maxpv = 0,
     ls_maxlv = 0, ls_policy = ''cling'', ls_auto = True\<rparr>\<rparr>"


definition lab_world :: "(int, lab_host) world" where
  "lab_world = \<lparr>host = lab_start, trace = []\<rparr>"



section \<open>What sync achieves\<close>



section \<open>Which commands sync issues\<close>


lemma demo_classifies: "classifies_missing demo_env"
proof -
  have wrapf: "IsLVMErrVGMissingPVs demo_env (Some (Wrapf s e)) = IsLVMErrVGMissingPVs demo_env (Some e)" for s e
    by (simp add: demo_env_def)
  have joined: "IsLVMErrVGMissingPVs demo_env (Some (Joined es)) =
      (\<exists>e \<in> set es. IsLVMErrVGMissingPVs demo_env (Some e))" for es
    by (simp add: demo_env_def list_ex_iff)
  show ?thesis unfolding classifies_missing_def
    using wrapf joined by (simp add: demo_env_def errorf_def)
qed

lemma demo_settles: "settles demo_env (\<lambda>degraded. \<not> degraded)"
proof -
  have exec: "demo_exec c False = (None, False)" for c by (cases c) auto
  have quantity: "\<not> IsLVMErrVGMissingPVs demo_env (Some e)" if "ParseQuantity demo_env s = Inl e" for s e
    using that by (auto simp: demo_env_def split: if_splits)
  show ?thesis
    unfolding settles_def using quantity by (auto simp: exec demo_env_def demo_output_def)
qed






text \<open>
  C21. When the observation agrees with the spec in every respect, \<open>sync\<close> returns without an
  error and without a command that changes anything.
\<close>

theorem sync_no_op:
  assumes "tags_agree vg l w" "pvs_agree E vg l w" "limits_agree vg l w" "policy_agrees vg l w"
    and "activation_agrees vg l w" "name_agrees vg l w" and "\<not> IsLVMErrVGMissingPVs E None"
  shows "\<exists>vg' w' es. sync E vg (Some l) w = Some (Ret (vg', None), w') \<and>
    trace w' = trace w @ es \<and> (\<forall>e \<in> set es. read_only e)"
  by (rule sync_in_sync) (use assms in \<open>simp_all add: in_sync_def\<close>)

theorem sync_no_op_witness:
  "\<exists>vg' w'. sync demo_env demo_vg (Some demo_lvg) (demo_world False) = Some (Ret (vg', None), w') \<and>
     (\<forall>e \<in> set (trace w'). read_only e)"
proof -
  have agree: "tags_agree demo_vg demo_lvg (demo_world False)" "limits_agree demo_vg demo_lvg (demo_world False)"
    "policy_agrees demo_vg demo_lvg (demo_world False)" "activation_agrees demo_vg demo_lvg (demo_world False)"
    "name_agrees demo_vg demo_lvg (demo_world False)" "pvs_agree demo_env demo_vg demo_lvg (demo_world False)"
    by code_simp+
  have "\<not> IsLVMErrVGMissingPVs demo_env None" by (simp add: demo_env_def)
  from sync_no_op [OF agree(1,6,2-5) this] show ?thesis by (auto simp: demo_world_def)
qed

section \<open>What sync reports\<close>




text \<open>
  C32. When the removal of lost devices fails, \<open>sync\<close> returns the error but leaves the condition
  pending: this failure is not reported in the status.
\<close>

theorem failed_removal_stays_pending:
  assumes "condition_store E"
    and "run_syncers (syncers E) (pending_vg E (host w) vg) (Some l) [] w = (Ret errs, w1)"
    and "IsLVMErrVGMissingPVs E (errors_Join errs)"
    and "spec_DeviceLossSynchronizationPolicy (vg_Spec vg) \<noteq> DeviceLossFail"
    and "exec_lvm E (VGReduce (reduce_options (spec_DeviceLossSynchronizationPolicy (vg_Spec vg)) (lvg_Name l))) w1
      = (Ret (Some e), w2)"
  shows "\<exists>vg' f. sync E vg (Some l) w = Some (Ret (vg', Some f), w2) \<and>
    reports vg' (pending_condition (GetGeneration vg))"
proof -
  have "\<exists>f. sync_round E vg (Some l) w = (Ret (Done (pending_vg E (host w) vg) (Some f)), w2)"
    using assms(2-5)
    by (simp add: sync_round_def conclude_round_def handle_device_loss_def Let_def andThen_run return_run
        read_host_def deref_def)
  moreover have "reports (pending_vg E (host w) vg) (pending_condition (GetGeneration vg))"
    unfolding pending_vg_def SetSyncedOnHostDefault_def
    by (rule reports_set_Conditions [OF assms(1)]) simp
  ultimately show ?thesis by (auto simp: sync.simps [of E vg])
qed

definition stuck_env :: "(int, bool) env" where
  "stuck_env = demo_env\<lparr>Lvm_exec := \<lambda>c h. (Some demo_missing, h)\<rparr>"

lemma stuck_condition_store: "condition_store stuck_env"
  using demo_condition_store by (simp add: condition_store_def stuck_env_def)

theorem failed_removal_stays_pending_witness:
  "\<exists>vg' f w'. sync stuck_env demo_vg (Some demo_lvg) (demo_world True) = Some (Ret (vg', Some f), w') \<and>
     reports vg' (pending_condition 3)"
proof -
  let ?vg = "pending_vg stuck_env (host (demo_world True)) demo_vg"
  have "(case run_syncers (syncers stuck_env) ?vg (Some demo_lvg) [] (demo_world True) of (r, w1) \<Rightarrow>
      (case r of
         Ret errs \<Rightarrow> IsLVMErrVGMissingPVs stuck_env (errors_Join errs)
       | Panic p \<Rightarrow> False))"
    by code_simp
  then obtain errs w1 where 1: "run_syncers (syncers stuck_env) ?vg (Some demo_lvg) [] (demo_world True) = (Ret errs, w1)"
      "IsLVMErrVGMissingPVs stuck_env (errors_Join errs)"
    by (auto split: prod.splits outcome.splits)
  obtain w2 where "exec_lvm stuck_env (VGReduce (reduce_options (spec_DeviceLossSynchronizationPolicy (vg_Spec demo_vg))
      (lvg_Name demo_lvg))) w1 = (Ret (Some demo_missing), w2)"
    by (simp add: exec_lvm_def stuck_env_def)
  moreover have "spec_DeviceLossSynchronizationPolicy (vg_Spec demo_vg) \<noteq> DeviceLossFail" by code_simp
  ultimately have "\<exists>vg' f. sync stuck_env demo_vg (Some demo_lvg) (demo_world True) = Some (Ret (vg', Some f), w2) \<and>
      reports vg' (pending_condition (GetGeneration demo_vg))"
    using failed_removal_stays_pending [OF stuck_condition_store 1] by blast
  moreover have "GetGeneration demo_vg = 3" by (simp add: demo_vg_def demo_meta_def)
  ultimately show ?thesis by metis
qed

section \<open>When sync returns\<close>

text \<open>
  C17. \<open>sync\<close> returns (with a result or a panic) wherever a successful removal of missing devices
  leaves the host in states in which the commands of a round report none missing (\<open>settles\<close>),
  and errors are classified through wrapping and joining. It recurses at most once then.
\<close>

theorem sync_terminates:
  assumes "classifies_missing E" and "settles E I"
  shows "\<exists>r w'. sync E vg lvm w = Some (r, w')"
  using sync_returns [OF assms] by fastforce

theorem sync_terminates_witness:
  "\<exists>r w'. sync demo_env demo_vg (Some demo_lvg) (demo_world True) = Some (r, w')"
  by (rule sync_terminates [OF demo_classifies demo_settles])

text \<open>
  C31. The recursion itself has no bound: where lvm2 goes on reporting missing devices after each
  removal it says it has done, \<open>sync\<close> does not return, as long as its calls do not fail
  otherwise (the deadline of the caller's context is such a failure).
\<close>

theorem sync_unbounded:
  assumes "classifies_missing E"
    and "\<And>n h. \<exists>e h'. Lvm_PVs E n h = (Inl e, h') \<and> IsLVMErrVGMissingPVs E (Some e)"
    and "\<And>opts h. RedRemoveMissing True \<in> set opts \<Longrightarrow> fst (Lvm_exec E (VGReduce opts) h) = None"
    and "\<And>w. \<exists>ps w'. getPhysicalVolumeNames E vg w = (Ret (Inr ps), w')"
    and "spec_DeviceLossSynchronizationPolicy (vg_Spec vg) \<noteq> DeviceLossFail"
  shows "sync E vg (Some l) w = None"
proof (rule sync_forever [where J = "\<lambda>vg' w. vg_Spec vg' = vg_Spec vg"])
  fix vg' :: "'a VolumeGroup" and w :: "('a, 'b) world"
  assume same: "vg_Spec vg' = vg_Spec vg"
  let ?vg = "pending_vg E (host w) vg'"
  have spec: "vg_Spec ?vg = vg_Spec vg" by (simp add: same)
  have pvs: "\<exists>e w2. syncPVs E ?vg (Some l) w1 = (Ret (Some e), w2) \<and> IsLVMErrVGMissingPVs E (Some e)" for w1
  proof -
    obtain ps w2 where names: "getPhysicalVolumeNames E ?vg w1 = (Ret (Inr ps), w2)"
      using assms(4) getPhysicalVolumeNames_cong [OF spec] by metis
    obtain e h' where q: "Lvm_PVs E (lvg_Name l) (host w2) = (Inl e, h')" "IsLVMErrVGMissingPVs E (Some e)"
      using assms(2) by blast
    with names assms(1) show ?thesis
      by (auto simp: syncPVs_def Let_def andThen_run return_run deref_def query_PVs_def classifies_missing_def)
  qed
  have "never_panics (getPhysicalVolumeNames E ?vg)"
    unfolding getPhysicalVolumeNames_cong [OF spec] never_panics_def using assms(4) by blast
  then have "never_panics (run_syncers (syncers E) ?vg (Some l) [])"
    by (intro never_panics_run_syncers never_panics_syncers)
  then obtain errs w1 where run: "run_syncers (syncers E) ?vg (Some l) [] w = (Ret errs, w1)"
    by (rule never_panicsE)
  then have "\<exists>e \<in> set errs. IsLVMErrVGMissingPVs E e"
    using run_syncers_second pvs by (metis Pair_inject outcome.inject(1))
  then have "IsLVMErrVGMissingPVs E (errors_Join errs)" using harmless_Join [OF assms(1)] by blast
  moreover obtain w2 where "exec_lvm E (VGReduce (reduce_options (spec_DeviceLossSynchronizationPolicy (vg_Spec vg))
      (lvg_Name l))) w1 = (Ret None, w2)"
    using assms(3) [OF reduce_options_missing, of "spec_DeviceLossSynchronizationPolicy (vg_Spec vg)" "lvg_Name l" "host w1"]
    by (simp add: exec_lvm_run)
  ultimately have "sync_round E vg' (Some l) w = (Ret (Again ?vg), w2)"
    using run assms(5)
    by (simp add: sync_round_def conclude_round_def handle_device_loss_def Let_def andThen_run return_run
        read_host_def deref_def same)
  with spec show "\<exists>vg'' w'. sync_round E vg' (Some l) w = (Ret (Again vg''), w') \<and> vg_Spec vg'' = vg_Spec vg"
    by blast
qed simp

definition hopeless_env :: "(int, bool) env" where
  "hopeless_env = demo_env\<lparr>Lvm_PVs := \<lambda>n h. (Inl demo_missing, h), Lvm_exec := \<lambda>c h. (None, h)\<rparr>"

lemma hopeless_names: "\<exists>w'. getPhysicalVolumeNames hopeless_env demo_vg w = (Ret (Inr [''/dev/sdb'']), w')"
proof -
  let ?sel = "spec_PhysicalVolumeSelector (vg_Spec demo_vg)"
  have "StreamedCommand hopeless_env c h = (Inr demo_output, h)" for c h
    by (simp add: hopeless_env_def demo_env_def)
  from LSBLK_decoded [OF this, where w = w] obtain w' where
    ls: "LSBLK hopeless_env (selector_columns ?sel) w = (Ret (Inr [demo_sda, demo_sdb]), w')"
    by (simp add: demo_output_def)
  have flat: "RecursiveBlockDevices [demo_sda, demo_sdb] = Ret [demo_sda, demo_sda1, demo_sdb]" by code_simp
  have "?sel \<noteq> []" by (simp add: demo_vg_def demo_spec_def)
  moreover have "selectFrom hopeless_env ?sel [demo_sda, demo_sda1, demo_sdb] = Ret (Inr [''/dev/sdb''])"
    by code_simp
  ultimately have "DevicesMatchingSelector hopeless_env ?sel w = (Ret (Inr [''/dev/sdb'']), w')"
    using DevicesMatchingSelector_run [OF ls _ flat] by simp
  then show ?thesis by (simp add: getPhysicalVolumeNames_def andThen_run return_run)
qed

theorem sync_unbounded_witness:
  "sync hopeless_env demo_vg (Some demo_lvg) (demo_world True) = None"
proof (rule sync_unbounded)
  show "classifies_missing hopeless_env"
    using demo_classifies by (simp add: classifies_missing_def hopeless_env_def)
  show "\<exists>e h'. Lvm_PVs hopeless_env n h = (Inl e, h') \<and> IsLVMErrVGMissingPVs hopeless_env (Some e)" for n h
    by (simp add: hopeless_env_def demo_env_def demo_missing_def)
  show "fst (Lvm_exec hopeless_env (VGReduce opts) h) = None" for opts h
    by (simp add: hopeless_env_def)
  show "\<exists>ps w'. getPhysicalVolumeNames hopeless_env demo_vg w = (Ret (Inr ps), w')" for w
    using hopeless_names by blast
  show "spec_DeviceLossSynchronizationPolicy (vg_Spec demo_vg) \<noteq> DeviceLossFail" by code_simp
qed

text \<open>
  With a nil observation, which \<open>Reconcile\<close> passes on after it has created the group itself
  while the finalizer was already there, \<open>sync\<close> panics in the first syncer, before any call.
\<close>

theorem sync_nil_panics:
  "sync E vg None w = Some (Panic NilDereference, w)"
  by (rule sync_nil)

section \<open>Removing devices\<close>

lemma movePVs_trace:
  assumes "movePVs E names desired w = (r, w')"
  shows "(r = Ret None \<and> trace w' = trace w @ map (\<lambda>pv. EvLvm (PVMove pv desired) None) names) \<or>
    (\<exists>moved pv rest e. names = moved @ pv # rest \<and> r = Ret (Some e) \<and>
       trace w' = trace w @ map (\<lambda>pv. EvLvm (PVMove pv desired) None) moved @ [EvLvm (PVMove pv desired) (Some e)])"
  using assms
proof (induction names arbitrary: w)
  case Nil
  then show ?case by (simp add: return_run)
next
  case (Cons pv names)
  let ?x = "fst (Lvm_exec E (PVMove pv desired) (host w))"
  let ?w = "log_event (EvLvm (PVMove pv desired) ?x) (snd (Lvm_exec E (PVMove pv desired) (host w))) w"
  show ?case
  proof (cases ?x)
    case (Some e)
    with Cons.prems show ?thesis
      by (intro disjI2 exI [of _ "[]"] exI [of _ pv] exI [of _ names] exI [of _ e])
        (auto simp: andThen_run exec_lvm_run return_run)
  next
    case None
    with Cons.prems have "movePVs E names desired ?w = (r, w')" by (simp add: andThen_run exec_lvm_run)
    from Cons.IH [OF this] show ?thesis
    proof
      assume "r = Ret None \<and> trace w' = trace ?w @ map (\<lambda>pv. EvLvm (PVMove pv desired) None) names"
      with None show ?thesis by simp
    next
      assume "\<exists>moved pv rest e. names = moved @ pv # rest \<and> r = Ret (Some e) \<and>
        trace w' = trace ?w @ map (\<lambda>pv. EvLvm (PVMove pv desired) None) moved @ [EvLvm (PVMove pv desired) (Some e)]"
      then obtain moved pv' rest e where "names = moved @ pv' # rest" "r = Ret (Some e)"
        "trace w' = trace ?w @ map (\<lambda>pv. EvLvm (PVMove pv desired) None) moved @ [EvLvm (PVMove pv' desired) (Some e)]"
        by blast
      with None show ?thesis
        by (intro disjI2 exI [of _ "pv # moved"] exI [of _ pv'] exI [of _ rest] exI [of _ e]) simp
    qed
  qed
qed

text \<open>
  C14. Under \<open>MoveAndReduce\<close> the group is reduced only after the extents of every device to be
  removed have been moved, in order, to the wanted devices; at the first move that fails nothing
  more is done and its error is the result.
\<close>

theorem move_before_reduce:
  assumes "removePVs E RemovalMoveAndReduce name desired names w = (r, w')"
  shows "(\<exists>x. trace w' = trace w @ map (\<lambda>pv. EvLvm (PVMove pv desired) None) names @
            [EvLvm (VGReduce [RedName name, RedPVs names]) x] \<and> r = Ret x) \<or>
    (\<exists>moved pv rest e. names = moved @ pv # rest \<and> r = Ret (Some e) \<and>
       trace w' = trace w @ map (\<lambda>pv. EvLvm (PVMove pv desired) None) moved @ [EvLvm (PVMove pv desired) (Some e)])"
proof -
  obtain q w1 where moves: "movePVs E names desired w = (q, w1)" by fastforce
  from movePVs_trace [OF moves] show ?thesis
  proof (elim disjE exE conjE)
    assume "q = Ret None" "trace w1 = trace w @ map (\<lambda>pv. EvLvm (PVMove pv desired) None) names"
    with assms moves show ?thesis
      by (intro disjI1) (auto simp: removePVs_def Let_def andThen_run exec_lvm_run)
  next
    fix moved pv rest e
    assume "names = moved @ pv # rest" "q = Ret (Some e)"
      "trace w1 = trace w @ map (\<lambda>pv. EvLvm (PVMove pv desired) None) moved @ [EvLvm (PVMove pv desired) (Some e)]"
    with assms moves show ?thesis
      by (intro disjI2) (auto simp: removePVs_def Let_def andThen_run return_run)
  qed
qed

theorem move_before_reduce_witness:
  "\<exists>x w'. removePVs lab_env RemovalMoveAndReduce ''vg1'' [''/dev/sdb''] [''/dev/sdc''] lab_world = (Ret x, w') \<and>
     (trace w' = [EvLvm (PVMove ''/dev/sdc'' [''/dev/sdb'']) None,
        EvLvm (VGReduce [RedName ''vg1'', RedPVs [''/dev/sdc'']]) None])"
proof -
  obtain r w' where run: "removePVs lab_env RemovalMoveAndReduce ''vg1'' [''/dev/sdb''] [''/dev/sdc''] lab_world = (r, w')"
    by fastforce
  moreover have "snd (case removePVs lab_env RemovalMoveAndReduce ''vg1'' [''/dev/sdb''] [''/dev/sdc''] lab_world of
      (r, w) \<Rightarrow> ((), trace w)) = [EvLvm (PVMove ''/dev/sdc'' [''/dev/sdb'']) None,
        EvLvm (VGReduce [RedName ''vg1'', RedPVs [''/dev/sdc'']]) None]"
    by code_simp
  ultimately show ?thesis using move_before_reduce [OF run] by auto
qed

end
