(* ===== verification/ResourceProperties.thy ===== *)
theory ResourceProperties
  imports SyncStatus Sync Demo
begin

text \<open>
  Properties of the two directions between the resource and lvm2: the spec as arguments of
  \<open>vgcreate\<close> and of the syncers, and the observed group as status.
\<close>

section \<open>Status\<close>

text \<open>
  C12. A status summary that returns no error mirrors lvm2: one entry per physical volume, in the
  order and with the fields that lvm2 reported, and the fields of the group; it asked for nothing
  but the list of physical volumes and left the conditions alone.
\<close>

theorem status_mirrors_lvm:
  assumes "syncStatus E vg (Some l) w = (Ret (vg', None), w')"
  shows "\<exists>pvs. query_PVs E (lvg_Name l) w = (Ret (Inr pvs), w') \<and>
    list_all2 (pv_mirrors E) pvs (st_PhysicalVolumes (vg_Status vg')) \<and>
    group_mirrors E l (vg_Status vg') \<and> st_Conditions (vg_Status vg') = st_Conditions (vg_Status vg) \<and>
    vg_Spec vg' = vg_Spec vg \<and> vg_meta vg' = vg_meta vg"
  using syncStatus_ok [OF assms] .

theorem status_mirrors_lvm_witness:
  "\<exists>vg' w'. syncStatus demo_env demo_vg (Some demo_lvg) (demo_world False) = (Ret (vg', None), w') \<and>
     list_all2 (pv_mirrors demo_env) [demo_pv] (st_PhysicalVolumes (vg_Status vg'))"
proof -
  have "(case syncStatus demo_env demo_vg (Some demo_lvg) (demo_world False) of (r, w) \<Rightarrow>
      (case r of Ret (vg', err) \<Rightarrow> err = None | Panic p \<Rightarrow> False))"
    by code_simp
  then obtain vg' w' where run: "syncStatus demo_env demo_vg (Some demo_lvg) (demo_world False) = (Ret (vg', None), w')"
    by (auto split: prod.splits outcome.splits)
  from status_mirrors_lvm [OF run] run show ?thesis
    by (auto simp: query_PVs_def demo_world_def demo_env_def)
qed

section \<open>Sizes\<close>



section \<open>vgcreate\<close>


text \<open>
  C13. The arguments of \<open>vgcreate\<close>: the group's name on the node, the devices of the selector,
  the tags and limits of the spec and its sizes, each converted; a set \<open>autoActivation\<close> asks for
  no auto-activation and a set \<open>zero\<close> for its opposite, whatever their values mean; the
  allocation policy is passed as the API spells it.
\<close>

theorem create_options:
  assumes "convertToVGCreateOptions E vg w = (Ret (Inr opts), w')"
  shows "(\<exists>names. getPhysicalVolumeNames E vg w = (Ret (Inr names), w') \<and>
      vco_PhysicalVolumeNames opts = names) \<and>
    vco_VolumeGroupName opts = getNameOnNode vg \<and> vco_Tags opts = spec_Tags (vg_Spec vg) \<and>
    vco_AutoActivation opts = map_option (\<lambda>b. SetNoAutoActivate) (spec_AutoActivation (vg_Spec vg)) \<and>
    vco_Zero opts = map_option (\<lambda>z. if z then DoNotZeroVolume else ZeroVolume) (spec_Zero (vg_Spec vg)) \<and>
    vco_AllocationPolicy opts = (case spec_AllocationPolicy (vg_Spec vg) of None \<Rightarrow> [] | Some p \<Rightarrow> p) \<and>
    vco_MaximumPhysicalVolumes opts = (case spec_MaximumPhysicalVolumes (vg_Spec vg) of None \<Rightarrow> 0 | Some n \<Rightarrow> n) \<and>
    vco_MaximumLogicalVolumes opts = (case spec_MaximumLogicalVolumes (vg_Spec vg) of None \<Rightarrow> 0 | Some n \<Rightarrow> n) \<and>
    convertIfSet E (spec_PhysicalExtentSize (vg_Spec vg)) = Inr (vco_PhysicalExtentSize opts) \<and>
    convertIfSet E (spec_MetadataSize (vg_Spec vg)) = Inr (vco_MetadataSize opts) \<and>
    convertIfSet E (spec_DataAlignment (vg_Spec vg)) = Inr (vco_DataAlignment opts) \<and>
    convertIfSet E (spec_DataAlignmentOffset (vg_Spec vg)) = Inr (vco_DataAlignmentOffset opts) \<and>
    vco_Devices opts = spec_Devices (vg_Spec vg) \<and>
    vco_DevicesFile opts = (case spec_DevicesFile (vg_Spec vg) of None \<Rightarrow> [] | Some f \<Rightarrow> f)"
proof -
  obtain names a b c d where *: "getPhysicalVolumeNames E vg w = (Ret (Inr names), w')"
    "convertIfSet E (spec_PhysicalExtentSize (vg_Spec vg)) = Inr a"
    "convertIfSet E (spec_MetadataSize (vg_Spec vg)) = Inr b"
    "convertIfSet E (spec_DataAlignment (vg_Spec vg)) = Inr c"
    "convertIfSet E (spec_DataAlignmentOffset (vg_Spec vg)) = Inr d"
    "opts = device_options (vg_Spec vg) ((plain_options (vg_Spec vg)
       ((initial_options vg)\<lparr>vco_Tags := spec_Tags (vg_Spec vg), vco_PhysicalVolumeNames := names\<rparr>))
       \<lparr>vco_PhysicalExtentSize := a, vco_MetadataSize := b, vco_DataAlignment := c,
        vco_DataAlignmentOffset := d\<rparr>)"
    using assms by (rule convertToVGCreateOptions_ok)
  show ?thesis
    using *(1-5)
    by (cases "spec_AutoActivation (vg_Spec vg)"; cases "spec_Zero (vg_Spec vg)"; cases "spec_Devices (vg_Spec vg)")
      (simp_all add: *(6) device_options_def plain_options_def initial_options_def
        convertToAutoActivation_def convertToZero_def split: option.split)
qed

text \<open>A resource that asks for zeroing and for auto-activation.\<close>

definition demo_flags_vg :: "int VolumeGroup" where
  "demo_flags_vg = demo_vg\<lparr>vg_Spec := demo_spec\<lparr>spec_Zero := Some True, spec_AutoActivation := Some True\<rparr>\<rparr>"

lemma demo_create:
  obtains opts w' where
    "convertToVGCreateOptions demo_env demo_flags_vg (demo_world False) = (Ret (Inr opts), w')"
proof -
  have "(case convertToVGCreateOptions demo_env demo_flags_vg (demo_world False) of (r, w) \<Rightarrow>
      (case r of Ret x \<Rightarrow> (case x of Inr opts \<Rightarrow> True | Inl e \<Rightarrow> False) | Panic p \<Rightarrow> False))"
    by code_simp
  then show thesis by (auto split: prod.splits outcome.splits sum.splits intro: that)
qed

theorem create_options_witness:
  "\<exists>opts w'. convertToVGCreateOptions demo_env demo_flags_vg (demo_world False) = (Ret (Inr opts), w') \<and>
     vco_VolumeGroupName opts = ''vg1'' \<and> vco_AutoActivation opts = Some SetNoAutoActivate \<and>
     vco_Zero opts = Some DoNotZeroVolume \<and> vco_AllocationPolicy opts = ''Normal''"
proof -
  obtain opts w' where run: "convertToVGCreateOptions demo_env demo_flags_vg (demo_world False) = (Ret (Inr opts), w')"
    by (rule demo_create)
  from create_options [OF run] run show ?thesis
    by (auto simp: demo_flags_vg_def demo_vg_def demo_spec_def getNameOnNode_def)
qed

section \<open>Flags and policies of the spec\<close>



text \<open>
  C38. Any value of \<open>autoActivation\<close>, true included, makes \<open>sync\<close> switch the auto-activation of
  the group off, and no value makes it switch it on.
\<close>

theorem auto_activation_only_off:
  assumes "spec_AutoActivation (vg_Spec vg) = Some b"
  shows "syncAutoActivation E vg (Some l) =
    (if lvg_AutoActivation l then exec_lvm E (VGChange (lvg_Name l) (ChAutoActivation SetNoAutoActivate))
     else return None)"
  using assms by (simp add: syncAutoActivation_def deref_def convertToAutoActivation_def Let_def)

theorem auto_activation_only_off_witness:
  "spec_AutoActivation (vg_Spec demo_flags_vg) = Some True \<and>
   syncAutoActivation demo_env demo_flags_vg (Some demo_lvg) =
     exec_lvm demo_env (VGChange ''vg1'' (ChAutoActivation SetNoAutoActivate))"
proof -
  have spec: "spec_AutoActivation (vg_Spec demo_flags_vg) = Some True"
    by (simp add: demo_flags_vg_def demo_spec_def)
  from auto_activation_only_off [OF this, of demo_env demo_lvg] spec show ?thesis
    by (simp add: demo_lvg_def)
qed

end
