(* ===== verification/DeepCopyProperties.thy ===== *)
theory DeepCopyProperties
  imports DeepCopy
begin

text \<open>
  Properties of the generated copies: a copy is deeply equal to the original and shares no memory
  with it. The objects that the reconciler reads from the client's cache and writes to are such
  copies, which is why its model passes them as values.
\<close>









text \<open>
  Nil stays nil, without a type in an interface, and allocates nothing; only the selector's
  \<open>DeepCopyInto\<close> turns nil into an empty slice.
\<close>

theorem nil_copies:
  "VolumeGroup_DeepCopy K None h = (None, h) \<and> VolumeGroupList_DeepCopy K None h = (None, h) \<and>
   VolumeGroupSpec_DeepCopy K None h = (None, h) \<and> VolumeGroupStatus_DeepCopy K None h = (None, h) \<and>
   PhysicalVolumeStatus_DeepCopy K None h = (None, h) \<and> PVSelectorTerm_DeepCopy None h = (None, h) \<and>
   LSBLKSelectorRequirement_DeepCopy None h = (None, h) \<and>
   VolumeGroup_DeepCopyObject K None h = (NilObject, h) \<and>
   VolumeGroupList_DeepCopyObject K None h = (NilObject, h) \<and>
   PhysicalVolumeSelector_DeepCopy None h = (None, h) \<and>
   PhysicalVolumeSelector_DeepCopyInto None h =
     (Some \<lparr>sl_array = length h, sl_off = 0, sl_len = 0\<rparr>, h @ [CTerms []])"
  by (simp add: VolumeGroup_DeepCopy_def VolumeGroupList_DeepCopy_def VolumeGroupSpec_DeepCopy_def
      VolumeGroupStatus_DeepCopy_def PhysicalVolumeStatus_DeepCopy_def PVSelectorTerm_DeepCopy_def
      LSBLKSelectorRequirement_DeepCopy_def DeepCopy_object_def VolumeGroup_DeepCopyObject_def
      VolumeGroupList_DeepCopyObject_def PhysicalVolumeSelector_DeepCopy_def
      PhysicalVolumeSelector_DeepCopyInto_def alloc_def)

end
