(* ===== verification/LoopProperties.thy ===== *)
theory LoopProperties
  imports ControlLoop SyncProperties
begin

text \<open>
  Properties of the control loop, and an outside on which they are instantiated: one stored object
  and one volume group, with the contracts that the properties assume.
\<close>

section \<open>An outside with an API server and a volume group\<close>

record loop_host =
  lh_object :: "int VolumeGroup option"
  lh_conflict :: bool
  lh_group :: bool
  lh_tags :: "string list"
  lh_pvs :: "string list"
  lh_maxpv :: int64
  lh_maxlv :: int64
  lh_policy :: string
  lh_auto :: bool

definition loop_view :: "loop_host \<Rightarrow> int cluster" where
  "loop_view h = \<lparr>cl_object = lh_object h, cl_group = lh_group h\<rparr>"


fun loop_change :: "VGChangeOption \<Rightarrow> loop_host \<Rightarrow> loop_host" where
  "loop_change (ChTags ts) h = h\<lparr>lh_tags := lh_tags h @ ts\<rparr>"
| "loop_change (ChDelTags ts) h = h\<lparr>lh_tags := filter (\<lambda>t. t \<notin> set ts) (lh_tags h)\<rparr>"
| "loop_change (ChMaximumPhysicalVolumes k) h = h\<lparr>lh_maxpv := k\<rparr>"
| "loop_change (ChMaximumLogicalVolumes k) h = h\<lparr>lh_maxlv := k\<rparr>"
| "loop_change (ChAllocationPolicy p) h = h\<lparr>lh_policy := p\<rparr>"
| "loop_change (ChAutoActivation a) h = h\<lparr>lh_auto := (a = SetAutoActivate)\<rparr>"

fun loop_exec :: "lvm_cmd \<Rightarrow> loop_host \<Rightarrow> goerror option \<times> loop_host" where
  "loop_exec (VGCreate opts) h =
     (if vco_VolumeGroupName opts \<noteq> ''vg1'' then (None, h)
      else (None, h\<lparr>lh_group := True, lh_pvs := vco_PhysicalVolumeNames opts,
        lh_tags := slice_of (vco_Tags opts), lh_policy := vco_AllocationPolicy opts\<rparr>))"
| "loop_exec (VGChange m opt) h = (None, if m = ''vg1'' then loop_change opt h else h)"
| "loop_exec (VGExtend m pvs) h = (None, if m = ''vg1'' then h\<lparr>lh_pvs := lh_pvs h @ pvs\<rparr> else h)"
| "loop_exec (VGReduce opts) h =
     (None, if RedName ''vg1'' \<in> set opts \<and> RedRemoveMissing True \<notin> set opts
            then h\<lparr>lh_pvs := filter (\<lambda>p. p \<notin> set (concat (map named_pvs opts))) (lh_pvs h)\<rparr> else h)"
| "loop_exec (VGRemove m force) h = (None, if m = ''vg1'' then h\<lparr>lh_group := False\<rparr> else h)"
| "loop_exec _ h = (None, h)"

definition loop_update :: "int VolumeGroup \<Rightarrow> loop_host \<Rightarrow> goerror option \<times> loop_host" where
  "loop_update vg h =
     (case lh_object h of
        None \<Rightarrow> (Some demo_not_found, h)
      | Some old \<Rightarrow>
          if lh_conflict h then (Some (Leaf ''conflict'' ''the object has been modified''), h)
          else if is_deleted old \<and> GetFinalizers vg = [] then (None, h\<lparr>lh_object := None\<rparr>)
          else (None, h\<lparr>lh_object := Some (old\<lparr>vg_Spec := vg_Spec vg,
            vg_meta := (vg_meta vg)\<lparr>meta_DeletionTimestamp := meta_DeletionTimestamp (vg_meta old)\<rparr>\<rparr>)\<rparr>))"

definition loop_status_update :: "int VolumeGroup \<Rightarrow> loop_host \<Rightarrow> goerror option \<times> loop_host" where
  "loop_status_update vg h =
     (case lh_object h of
        None \<Rightarrow> (Some demo_not_found, h)
      | Some old \<Rightarrow> (None, h\<lparr>lh_object := Some (old\<lparr>vg_Status := vg_Status vg\<rparr>)\<rparr>))"

definition loop_lvg :: "loop_host \<Rightarrow> LvmVolumeGroup" where
  "loop_lvg h = demo_lvg\<lparr>lvg_Tags := lh_tags h, lvg_MaxPv := lh_maxpv h, lvg_MaxLv := lh_maxlv h,
     lvg_AllocationPolicy := lh_policy h, lvg_AutoActivation := lh_auto h\<rparr>"

definition loop_env :: "(int, loop_host) env" where
  "loop_env = \<lparr>
     ParseQuantity = ParseQuantity demo_env, NewQuantity = sint, Cmp = Cmp demo_env,
     AsApproximateFloat64 = AsApproximateFloat64 demo_env,
     Size_Validate = (\<lambda>s. None), Size_ToUnit = (\<lambda>s u. Inr s), unrepresentable_int64 = (\<lambda>f. 0),
     IsLVMErrVGMissingPVs = IsLVMErrVGMissingPVs demo_env,
     IsLVMErrNotFound = IsLVMErrNotFound demo_env, ErrVolumeGroupNotFound = ''vg not found'',
     IgnoreNotFound = IgnoreNotFound demo_env,
     SetStatusCondition = (\<lambda>h. demo_SetStatusCondition),
     AddFinalizer = AddFinalizer demo_env, RemoveFinalizer = RemoveFinalizer demo_env,
     IsContainerized = (\<lambda>h. False), StreamedCommand = (\<lambda>c h. (Inr demo_output, h)),
     Lvm_VG = (\<lambda>n h. (if n = ''vg1'' \<and> lh_group h then (Some (loop_lvg h), None)
                       else (None, Some (Leaf ''vg not found'' ''volume group not found'')), h)),
     Lvm_PVs = (\<lambda>n h. (Inr (map (\<lambda>p. demo_pv\<lparr>lpv_Name := p\<rparr>) (lh_pvs h)), h)),
     Lvm_exec = loop_exec,
     Api_Get = (\<lambda>k h. (case lh_object h of None \<Rightarrow> Inl demo_not_found | Some vg \<Rightarrow> Inr vg, h)),
     Api_Update = loop_update, Api_StatusUpdate = loop_status_update, Time_Now = (\<lambda>h. (30000000000, h))\<rparr>"

text \<open>A resource without the finalizer, and a host without its group.\<close>

definition fresh_vg :: "int VolumeGroup" where
  "fresh_vg = demo_vg\<lparr>vg_meta := demo_meta\<lparr>meta_Finalizers := []\<rparr>\<rparr>"

definition loop_start :: "int VolumeGroup \<Rightarrow> bool \<Rightarrow> bool \<Rightarrow> (int, loop_host) world" where
  "loop_start vg conflict present = \<lparr>host = \<lparr>lh_object = Some vg, lh_conflict = conflict, lh_group = present,
     lh_tags = [], lh_pvs = [], lh_maxpv = 0, lh_maxlv = 0, lh_policy = ''normal'', lh_auto = True\<rparr>, trace = []\<rparr>"

lemma is_deleted_timestamp:
  "meta_DeletionTimestamp (vg_meta vg) = meta_DeletionTimestamp (vg_meta vg') \<Longrightarrow> is_deleted vg = is_deleted vg'"
  by (simp add: is_deleted_def)

lemma loop_update_stored:
  assumes "loop_update vg h = (r, h')"
  shows "lh_group h' = lh_group h \<and>
    (if r = None then \<exists>old. lh_object h = Some old \<and> stored_after_update vg old (lh_object h')
     else lh_object h' = lh_object h)"
proof (cases "lh_object h")
  case None
  with assms show ?thesis by (auto simp: loop_update_def)
next
  case (Some old)
  let ?new = "old\<lparr>vg_Spec := vg_Spec vg,
    vg_meta := (vg_meta vg)\<lparr>meta_DeletionTimestamp := meta_DeletionTimestamp (vg_meta old)\<rparr>\<rparr>"
  have "is_deleted ?new = is_deleted old" by (rule is_deleted_timestamp) simp
  with assms Some show ?thesis
    by (cases "is_deleted old") (auto simp: loop_update_def stored_after_update_def split: if_splits)
qed

lemma loop_api: "api_contract loop_env key loop_view"
  unfolding api_contract_def
proof (intro conjI allI impI)
  fix vg :: "int VolumeGroup" and h r h'
  assume "Api_Update loop_env vg h = (r, h')"
  then have u: "loop_update vg h = (r, h')" by (simp add: loop_env_def)
  show "cl_group (loop_view h') = cl_group (loop_view h)"
    "if r = None then \<exists>old. cl_object (loop_view h) = Some old \<and> stored_after_update vg old (cl_object (loop_view h'))
     else cl_object (loop_view h') = cl_object (loop_view h)"
    using loop_update_stored [OF u] by (simp_all add: loop_view_def)
qed (auto simp: loop_env_def loop_view_def loop_status_update_def demo_env_def demo_not_found_def split: option.splits)

lemma loop_change_frame [simp]: "lh_object (loop_change opt h) = lh_object h" "lh_group (loop_change opt h) = lh_group h"
  by (cases opt; simp)+

lemma loop_group: "group_contract loop_env ''vg1'' loop_view"
proof -
  have "cl_object (loop_view (snd (loop_exec c h))) = cl_object (loop_view h)"
    "cl_group (loop_view (snd (loop_exec c h))) \<Longrightarrow> cl_group (loop_view h) \<or> (\<exists>opts. c = VGCreate opts) \<or> (\<exists>a b. c = VGRename a b)"
    "c = VGRemove ''vg1'' f \<Longrightarrow> \<not> cl_group (loop_view (snd (loop_exec c h)))" for c h f
    by (cases c; simp add: loop_view_def split: if_splits)+
  then show ?thesis
    by (auto simp: group_contract_def loop_env_def) (metis snd_conv)+
qed

lemma loop_finalizers: "finalizer_contract loop_env"
  by (simp add: finalizer_contract_def loop_env_def demo_env_def)





text \<open>A reply without an error, to be evaluated.\<close>

fun no_error :: "reply outcome \<Rightarrow> bool" where
  "no_error (Ret (res, err)) = (err = None)"
| "no_error (Panic p) = False"

lemma no_error_iff: "no_error q \<longleftrightarrow> (\<exists>res. q = Ret (res, None))"
  by (cases q rule: no_error.cases) auto

definition loop_reconciler :: VolumeGroupReconciler where
  "loop_reconciler = \<lparr>rec_NodeName = ''node1'', rec_SyncInterval = 10000000000\<rparr>"

section \<open>No group is left behind\<close>



text \<open>
  C26. Before the finalizer is stored there is no such protection, because the group is created
  first: with an API server and an lvm2 that keep their contracts, a reconciliation whose update
  meets a conflict, followed by the deletion of the resource, leaves the group without a resource.
\<close>

theorem creation_before_finalizer_leaks:
  "\<exists>w w'. \<not> cl_group (loop_view (host w)) \<and> (\<exists>vg. cl_object (loop_view (host w)) = Some vg) \<and>
     (loop_step loop_env loop_reconciler ''vg1'' loop_view)\<^sup>*\<^sup>* w w' \<and>
     cl_group (loop_view (host w')) \<and> cl_object (loop_view (host w')) = None"
proof -
  let ?w = "loop_start fresh_vg True False"
  have "(case Reconcile loop_env loop_reconciler ''vg1'' ?w of
      None \<Rightarrow> False | Some (q, w) \<Rightarrow> lh_group (host w) \<and>
        (case lh_object (host w) of None \<Rightarrow> False | Some vg \<Rightarrow> GetFinalizers vg = []))"
    by code_simp
  then obtain q w1 vg where run: "Reconcile loop_env loop_reconciler ''vg1'' ?w = Some (q, w1)"
    and w1: "lh_group (host w1)" "lh_object (host w1) = Some vg" "GetFinalizers vg = []"
    by (auto split: option.splits)
  let ?w2 = "w1\<lparr>host := (host w1)\<lparr>lh_object := None\<rparr>\<rparr>"
  have "outside (loop_view (host w1)) ((loop_view (host w1))\<lparr>cl_object := None\<rparr>)"
    by (rule delete_at_once) (use w1 in \<open>simp_all add: loop_view_def\<close>)
  then have "outside (loop_view (host w1)) (loop_view ((host w1)\<lparr>lh_object := None\<rparr>))"
    by (simp add: loop_view_def)
  then have "loop_step loop_env loop_reconciler ''vg1'' loop_view w1 ?w2" by (rule changed)
  with reconciled [OF run] have "(loop_step loop_env loop_reconciler ''vg1'' loop_view)\<^sup>*\<^sup>* ?w ?w2"
    by (meson converse_rtranclp_into_rtranclp r_into_rtranclp)
  then show ?thesis
    using w1 by (intro exI [of _ ?w] exI [of _ ?w2]) (simp add: loop_view_def loop_start_def)
qed

section \<open>The loop gets there\<close>



text \<open>
  C19. One reconciliation without an error finishes the removal of a deleted resource that has no
  other finalizers: the group is gone and so is the resource.
\<close>

theorem deletion_completes:
  assumes "api_contract E key view" "group_contract E (getNameOnNode vg) view" "finalizer_contract E"
    and "cl_object (view (host w)) = Some vg" "is_deleted vg" "GetFinalizers vg = [VolumeGroupFinalizer]"
    and "rec_NodeName r = spec_NodeName (vg_Spec vg)"
    and "Reconcile E r key w = Some (Ret (res, None), w')"
  shows "cl_object (view (host w')) = None \<and> \<not> cl_group (view (host w'))"
proof -
  obtain g w0 where get: "api_get E key w = (Ret g, w0)" by (simp add: call_runs Let_def)
  note v = api_get_view [OF assms(1) get]
  have g: "g = Inr vg"
  proof (cases g)
    case (Inl e)
    with assms(8) get have "IgnoreNotFound E e = None" by (simp add: Reconcile_def andThenL_run returning_run return_run)
    with v(2) Inl assms(4) show ?thesis by simp
  qed (use v(2) assms(4) in simp)
  have "reconcile_deletion E vg w0 = (Ret (res, None), w')"
    using assms(5,7,8) by (simp add: Reconcile_fetched [OF get [unfolded g]] reconcile_fetched_def returning_run)
  then show ?thesis
  proof (cases rule: reconcile_deletion_cases)
    case (failed force h e)
    then show ?thesis by (simp add: wrap_def)
  next
    case (removed force h w1 fs updated)
    have "updated" "fs = []" using removed(4) assms(3,6) by (auto simp: finalizer_contract_def)
    with removed(5) have upd: "api_update E (set_Finalizers fs vg) w1 = (Ret None, w')" by auto
    have "cl_object (view (host w1)) = Some vg"
      using removed(1,3) assms(4) v(1) exec_view(1) [OF assms(2)] Time_Now_view [OF assms(2)] by simp
    with api_update_view(3) [OF assms(1) upd] have "cl_object (view (host w')) = None"
      using assms(5) \<open>fs = []\<close> by (simp add: stored_after_update_def set_Finalizers_def)
    moreover have "\<not> cl_group (view (host w1))"
      using exec_view(3) [OF assms(2) _ removed(2), of force] removed(3) by simp
    ultimately show ?thesis using api_update_view(1) [OF assms(1) upd] by simp
  qed simp
qed

theorem deletion_completes_witness:
  "\<exists>res w'. Reconcile loop_env loop_reconciler ''vg1'' (loop_start demo_deleted False True) = Some (Ret (res, None), w') \<and>
     cl_object (loop_view (host w')) = None \<and> \<not> cl_group (loop_view (host w'))"
proof -
  let ?w = "loop_start demo_deleted False True"
  have "(case Reconcile loop_env loop_reconciler ''vg1'' ?w of
      None \<Rightarrow> False
    | Some (q, w) \<Rightarrow> no_error q)"
    by code_simp
  then obtain res w' where run: "Reconcile loop_env loop_reconciler ''vg1'' ?w = Some (Ret (res, None), w')"
    by (auto simp: no_error_iff split: option.splits)
  have n: "getNameOnNode demo_deleted = ''vg1''"
    by (simp add: demo_deleted_def demo_vg_def demo_spec_def getNameOnNode_def)
  have obj: "cl_object (loop_view (host ?w)) = Some demo_deleted" "is_deleted demo_deleted"
    "GetFinalizers demo_deleted = [VolumeGroupFinalizer]"
    "rec_NodeName loop_reconciler = spec_NodeName (vg_Spec demo_deleted)"
    by (simp_all add: demo_deleted_def demo_vg_def demo_spec_def demo_meta_def is_deleted_def loop_view_def
        loop_start_def loop_reconciler_def zero_time_def VolumeGroupFinalizer_def)
  from deletion_completes [OF loop_api loop_group [folded n] loop_finalizers obj run] run show ?thesis by blast
qed

end
