(* ===== verification/Spec2Isabelle.thy ===== *)
theory Spec2Isabelle
  imports Prelude GoErrors GoUtils Api Lsblk External Effects LsblkCommand Selector Conversion
    Conditions Sync SyncStatus SyncLoop LossRecovery Convergence Reconcile ReconcileRuns ControlLoop
    StartUp Memory DeepCopy Demo DeviceProperties SyncProperties ResourceProperties DeepCopyProperties
    LoopProperties
begin

text \<open>
  \<^bold>\<open>topovgm, a controller for LVM volume groups on Kubernetes nodes.\<close>

  A \<open>VolumeGroup\<close> resource says which volume group a node should have. The reconciler of that node
  fetches the resource, looks the group up with lvm2, creates it when it is absent, puts a finalizer
  on the resource, makes the group agree with the spec, writes what lvm2 reports into the status,
  and removes the group when the resource is deleted. The physical volumes of a group are chosen by
  a selector over the output of \<open>lsblk\<close>.

  \<^bold>\<open>Parts, and where they are modelled.\<close>

  \<^item> \<open>internal/utils\<close>: \<^theory_text>\<open>GoUtils\<close> has the set differences by which lists are compared
    (\<open>InLeftButNotInRight\<close>, \<open>SequentialTwoWaySync\<close>), \<open>Map\<close> and \<open>ToSnakeCase\<close>. \<^theory_text>\<open>GoErrors\<close> has Go's
    error values: wrapping, joining and \<open>errors.Is\<close>. \<^theory_text>\<open>Prelude\<close> has machine integers, floats,
    panics as outcomes, and programs as functions from a world to an outcome and a world.
  \<^item> \<open>api/v1alpha1/volumegroup_types.go\<close>: \<^theory_text>\<open>Api\<close>, the resource as records with the fields of the
    structs; nil pointers and nil slices are \<open>None\<close> where the code tells them from empty ones.
  \<^item> \<open>internal/lsblk\<close>: \<^theory_text>\<open>Lsblk\<close> (block devices as decoded JSON, the columns, the device tree) and
    \<^theory_text>\<open>LsblkCommand\<close> (the command line and its errors).
  \<^item> \<open>internal/selector\<close>: \<^theory_text>\<open>Selector\<close>, the requirements, terms and selectors, with the set of
    devices that a selector denotes as their specification.
  \<^item> \<open>volumegroup_conversion_util.go\<close>: \<^theory_text>\<open>Conversion\<close>, names, sizes and the arguments of \<open>vgcreate\<close>.
  \<^item> \<open>volumegroup_synced_on_host.go\<close>: \<^theory_text>\<open>Conditions\<close>, the one status condition.
  \<^item> \<open>volumegroup_controller_sync.go\<close>: \<^theory_text>\<open>Sync\<close> has the six syncers, each an instance of the locale
    \<open>syncer\<close>, and \<open>sync\<close> with its recovery from lost devices; \<^theory_text>\<open>SyncStatus\<close> has the status summary.
  \<^item> \<open>volumegroup_controller.go\<close>: \<^theory_text>\<open>Reconcile\<close>, in the phases of the code: fetch, deletion, discovery
    and creation, finalizer, synchronisation and report.
  \<^item> \<open>zz_generated.deepcopy.go\<close>: \<^theory_text>\<open>DeepCopy\<close>, over the heap, pointers and slices of \<^theory_text>\<open>Memory\<close>;
    each \<open>DeepCopyInto\<close> is shown to be a \<open>copier\<close>, an interpretation of that locale where it calls
    no copy of another package.
  \<^item> \<open>cmd/main.go\<close>, \<open>groupversion_info.go\<close> and \<open>SetupWithManager\<close>: \<^theory_text>\<open>StartUp\<close>, the flags, the options
    made of them, and the calls up to the running manager.

  \<^bold>\<open>The outside.\<close> lvm2go, controller-runtime, apimachinery, the clock and the processes are fields
  of the record \<open>env\<close> of \<^theory_text>\<open>External\<close>, over a type of hosts that nothing is known of; the same holds
  for \<open>setup_env\<close> and \<open>copy_env\<close>. Every call is appended to the trace of the \<open>world\<close>, so theorems
  can say what was asked of the outside and in which order. What a theorem assumes of the outside
  is a named predicate that states documented behaviour: \<open>condition_store\<close> of
  \<open>meta.SetStatusCondition\<close>, \<open>lvm_contract\<close> and \<open>lookup_contract\<close> and \<open>group_contract\<close> of lvm2,
  \<open>api_contract\<close> of the API server, \<open>finalizer_contract\<close> of controllerutil, \<open>classifies_missing\<close> of
  lvm2go's error classes, \<open>deep_copies\<close> of apimachinery's copies. \<^theory_text>\<open>Demo\<close>, and the environments
  next to the properties, satisfy them.

  \<^bold>\<open>Loops.\<close> All recursion is structural or has a measure, but for \<open>sync\<close>: it calls itself after a
  removal of missing devices, as often as lvm2 reports missing devices again, and is a
  \<open>partial_function\<close> whose value is \<open>None\<close> when it never returns. There is no fuel. That it returns
  is a theorem for hosts that a removal settles (\<open>sync_terminates\<close>), and that it need not is one too
  (\<open>sync_unbounded\<close>).

  \<^bold>\<open>Lemmas.\<close> \<^theory_text>\<open>Effects\<close> has the effect contracts (\<open>emits\<close>: which events a program can append) and
  \<open>never_panics\<close>, with rules that follow the program text. \<^theory_text>\<open>SyncLoop\<close> has induction over the rounds
  of \<open>sync\<close>, what it issues and reports; \<^theory_text>\<open>LossRecovery\<close> its termination; \<^theory_text>\<open>Convergence\<close> an abstract
  volume group, which \<open>sync\<close> refines: each syncer reaches its goal and leaves the goals of the others
  alone (locale \<open>achiever\<close>), so a synchronisation without error ends in the spec. \<^theory_text>\<open>ReconcileRuns\<close>
  has the paths of \<open>Reconcile\<close>. \<^theory_text>\<open>ControlLoop\<close> puts reconciliations and other actors into one step
  relation, with the invariant that no volume group is left behind.

  \<^bold>\<open>Properties.\<close> \<^theory_text>\<open>DeviceProperties\<close> has those of selection, \<^theory_text>\<open>SyncProperties\<close> of \<open>sync\<close>,
  \<^theory_text>\<open>ResourceProperties\<close> of conversion and status, \<^theory_text>\<open>DeepCopyProperties\<close> of the copies, \<^theory_text>\<open>StartUp\<close> of the
  start-up, \<^theory_text>\<open>LoopProperties\<close> of the control loop, and this theory those of a single reconciliation.

  \<^bold>\<open>Not modelled.\<close> Logging. The ten-second timeout of the context: a call that it cuts off is an
  error of that call. JSON decoding: the decoded value is what \<open>StreamedCommand\<close> returns. The
  validation markers of the API types, which the API server checks, but for the enumeration of
  selector keys. Stale reads: where a theorem speaks of the stored object, a read is assumed to
  return it. Memory inside quantities, conditions and metadata, whose copies are apimachinery's.
  The parsing of flags. The test code under \<open>test\<close> and the controller's tests.
\<close>

section \<open>Deletion\<close>

text \<open>
  C4. The removal of a deleted resource asks lvm2 exactly once to remove the volume group, with
  force exactly when the grace period is over; the finalizer is taken off, by one update, only
  after lvm2 removed the group or did not know it, and any other error is returned with the
  resource untouched.
\<close>

theorem deletion_protocol:
  assumes "api_get E key w = (Ret (Inr vg), w0)" and "rec_NodeName r = spec_NodeName (vg_Spec vg)"
    and "meta_DeletionTimestamp (vg_meta vg) = Some ts" "ts \<noteq> zero_time"
    and "meta_DeletionGracePeriodSeconds (vg_meta vg) = Some secs"
    and "RemoveFinalizer E (GetFinalizers vg) VolumeGroupFinalizer = (fs, updated)"
    and "Reconcile E r key w = Some (reply, w')"
  shows "let c = VGRemove (getNameOnNode vg) (fst (Time_Now E (host w0)) > force_at ts secs) in
    \<exists>x. if x = None \<or> IsLVMErrNotFound E (the x)
     then if updated
       then \<exists>y. trace w' = trace w @ [EvGet key, EvNow, EvLvm c x, EvUpdate (set_Finalizers fs vg) y] \<and>
              reply = Ret (empty_result, y)
       else trace w' = trace w @ [EvGet key, EvNow, EvLvm c x] \<and> reply = Ret (requeue, None)
     else trace w' = trace w @ [EvGet key, EvNow, EvLvm c x] \<and>
          reply = Ret (empty_result, wrap ''failed to remove volume group'' x)"
proof -
  let ?c = "VGRemove (getNameOnNode vg) (fst (Time_Now E (host w0)) > force_at ts secs)"
  let ?x = "fst (Lvm_exec E ?c (snd (Time_Now E (host w0))))"
  have tr0: "trace w0 = trace w @ [EvGet key]" by (rule api_get_trace [OF assms(1)])
  have run: "reconcile_deletion E vg w0 = (reply, w')"
    using assms(2-5,7) Reconcile_fetched [OF assms(1), of r]
    by (simp add: reconcile_fetched_def is_deleted_def returning_run)
  show ?thesis
    unfolding Let_def
    using run tr0 assms(3,5,6)
    by (intro exI [of _ ?x], cases ?x)
      (auto simp: reconcile_deletion_def deref_def andThen_run return_run Let_def exec_lvm_run
        call_runs split: prod.splits if_splits)
qed

definition demo_reconciler :: VolumeGroupReconciler where
  "demo_reconciler = \<lparr>rec_NodeName = ''node1'', rec_SyncInterval = 10000000000\<rparr>"

lemma demo_own: "rec_NodeName demo_reconciler = spec_NodeName (vg_Spec demo_vg)"
  "rec_NodeName demo_reconciler = spec_NodeName (vg_Spec demo_deleted)"
  by (simp_all add: demo_reconciler_def demo_vg_def demo_deleted_def demo_spec_def)

lemma demo_get:
  obtains w0 where "api_get demo_env ''vg1'' (demo_world d) = (Ret (Inr demo_vg), w0)" "host w0 = d"
proof -
  have "fst (Api_Get demo_env ''vg1'' d) = Inr demo_vg" "snd (Api_Get demo_env ''vg1'' d) = d"
    by (simp_all add: demo_env_def)
  then show thesis by (intro that) (simp add: call_runs Let_def demo_world_def)+
qed

lemma demo_get_deleted:
  obtains w0 where "api_get demo_env ''deleted'' (demo_world d) = (Ret (Inr demo_deleted), w0)" "host w0 = d"
proof -
  have "fst (Api_Get demo_env ''deleted'' d) = Inr demo_deleted" "snd (Api_Get demo_env ''deleted'' d) = d"
    by (simp_all add: demo_env_def)
  then show thesis by (intro that) (simp add: call_runs Let_def demo_world_def)+
qed

theorem deletion_protocol_witness:
  "\<exists>reply w' x es. Reconcile demo_env demo_reconciler ''deleted'' (demo_world False) = Some (reply, w') \<and>
     trace w' = [EvGet ''deleted'', EvNow, EvLvm (VGRemove ''vg1'' True) x] @ es"
proof -
  obtain w0 where get: "api_get demo_env ''deleted'' (demo_world False) = (Ret (Inr demo_deleted), w0)"
    and h: "host w0 = False"
    by (rule demo_get_deleted)
  have "Reconcile demo_env demo_reconciler ''deleted'' (demo_world False) \<noteq> None" by code_simp
  then obtain reply w' where run: "Reconcile demo_env demo_reconciler ''deleted'' (demo_world False) = Some (reply, w')"
    by fastforce
  have meta: "meta_DeletionTimestamp (vg_meta demo_deleted) = Some 0" "(0 :: int) \<noteq> zero_time"
    "meta_DeletionGracePeriodSeconds (vg_meta demo_deleted) = Some 10"
    by (simp_all add: demo_deleted_def zero_time_def)
  obtain fs updated where fin: "RemoveFinalizer demo_env (GetFinalizers demo_deleted) VolumeGroupFinalizer = (fs, updated)"
    by fastforce
  have "fst (Time_Now demo_env (host w0)) > force_at 0 10" by (simp add: demo_env_def force_at_def grace_duration_def)
  moreover have "getNameOnNode demo_deleted = ''vg1''"
    by (simp add: demo_deleted_def demo_vg_def demo_spec_def getNameOnNode_def)
  moreover have "trace (demo_world False) = []" by (simp add: demo_world_def)
  ultimately show ?thesis
    using deletion_protocol [OF get demo_own(2) meta fin run] run
    by (auto simp: Let_def split: if_splits)
qed

lemma grace_exact:
  "sint (grace_duration secs) = sint secs * 1000000000 \<longleftrightarrow> \<bar>sint secs\<bar> \<le> 9223372036"
proof -
  have "sint (grace_duration secs) = signed_take_bit 63 (sint secs * 1000000000)"
    unfolding grace_duration_def sint_word_ariths by simp
  moreover have "- (2 ^ 63) \<le> k * 1000000000 \<and> k * 1000000000 < 2 ^ 63 \<longleftrightarrow> \<bar>k\<bar> \<le> 9223372036" for k :: int
    by (simp add: abs_le_iff) linarith
  ultimately show ?thesis by (simp only: signed_take_bit_int_eq_self_iff)
qed

text \<open>
  C29. The end of the grace period is computed exactly for a grace period of up to 9223372036
  seconds either way, and never beyond: there the 64-bit product of nanoseconds wraps around, and
  one second more puts the end of the grace period before the deletion itself.
\<close>

theorem grace_period_bounds:
  "(\<bar>sint secs\<bar> \<le> 9223372036 \<longleftrightarrow> force_at ts secs = ts + sint secs * 1000000000) \<and>
   force_at ts 9223372037 < ts"
proof -
  have "sint (grace_duration 9223372037) < 0" by code_simp
  with grace_exact [of secs] show ?thesis by (simp add: force_at_def)
qed

section \<open>Who may change what\<close>

text \<open>
  C18. Every LVM command of a reconciliation names the volume group of the resource it was called
  for, and none renames a group, whatever the observation says: \<open>syncName\<close> compares the wanted
  name with the name of the group that was looked up under it.
\<close>

theorem reconcile_own_group:
  assumes "finds_by_name E" and "api_get E key w = (Ret (Inr vg), w0)"
    and "Reconcile E r key w = Some (reply, w')"
  shows "\<exists>es. trace w' = trace w @ EvGet key # es \<and>
    (\<forall>c x. EvLvm c x \<in> set es \<longrightarrow> names_group (getNameOnNode vg) c) \<and>
    (\<forall>a b x. EvLvm (VGRename a b) x \<notin> set es)"
proof -
  have "reconcile_fetched E r vg w0 = Some (reply, w')"
    using assms(3) Reconcile_fetched [OF assms(2)] by simp
  then obtain es where es: "trace w' = trace w0 @ es" "\<forall>e \<in> set es. own_event (getNameOnNode vg) e"
    by (rule emitsL_run [OF reconcile_fetched_own [OF assms(1)]])
  have "names_group (getNameOnNode vg) c" if "EvLvm c x \<in> set es" for c x
    using es(2) that by fastforce
  with es(1) api_get_trace [OF assms(2)] show ?thesis by (intro exI [of _ es]) fastforce
qed

lemma demo_finds: "finds_by_name demo_env"
  by (auto simp: finds_by_name_def demo_env_def demo_lvg_def split: if_splits)

theorem reconcile_own_group_witness:
  "\<exists>reply w' es. Reconcile demo_env demo_reconciler ''vg1'' (demo_world True) = Some (reply, w') \<and>
     trace w' = EvGet ''vg1'' # es \<and> (\<forall>c x. EvLvm c x \<in> set es \<longrightarrow> names_group ''vg1'' c)"
proof -
  obtain w0 where get: "api_get demo_env ''vg1'' (demo_world True) = (Ret (Inr demo_vg), w0)"
    by (rule demo_get)
  have "Reconcile demo_env demo_reconciler ''vg1'' (demo_world True) \<noteq> None" by code_simp
  then obtain reply w' where run: "Reconcile demo_env demo_reconciler ''vg1'' (demo_world True) = Some (reply, w')"
    by fastforce
  have "getNameOnNode demo_vg = ''vg1''" "trace (demo_world True) = []"
    by (simp_all add: demo_vg_def demo_spec_def getNameOnNode_def demo_world_def)
  with reconcile_own_group [OF demo_finds get run] run show ?thesis by auto
qed

text \<open>
  A resource of another node, or one that cannot be fetched, makes a reconciliation do nothing
  but the fetch; the reply is empty, and an error other than \<open>not found\<close> is passed on.
\<close>

theorem reconcile_inert:
  assumes "api_get E key w = (Ret g, w0)"
    and "\<And>vg. g = Inr vg \<Longrightarrow> rec_NodeName r \<noteq> spec_NodeName (vg_Spec vg)"
  shows "Reconcile E r key w = Some (Ret (empty_result,
      case g of Inl err \<Rightarrow> IgnoreNotFound E err | Inr vg \<Rightarrow> None), w0) \<and>
    trace w0 = trace w @ [EvGet key]"
  using assms api_get_trace [OF assms(1)]
  by (cases g) (simp_all add: Reconcile_def andThenL_run returning_run return_run reconcile_fetched_def)

theorem reconcile_inert_witness:
  "\<exists>w0. Reconcile demo_env \<lparr>rec_NodeName = ''node2'', rec_SyncInterval = 1\<rparr> ''vg1'' (demo_world False) =
     Some (Ret (empty_result, None), w0) \<and> trace w0 = [EvGet ''vg1'']"
proof -
  obtain w0 where get: "api_get demo_env ''vg1'' (demo_world False) = (Ret (Inr demo_vg), w0)"
    by (rule demo_get)
  show ?thesis
    using reconcile_inert [OF get, of "\<lparr>rec_NodeName = ''node2'', rec_SyncInterval = 1\<rparr>"]
    by (auto simp: demo_vg_def demo_spec_def demo_world_def)
qed



section \<open>Creation\<close>

text \<open>
  C25. When the group is absent and lvm2 cannot create it, the reconciliation writes the failure of
  this creation into the status condition, for this generation, and returns the error of the
  creation, joined with that of the status update, so that the resource is tried again.
\<close>

theorem creation_failure_reported:
  assumes "condition_store E" and "api_get E key w = (Ret (Inr vg), w0)"
    and "rec_NodeName r = spec_NodeName (vg_Spec vg)" "\<not> is_deleted vg"
    and "query_VG E (getNameOnNode vg) w0 = (Ret (lvm, q), w1)" "errors_Is q (ErrVolumeGroupNotFound E)"
    and "convertToVGCreateOptions E vg w1 = (Ret (Inr opts), w2)"
    and "exec_lvm E (VGCreate opts) w2 = (Ret (Some e), w3)"
  shows "\<exists>vg' u w'. Reconcile E r key w = Some (Ret (empty_result, errors_Join [Some e, u]), w') \<and>
    trace w' = trace w3 @ [EvStatusUpdate vg' u] \<and> reports vg' (failed_condition (GetGeneration vg) e) \<and>
    vg_Spec vg' = vg_Spec vg \<and> vg_meta vg' = vg_meta vg"
proof -
  let ?vg = "set_Conditions (SetSyncedOnHostCreationFailed E (host w3)
    (st_Conditions (vg_Status vg)) (GetGeneration vg) e) vg"
  have init: "initializeVG E vg w1 = (Ret (?vg, Some e), w3)"
    using assms(7,8) by (simp add: initializeVG_def andThen_run return_run read_host_def)
  let ?u = "fst (Api_StatusUpdate E ?vg (host w3))"
  let ?w = "log_event (EvStatusUpdate ?vg ?u) (snd (Api_StatusUpdate E ?vg (host w3))) w3"
  have "Reconcile E r key w = reconcile_host E r vg w0"
    using assms(3,4) by (simp add: Reconcile_fetched [OF assms(2)] reconcile_fetched_def)
  also have "\<dots> = Some (Ret (empty_result, errors_Join [Some e, ?u]), ?w)"
  proof -
    have "discover E vg w0 = (Ret (?vg, lvm, Some e), w3)"
      using assms(5,6) init by (simp add: discover_def andThen_run return_run)
    moreover have "api_status_update E ?vg w3 = (Ret ?u, ?w)" by (simp add: call_runs Let_def)
    ultimately show ?thesis
      by (simp add: reconcile_host_def andThenL_run returning_run andThen_run return_run)
  qed
  finally have run: "Reconcile E r key w = Some (Ret (empty_result, errors_Join [Some e, ?u]), ?w)" .
  have "reports ?vg (failed_condition (GetGeneration vg) e)"
    unfolding SetSyncedOnHostCreationFailed_def by (rule reports_set_Conditions [OF assms(1)]) simp
  with run show ?thesis
    by (intro exI [of _ ?vg] exI [of _ ?u] exI [of _ ?w]) simp
qed

definition bare_env :: "(int, bool) env" where
  "bare_env = demo_env\<lparr>Lvm_VG := \<lambda>n h. ((None, Some (Leaf ''vg not found'' ''volume group not found'')), h),
     Lvm_exec := \<lambda>c h. (None, h)\<rparr>"

definition broken_env :: "(int, bool) env" where
  "broken_env = bare_env\<lparr>Lvm_exec := \<lambda>c h. (Some (Leaf ''lvm'' ''vgcreate failed''), h)\<rparr>"

definition bare_world :: "(int, bool) world" where
  "bare_world = \<lparr>host = False, trace = [EvGet ''vg1'',
     EvVG ''vg1'' (Some (Leaf ''vg not found'' ''volume group not found''))]\<rparr>"

lemma bare_converts:
  assumes "E \<in> {bare_env, broken_env}"
  obtains opts w2 where "convertToVGCreateOptions E demo_vg bare_world = (Ret (Inr opts), w2)"
proof -
  note found = that
  have ok: "isok (fst (convertToVGCreateOptions E demo_vg bare_world)) \<Longrightarrow> thesis"
    if "isok = (\<lambda>r. case r of Ret (Inr opts) \<Rightarrow> True | _ \<Rightarrow> False)" for isok
    using that by (cases "convertToVGCreateOptions E demo_vg bare_world")
      (auto split: outcome.splits sum.splits intro: found)
  from assms consider "E = bare_env" | "E = broken_env" by blast
  then show thesis
  proof cases
    case 1
    show thesis by (rule ok [OF refl]) (unfold 1, code_simp)
  next
    case 2
    show thesis by (rule ok [OF refl]) (unfold 2, code_simp)
  qed
qed

lemma bare_runs:
  assumes "E \<in> {bare_env, broken_env}"
  obtains w0 opts w2 where "api_get E ''vg1'' (demo_world False) = (Ret (Inr demo_vg), w0)"
    "query_VG E ''vg1'' w0 = (Ret (None, Some (Leaf ''vg not found'' ''volume group not found'')), bare_world)"
    "convertToVGCreateOptions E demo_vg bare_world = (Ret (Inr opts), w2)"
proof -
  define w0 :: "(int, bool) world" where "w0 = \<lparr>host = False, trace = [EvGet ''vg1'']\<rparr>"
  have "fst (Api_Get E ''vg1'' h) = Inr demo_vg" "snd (Api_Get E ''vg1'' h) = h"
    "Lvm_VG E n h = ((None, Some (Leaf ''vg not found'' ''volume group not found'')), h)" for n h
    using assms by (auto simp: bare_env_def broken_env_def demo_env_def)
  then have "api_get E ''vg1'' (demo_world False) = (Ret (Inr demo_vg), w0)"
    "query_VG E ''vg1'' w0 = (Ret (None, Some (Leaf ''vg not found'' ''volume group not found'')), bare_world)"
    by (simp_all add: call_runs Let_def demo_world_def log_event_def w0_def bare_world_def)
  moreover obtain opts w2 where "convertToVGCreateOptions E demo_vg bare_world = (Ret (Inr opts), w2)"
    using bare_converts [OF assms] .
  ultimately show thesis by (rule that)
qed

lemma demo_name: "getNameOnNode demo_vg = ''vg1''"
  by (simp add: demo_vg_def demo_spec_def getNameOnNode_def)

lemma demo_live: "\<not> is_deleted demo_vg"
  by (simp add: is_deleted_def demo_vg_def demo_meta_def)

theorem creation_failure_reported_witness:
  "\<exists>vg' u w'. Reconcile broken_env demo_reconciler ''vg1'' (demo_world False) =
      Some (Ret (empty_result, errors_Join [Some (Leaf ''lvm'' ''vgcreate failed''), u]), w') \<and>
    last (trace w') = EvStatusUpdate vg' u \<and> reports vg' (failed_condition 3 (Leaf ''lvm'' ''vgcreate failed''))"
proof -
  obtain w0 opts w2 where run: "api_get broken_env ''vg1'' (demo_world False) = (Ret (Inr demo_vg), w0)"
    "query_VG broken_env ''vg1'' w0 = (Ret (None, Some (Leaf ''vg not found'' ''volume group not found'')), bare_world)"
    "convertToVGCreateOptions broken_env demo_vg bare_world = (Ret (Inr opts), w2)"
    by (rule bare_runs [of broken_env]) simp_all
  have store: "condition_store broken_env"
    using demo_condition_store by (simp add: condition_store_def broken_env_def bare_env_def)
  obtain w3 where ex: "exec_lvm broken_env (VGCreate opts) w2 = (Ret (Some (Leaf ''lvm'' ''vgcreate failed'')), w3)"
    by (simp add: exec_lvm_run broken_env_def)
  have nf: "errors_Is (Some (Leaf ''vg not found'' ''volume group not found'')) (ErrVolumeGroupNotFound broken_env)"
    by (simp add: broken_env_def bare_env_def demo_env_def)
  have "GetGeneration demo_vg = 3" by (simp add: demo_vg_def demo_meta_def)
  with creation_failure_reported [OF store run(1) demo_own(1) demo_live _ nf run(3) ex] run(2) show ?thesis
    by (fastforce simp: demo_name)
qed

text \<open>
  C24. When the group is absent, is created now, and the finalizer is on the resource already (the
  group was lost on the host), the reconciliation panics right after the creation: it synchronises
  with the result of the lookup that found nothing.
\<close>

theorem recreated_group_panics:
  assumes "api_get E key w = (Ret (Inr vg), w0)"
    and "rec_NodeName r = spec_NodeName (vg_Spec vg)" "\<not> is_deleted vg"
    and "query_VG E (getNameOnNode vg) w0 = (Ret (None, q), w1)" "errors_Is q (ErrVolumeGroupNotFound E)"
    and "convertToVGCreateOptions E vg w1 = (Ret (Inr opts), w2)"
    and "exec_lvm E (VGCreate opts) w2 = (Ret None, w3)"
    and "AddFinalizer E (GetFinalizers vg) VolumeGroupFinalizer = (fs, False)"
  shows "Reconcile E r key w = Some (Panic NilDereference, w3)"
proof -
  have init: "initializeVG E vg w1 = (Ret (vg, None), w3)"
    using assms(6,7) by (simp add: initializeVG_def andThen_run return_run)
  have "Reconcile E r key w = reconcile_host E r vg w0"
    using assms(2,3) by (simp add: Reconcile_fetched [OF assms(1)] reconcile_fetched_def)
  also have "\<dots> = sync_and_report E r vg None w3"
    by (rule reconcile_host_recreated [OF assms(4,5) init assms(8)])
  also have "\<dots> = Some (Panic NilDereference, w3)"
    by (simp add: sync_and_report_def andThenL_run sync_nil)
  finally show ?thesis .
qed

theorem recreated_group_panics_witness:
  "\<exists>opts w'. Reconcile bare_env demo_reconciler ''vg1'' (demo_world False) = Some (Panic NilDereference, w') \<and>
     last (trace w') = EvLvm (VGCreate opts) None"
proof -
  obtain w0 opts w2 where run: "api_get bare_env ''vg1'' (demo_world False) = (Ret (Inr demo_vg), w0)"
    "query_VG bare_env ''vg1'' w0 = (Ret (None, Some (Leaf ''vg not found'' ''volume group not found'')), bare_world)"
    "convertToVGCreateOptions bare_env demo_vg bare_world = (Ret (Inr opts), w2)"
    by (rule bare_runs [of bare_env]) simp_all
  define w3 where "w3 = log_event (EvLvm (VGCreate opts) None) (host w2) w2"
  have ex: "exec_lvm bare_env (VGCreate opts) w2 = (Ret None, w3)"
    by (simp add: exec_lvm_run bare_env_def w3_def)
  have nf: "errors_Is (Some (Leaf ''vg not found'' ''volume group not found'')) (ErrVolumeGroupNotFound bare_env)"
    by (simp add: bare_env_def demo_env_def)
  have fin: "AddFinalizer bare_env (GetFinalizers demo_vg) VolumeGroupFinalizer = (GetFinalizers demo_vg, False)"
    by (simp add: bare_env_def demo_env_def demo_vg_def demo_meta_def VolumeGroupFinalizer_def)
  from recreated_group_panics [OF run(1) demo_own(1) demo_live run(2) [folded demo_name] nf run(3) ex fin]
  show ?thesis by (intro exI [of _ opts] exI [of _ w3]) (simp add: w3_def)
qed

section \<open>What a reconciliation reports and achieves\<close>











end
